(* ===== verification/Hdc_Prelude.thy ===== *)
theory Hdc_Prelude
  imports Main "HOL-Library.Word"
begin

text \<open>
  Shared vocabulary of the development: Rust's fixed-width integers and byte vectors, the
  \<open>io::Result\<close> type with its \<open>?\<close> operator, big-endian and little-endian conversion of
  integers, and the conversion between byte vectors and the byte-indexed strings that model
  Rust's \<open>String\<close>.

  Conventions used by every component:
  \<^item> \<open>u8\<close>, \<open>u16\<close>, \<open>u32\<close>, \<open>u64\<close> are words of that width; \<open>usize\<close> values (lengths, offsets)
    are \<open>nat\<close>;
  \<^item> \<open>Vec<u8>\<close> and \<open>&[u8]\<close> are \<^emph>\<open>bytes\<close>;
  \<^item> \<open>String\<close> and \<open>&str\<close> are \<open>string\<close>, one HOL character per UTF-8 byte, so that lengths and
    slice positions count bytes as they do in Rust;
  \<^item> \<open>io::Result<T>\<close> is a sum, \<open>Inl\<close> carrying the error and \<open>Inr\<close> the value;
  \<^item> a function whose source can panic returns an \<open>option\<close> around its result, \<open>None\<close> being
    the panic.
\<close>

unbundle bit_operations_syntax

named_theorems hdc_defs \<open>definitions of the protocol layer that proofs unfold together\<close>
named_theorems word_conv \<open>conversions between words and bytes\<close>

section \<open>Machine types\<close>

type_synonym u8 = "8 word"
type_synonym u16 = "16 word"
type_synonym u32 = "32 word"
type_synonym u64 = "64 word"
type_synonym bytes = "u8 list"

section \<open>Errors and results\<close>

datatype error_kind =
    InvalidData | InvalidInput | NotFound | PermissionDenied | ConnectionAborted
  | ConnectionRefused | TimedOut | AddrInUse | BrokenPipe | NotConnected | Interrupted
  | Unsupported | UnexpectedEof | OtherKind

datatype io_error = Error (err_kind: error_kind) (err_message: string)

type_synonym 'a io_result = "io_error + 'a"

text \<open>The \<open>?\<close> operator: stop at the first error, otherwise go on with the value.\<close>

definition and_then :: "'e + 'a \<Rightarrow> ('a \<Rightarrow> 'e + 'b) \<Rightarrow> 'e + 'b" where
  "and_then r f = (case r of Inl e \<Rightarrow> Inl e | Inr x \<Rightarrow> f x)"

lemma and_then_simps [simp]:
  "and_then (Inl e) f = Inl e"
  "and_then (Inr x) f = f x"
  by (simp_all add: and_then_def)

lemma and_then_eq_Inr [simp]: "and_then r f = Inr y \<longleftrightarrow> (\<exists>x. r = Inr x \<and> f x = Inr y)"
  by (cases r) auto

lemma and_then_eq_Inl: "and_then r f = Inl e \<longleftrightarrow> r = Inl e \<or> (\<exists>x. r = Inr x \<and> f x = Inl e)"
  by (cases r) auto

lemma and_then_assoc: "and_then (and_then r f) g = and_then r (\<lambda>x. and_then (f x) g)"
  by (cases r) auto

lemma and_then_cong [fundef_cong]:
  "r = r' \<Longrightarrow> (\<And>x. r' = Inr x \<Longrightarrow> f x = f' x) \<Longrightarrow> and_then r f = and_then r' f'"
  by (cases r') auto

text \<open>\<open>Result::is_ok\<close> and \<open>Result::ok\<close>.\<close>

definition is_ok :: "'e + 'a \<Rightarrow> bool" where
  "is_ok r = (case r of Inl _ \<Rightarrow> False | Inr _ \<Rightarrow> True)"

lemma is_ok_simps [simp]: "\<not> is_ok (Inl e)" "is_ok (Inr x)"
  by (simp_all add: is_ok_def)

definition res_ok :: "'e + 'a \<Rightarrow> 'a option" where
  "res_ok r = (case r of Inl _ \<Rightarrow> None | Inr x \<Rightarrow> Some x)"

lemma res_ok_simps [simp]: "res_ok (Inl e) = None" "res_ok (Inr x) = Some x"
  by (simp_all add: res_ok_def)

section \<open>Byte order\<close>

text \<open>
  \<open>to_be n w\<close> are the \<open>n\<close> low-order bytes of \<open>w\<close>, most significant first
  (\<open>to_be_bytes\<close>); \<open>from_be\<close> is the inverse (\<open>from_be_bytes\<close>). The little-endian
  forms are their reversals.
\<close>

primrec to_be :: "nat \<Rightarrow> 'a::len word \<Rightarrow> bytes" where
  "to_be 0 w = []"
| "to_be (Suc n) w = ucast (drop_bit (8 * n) w) # to_be n w"

definition from_be :: "bytes \<Rightarrow> 'a::len word" where
  "from_be bs = foldl (\<lambda>acc b. push_bit 8 acc OR ucast b) 0 bs"

definition to_le :: "nat \<Rightarrow> 'a::len word \<Rightarrow> bytes" where
  "to_le n w = rev (to_be n w)"

definition from_le :: "bytes \<Rightarrow> 'a::len word" where
  "from_le bs = from_be (rev bs)"

lemma length_to_be [simp]: "length (to_be n w) = n"
  by (induction n) auto

lemma length_to_le [simp]: "length (to_le n w) = n"
  by (simp add: to_le_def)

lemma from_be_Nil [simp]: "from_be [] = 0"
  by (simp add: from_be_def)

lemma from_be_snoc: "from_be (bs @ [b]) = push_bit 8 (from_be bs) OR ucast b"
  by (simp add: from_be_def)

text \<open>
  Splitting the least significant byte off: the recursion that matches \<open>from_be\<close>'s fold.
\<close>

lemma to_be_snoc: "to_be (Suc n) w = to_be n (drop_bit 8 w) @ [ucast w]"
  by (induction n) (simp_all add: drop_bit_drop_bit ac_simps)

lemma take_bit_split_byte:
  "push_bit 8 (take_bit n (drop_bit 8 w)) OR ucast (ucast w :: u8) = take_bit (n + 8) w"
  for w :: "'a::len word"
  by (rule bit_word_eqI)
    (auto simp: bit_or_iff bit_push_bit_iff bit_take_bit_iff bit_drop_bit_eq bit_ucast_iff
      dest: bit_imp_le_length)

theorem from_to_be: "from_be (to_be n w) = take_bit (8 * n) w"
proof (induction n arbitrary: w)
  case 0
  then show ?case by simp
next
  case (Suc n)
  have "from_be (to_be (Suc n) w)
      = push_bit 8 (take_bit (8 * n) (drop_bit 8 w)) OR ucast (ucast w :: u8)"
    by (simp only: to_be_snoc from_be_snoc Suc.IH)
  also have "\<dots> = take_bit (8 * n + 8) w"
    by (rule take_bit_split_byte)
  finally show ?case by (simp add: algebra_simps)
qed

lemma from_to_be_u16 [simp, word_conv]: "from_be (to_be 2 (w :: u16)) = w"
  by (simp add: from_to_be take_bit_word_eq_self)

lemma from_to_be_u32 [simp, word_conv]: "from_be (to_be 4 (w :: u32)) = w"
  by (simp add: from_to_be take_bit_word_eq_self)

lemma from_to_be_u64 [simp, word_conv]: "from_be (to_be 8 (w :: u64)) = w"
  by (simp add: from_to_be take_bit_word_eq_self)

lemma from_to_le_u16 [simp, word_conv]: "from_le (to_le 2 (w :: u16)) = w"
  by (simp add: from_le_def to_le_def)

text \<open>The other direction: decoding loses nothing as long as the word is wide enough.\<close>

lemma to_from_be:
  "8 * length bs \<le> LENGTH('a) \<Longrightarrow> to_be (length bs) (from_be bs :: 'a::len word) = bs"
proof (induction bs rule: rev_induct)
  case Nil
  then show ?case by simp
next
  case (snoc b bs)
  let ?v = "from_be bs :: 'a word"
  have low: "ucast (push_bit 8 ?v OR ucast b) = b"
    using snoc.prems
    by (intro bit_word_eqI) (auto simp: bit_ucast_iff bit_or_iff bit_push_bit_iff)
  have high: "drop_bit 8 (push_bit 8 ?v OR ucast b) = ?v"
  proof -
    have top: "\<not> bit ?v k" if "LENGTH('a) \<le> k + 8" for k
    proof -
      have "to_be (length bs) ?v = bs" using snoc by simp
      then have "take_bit (8 * length bs) ?v = ?v"
        by (metis from_to_be)
      then have "bit ?v k = bit (take_bit (8 * length bs) ?v) k" by simp
      then show ?thesis using snoc.prems that by (auto simp: bit_take_bit_iff)
    qed
    show ?thesis
    proof (rule bit_word_eqI)
      fix k assume "k < LENGTH('a)"
      show "bit (drop_bit 8 (push_bit 8 ?v OR ucast b)) k = bit ?v k"
        using top [of k] snoc.prems
        by (cases "LENGTH('a) \<le> k + 8")
          (auto simp: bit_drop_bit_eq bit_or_iff bit_push_bit_iff bit_ucast_iff
            dest: bit_imp_le_length)
    qed
  qed
  show ?case
    using snoc by (simp only: length_append_singleton to_be_snoc from_be_snoc low high) simp
qed

section \<open>Strings as UTF-8 bytes\<close>

definition byte_of_char :: "char \<Rightarrow> u8" where
  "byte_of_char c = of_char c"

definition char_of_byte :: "u8 \<Rightarrow> char" where
  "char_of_byte b = char_of (unat b)"

text \<open>\<open>str::as_bytes\<close> and its inverse on bytes already known to be valid UTF-8.\<close>

definition as_bytes :: "string \<Rightarrow> bytes" where
  "as_bytes s = map byte_of_char s"

definition of_bytes :: "bytes \<Rightarrow> string" where
  "of_bytes bs = map char_of_byte bs"

lemma length_as_bytes [simp]: "length (as_bytes s) = length s"
  by (simp add: as_bytes_def)

lemma length_of_bytes [simp]: "length (of_bytes bs) = length bs"
  by (simp add: of_bytes_def)

lemma as_bytes_Nil [simp]: "as_bytes [] = []"
  by (simp add: as_bytes_def)

lemma as_bytes_append [simp]: "as_bytes (s @ t) = as_bytes s @ as_bytes t"
  by (simp add: as_bytes_def)

lemma as_bytes_eq_Nil [simp]: "as_bytes s = [] \<longleftrightarrow> s = []"
  by (simp add: as_bytes_def)

lemma unat_byte_of_char: "unat (byte_of_char c) = of_char c"
proof -
  have "byte_of_char c = of_nat (of_char c)"
    by (simp add: byte_of_char_def of_nat_of_char)
  then have "unat (byte_of_char c) = of_char c mod 256"
    by (simp add: unat_of_nat)
  then show ?thesis by simp
qed

lemma char_of_byte_of_char [simp]: "char_of_byte (byte_of_char c) = c"
  by (simp add: char_of_byte_def unat_byte_of_char)

lemma byte_of_char_of_byte [simp]: "byte_of_char (char_of_byte b) = b"
proof -
  have "unat b < 256"
    by (rule order_less_le_trans [OF unsigned_less]) simp
  then have "unat (byte_of_char (char_of_byte b)) = unat b"
    by (simp add: unat_byte_of_char char_of_byte_def)
  then show ?thesis by (rule unsigned_word_eqI)
qed

lemma of_bytes_as_bytes [simp]: "of_bytes (as_bytes s) = s"
  by (simp add: of_bytes_def as_bytes_def comp_def)

lemma as_bytes_of_bytes [simp]: "as_bytes (of_bytes bs) = bs"
  by (simp add: of_bytes_def as_bytes_def comp_def)

lemma as_bytes_inject [simp]: "as_bytes s = as_bytes t \<longleftrightarrow> s = t"
  by (metis of_bytes_as_bytes)

end
