(* ===== verification/Rust_Str.thy ===== *)
theory Rust_Str
  imports Hdc_Prelude "HOL-Library.Sublist"
begin

text \<open>
  The part of Rust's standard library that the program uses on text: UTF-8 validation and
  lossy decoding, decimal printing and parsing, and the splitting, joining and trimming
  functions of \<open>str\<close>. A string is the list of its UTF-8 bytes, so an index counts bytes;
  \<open>wf_str\<close> says that those bytes are valid UTF-8, which Rust guarantees of every \<open>String\<close>.
\<close>

section \<open>UTF-8\<close>

text \<open>
  One step of \<open>core::str::run_utf8_validation\<close>: the width of the scalar value at the head of
  the input, or the error length (\<open>None\<close> when the input ends inside a sequence).
\<close>

definition utf8_char_width :: "u8 \<Rightarrow> nat" where
  "utf8_char_width b =
    (if b < 0x80 then 1 else if 0xC2 \<le> b \<and> b \<le> 0xDF then 2
     else if 0xE0 \<le> b \<and> b \<le> 0xEF then 3 else if 0xF0 \<le> b \<and> b \<le> 0xF4 then 4 else 0)"

definition utf8_cont :: "u8 \<Rightarrow> bool" where
  "utf8_cont b \<longleftrightarrow> 0x80 \<le> b \<and> b \<le> 0xBF"

definition utf8_second :: "u8 \<Rightarrow> u8 \<Rightarrow> bool" where
  "utf8_second first b \<longleftrightarrow>
    (if first = 0xE0 then 0xA0 \<le> b \<and> b \<le> 0xBF
     else if first = 0xED then 0x80 \<le> b \<and> b \<le> 0x9F
     else if first = 0xF0 then 0x90 \<le> b \<and> b \<le> 0xBF
     else if first = 0xF4 then 0x80 \<le> b \<and> b \<le> 0x8F
     else utf8_cont b)"

definition utf8_step :: "u8 \<Rightarrow> bytes \<Rightarrow> nat option + nat" where
  "utf8_step b0 rest =
    (let w = utf8_char_width b0 in
     if w = 0 then Inl (Some 1) else if w = 1 then Inr 1 else
     (case rest of [] \<Rightarrow> Inl None | b1 # rest1 \<Rightarrow>
      if \<not> utf8_second b0 b1 then Inl (Some 1) else if w = 2 then Inr 2 else
      (case rest1 of [] \<Rightarrow> Inl None | b2 # rest2 \<Rightarrow>
       if \<not> utf8_cont b2 then Inl (Some 2) else if w = 3 then Inr 3 else
       (case rest2 of [] \<Rightarrow> Inl None | b3 # _ \<Rightarrow>
        if utf8_cont b3 then Inr 4 else Inl (Some 3)))))"

lemma utf8_step_ok:
  "utf8_step b rest = Inr w \<Longrightarrow> 0 < w \<and> w \<le> Suc (length rest)"
  by (auto simp: utf8_step_def Let_def split: if_splits list.splits)

lemma utf8_step_bad:
  "utf8_step b rest = Inl (Some l) \<Longrightarrow> 0 < l \<and> l \<le> Suc (length rest)"
  by (auto simp: utf8_step_def Let_def split: if_splits list.splits)

lemma utf8_step_append:
  "utf8_step b rest = Inr w \<Longrightarrow> utf8_step b (rest @ more) = Inr w"
  by (auto simp: utf8_step_def Let_def split: if_split_asm list.split_asm)

lemma utf8_step_take:
  "utf8_step b rest = Inr w \<Longrightarrow> utf8_step b (take (w - 1) rest) = Inr w"
  by (auto simp: utf8_step_def Let_def split: if_split_asm list.split_asm)

text \<open>
  \<open>utf8_error i bs\<close> is the \<open>Utf8Error\<close> of \<open>bs\<close> read from index \<open>i\<close>: \<open>valid_up_to\<close> and
  \<open>error_len\<close>, or \<open>None\<close> for valid input.
\<close>

function utf8_error :: "nat \<Rightarrow> bytes \<Rightarrow> (nat \<times> nat option) option" where
  "utf8_error i [] = None"
| "utf8_error i (b # rest) =
    (case utf8_step b rest of
       Inl l \<Rightarrow> Some (i, l)
     | Inr w \<Rightarrow> utf8_error (i + w) (drop (w - 1) rest))"
  by pat_completeness auto
termination by (relation "measure (\<lambda>(i, bs). length bs)") auto

definition valid_utf8 :: "bytes \<Rightarrow> bool" where
  "valid_utf8 bs \<longleftrightarrow> utf8_error 0 bs = None"

lemma utf8_error_index: "utf8_error i bs = None \<longleftrightarrow> utf8_error j bs = None"
proof (induction i bs arbitrary: j rule: utf8_error.induct)
  case (2 i b rest)
  show ?case
  proof (cases "utf8_step b rest")
    case (Inr w)
    then show ?thesis using "2.IH" [OF Inr, of "j + w"] by simp
  qed simp
qed simp

lemma valid_utf8_Nil [simp]: "valid_utf8 []"
  by (simp add: valid_utf8_def)

lemma valid_utf8_Cons:
  "valid_utf8 (b # rest) \<longleftrightarrow>
    (\<exists>w. utf8_step b rest = Inr w \<and> valid_utf8 (drop (w - 1) rest))"
proof (cases "utf8_step b rest")
  case (Inr w)
  then show ?thesis
    using utf8_error_index [of w "drop (w - 1) rest" 0] by (simp add: valid_utf8_def)
qed (simp add: valid_utf8_def)

lemma valid_utf8_append:
  assumes "valid_utf8 xs" "valid_utf8 ys" shows "valid_utf8 (xs @ ys)"
  using assms(1)
proof (induction xs rule: length_induct)
  case (1 xs)
  show ?case
  proof (cases xs)
    case Nil
    then show ?thesis using assms by simp
  next
    case (Cons b rest)
    with 1(2) obtain w where w: "utf8_step b rest = Inr w" "valid_utf8 (drop (w - 1) rest)"
      by (auto simp: valid_utf8_Cons)
    then have len: "w - 1 \<le> length rest"
      using utf8_step_ok by fastforce
    have "valid_utf8 (drop (w - 1) rest @ ys)"
      using 1(1) w Cons by auto
    then show ?thesis
      using w utf8_step_append len Cons by (auto simp: valid_utf8_Cons)
  qed
qed

lemma valid_utf8_ascii: "\<forall>b \<in> set bs. b < 0x80 \<Longrightarrow> valid_utf8 bs"
  by (induction bs) (auto simp: valid_utf8_Cons utf8_step_def utf8_char_width_def)

text \<open>\<open>String::from_utf8_lossy\<close>: every maximal ill-formed subpart becomes U+FFFD.\<close>

definition replacement :: bytes where
  "replacement = [0xEF, 0xBF, 0xBD]"

function utf8_lossy :: "bytes \<Rightarrow> bytes" where
  "utf8_lossy [] = []"
| "utf8_lossy (b # rest) =
    (case utf8_step b rest of
       Inr w \<Rightarrow> b # take (w - 1) rest @ utf8_lossy (drop (w - 1) rest)
     | Inl (Some l) \<Rightarrow> replacement @ utf8_lossy (drop (l - 1) rest)
     | Inl None \<Rightarrow> replacement)"
  by pat_completeness auto
termination by (relation "measure length") auto

lemma valid_replacement: "valid_utf8 replacement"
  by (simp add: replacement_def valid_utf8_Cons utf8_step_def utf8_char_width_def
      utf8_second_def utf8_cont_def)

lemma utf8_lossy_valid [simp]: "valid_utf8 bs \<Longrightarrow> utf8_lossy bs = bs"
  by (induction bs rule: utf8_lossy.induct) (auto simp: valid_utf8_Cons)

lemma valid_utf8_lossy [simp]: "valid_utf8 (utf8_lossy bs)"
proof (induction bs rule: utf8_lossy.induct)
  case 1
  then show ?case by simp
next
  case (2 b rest)
  show ?case
  proof (cases "utf8_step b rest")
    case (Inl l)
    then show ?thesis
      using 2 by (cases l) (auto intro: valid_utf8_append valid_replacement)
  next
    case (Inr w)
    have "valid_utf8 (b # take (w - 1) rest)"
      using utf8_step_take [OF Inr] by (auto simp: valid_utf8_Cons)
    then have "valid_utf8 ((b # take (w - 1) rest) @ utf8_lossy (drop (w - 1) rest))"
      using 2(2) [OF Inr] by (rule valid_utf8_append)
    then show ?thesis using Inr by simp
  qed
qed

definition from_utf8_lossy :: "bytes \<Rightarrow> string" where
  "from_utf8_lossy bs = of_bytes (utf8_lossy bs)"

definition wf_str :: "string \<Rightarrow> bool" where
  "wf_str s \<longleftrightarrow> valid_utf8 (as_bytes s)"

lemma wf_str_Nil [simp]: "wf_str []"
  by (simp add: wf_str_def)

lemma wf_str_append: "wf_str s \<Longrightarrow> wf_str t \<Longrightarrow> wf_str (s @ t)"
  by (simp add: wf_str_def valid_utf8_append)

lemma wf_str_from_utf8_lossy [simp]: "wf_str (from_utf8_lossy bs)"
  by (simp add: wf_str_def from_utf8_lossy_def)

lemma from_utf8_lossy_as_bytes [simp]: "wf_str s \<Longrightarrow> from_utf8_lossy (as_bytes s) = s"
  by (simp add: wf_str_def from_utf8_lossy_def)

text \<open>ASCII text is valid UTF-8.\<close>

definition is_ascii :: "string \<Rightarrow> bool" where
  "is_ascii s = list_all (\<lambda>c. \<not> digit7 c) s"

lemma of_char_less_128: "of_char c < (128 :: nat) \<longleftrightarrow> \<not> digit7 c"
  by (cases c) (auto simp: of_bool_def)

lemma wf_str_ascii: "is_ascii s \<Longrightarrow> wf_str s"
  unfolding wf_str_def
  by (rule valid_utf8_ascii)
    (auto simp: is_ascii_def as_bytes_def list_all_iff word_less_nat_alt unat_byte_of_char
      of_char_less_128)

section \<open>Decimal numbers\<close>

definition digit :: "nat \<Rightarrow> char" where
  "digit d = char_of (48 + d)"

definition digit_val :: "char \<Rightarrow> nat option" where
  "digit_val c = (let n = of_char c in if 48 \<le> n \<and> n \<le> 57 then Some (n - 48) else None)"

text \<open>\<open>Display\<close> of an unsigned integer.\<close>

fun show_nat :: "nat \<Rightarrow> string" where
  "show_nat n = (if n < 10 then [digit n] else show_nat (n div 10) @ [digit (n mod 10)])"

declare show_nat.simps [simp del]

primrec parse_digits :: "nat \<Rightarrow> string \<Rightarrow> nat option" where
  "parse_digits acc [] = Some acc"
| "parse_digits acc (c # cs) =
    (case digit_val c of None \<Rightarrow> None | Some d \<Rightarrow> parse_digits (acc * 10 + d) cs)"

text \<open>
  \<open>str::parse\<close> for an unsigned type whose largest value is \<open>m\<close>: one leading plus sign is
  accepted, an empty digit string and every other character are errors, as is overflow.
\<close>

definition parse_uint :: "nat \<Rightarrow> string \<Rightarrow> nat option" where
  "parse_uint m s =
    (let ds = (if s \<noteq> [] \<and> hd s = CHR ''+'' then tl s else s)
     in if ds = [] then None
        else case parse_digits 0 ds of
               None \<Rightarrow> None
             | Some n \<Rightarrow> if n \<le> m then Some n else None)"

lemma digit_val_digit [simp]: "d < 10 \<Longrightarrow> digit_val (digit d) = Some d"
  by (auto simp: digit_val_def digit_def Let_def)

lemma parse_digits_append:
  "parse_digits acc (s @ t) =
    (case parse_digits acc s of None \<Rightarrow> None | Some n \<Rightarrow> parse_digits n t)"
  by (induction s arbitrary: acc) (auto split: option.splits)

lemma show_nat_not_Nil [simp]: "show_nat n \<noteq> []"
  by (subst show_nat.simps) simp

lemma parse_digits_show_nat: "parse_digits 0 (show_nat n) = Some n"
proof (induction n rule: show_nat.induct)
  case (1 n)
  then show ?case
    by (cases "n < 10") (simp_all add: show_nat.simps [of n] parse_digits_append)
qed

lemma show_nat_digits: "c \<in> set (show_nat n) \<Longrightarrow> digit_val c \<noteq> None"
proof (induction n rule: show_nat.induct)
  case (1 n)
  show ?case
  proof (cases "n < 10")
    case True
    then show ?thesis using "1.prems" by (auto simp: show_nat.simps [of n])
  next
    case False
    then have "c \<in> set (show_nat (n div 10)) \<or> c = digit (n mod 10)"
      using "1.prems" by (auto simp: show_nat.simps [of n])
    then show ?thesis using "1.IH" [OF False] by auto
  qed
qed

lemma digit_val_plus [simp]: "digit_val CHR ''+'' = None"
  by (simp add: digit_val_def)

lemma parse_uint_show_nat [simp]:
  "parse_uint m (show_nat n) = (if n \<le> m then Some n else None)"
proof -
  have "hd (show_nat n) \<noteq> CHR ''+''"
    using show_nat_digits [of "hd (show_nat n)" n] by auto
  then show ?thesis
    by (simp add: parse_uint_def parse_digits_show_nat)
qed

lemma parse_uint_le: "parse_uint m s = Some n \<Longrightarrow> n \<le> m"
  by (auto simp: parse_uint_def Let_def split: if_splits option.splits)

lemma show_nat_inj: "show_nat m = show_nat n \<longleftrightarrow> m = n"
  by (metis option.inject parse_digits_show_nat)

section \<open>Splitting and joining\<close>

text \<open>\<open>str::split\<close> and \<open>slice::join\<close> on a one-byte separator.\<close>

primrec split_on :: "char \<Rightarrow> string \<Rightarrow> string list" where
  "split_on c [] = [[]]"
| "split_on c (x # xs) =
    (if x = c then [] # split_on c xs
     else (x # hd (split_on c xs)) # tl (split_on c xs))"

fun join :: "string \<Rightarrow> string list \<Rightarrow> string" where
  "join sep [] = []"
| "join sep [p] = p"
| "join sep (p # ps) = p @ sep @ join sep ps"

text \<open>\<open>str::split_once\<close> and \<open>str::rsplit_once\<close> on a one-byte separator.\<close>

definition split_once :: "char \<Rightarrow> string \<Rightarrow> (string \<times> string) option" where
  "split_once c s =
    (if c \<in> set s then Some (takeWhile (\<lambda>x. x \<noteq> c) s, tl (dropWhile (\<lambda>x. x \<noteq> c) s)) else None)"

definition rsplit_once :: "char \<Rightarrow> string \<Rightarrow> (string \<times> string) option" where
  "rsplit_once c s = (case split_once c (rev s) of
     None \<Rightarrow> None | Some (a, b) \<Rightarrow> Some (rev b, rev a))"

text \<open>\<open>str::contains\<close> on a string pattern.\<close>

primrec contains_str :: "string \<Rightarrow> string \<Rightarrow> bool" where
  "contains_str pat [] = (pat = [])"
| "contains_str pat (x # xs) = (prefix pat (x # xs) \<or> contains_str pat xs)"

lemma split_on_not_Nil [simp]: "split_on c s \<noteq> []"
  by (cases s) auto

lemma join_Cons: "ps \<noteq> [] \<Longrightarrow> join sep (p # ps) = p @ sep @ join sep ps"
  by (cases ps) auto

lemma join_split_on [simp]: "join [c] (split_on c s) = s"
proof (induction s)
  case (Cons x xs)
  show ?case
  proof (cases "split_on c xs")
    case (Cons p ps)
    with Cons.IH show ?thesis by (cases ps) auto
  qed simp
qed simp

lemma split_on_free: "c \<notin> set p \<Longrightarrow> split_on c p = [p]"
  by (induction p) auto

lemma split_on_append: "c \<notin> set p \<Longrightarrow> split_on c (p @ c # s) = p # split_on c s"
  by (induction p) auto

lemma split_on_join:
  "ps \<noteq> [] \<Longrightarrow> \<forall>p \<in> set ps. c \<notin> set p \<Longrightarrow> split_on c (join [c] ps) = ps"
  by (induction "[c]" ps rule: join.induct) (auto simp: split_on_free split_on_append)

lemma split_on_parts: "p \<in> set (split_on c s) \<Longrightarrow> c \<notin> set p"
proof (induction s arbitrary: p)
  case (Cons x xs)
  then show ?case by (cases "split_on c xs") (auto split: if_splits)
qed simp

lemma split_once_first: "c \<notin> set a \<Longrightarrow> split_once c (a @ c # b) = Some (a, b)"
  by (induction a) (auto simp: split_once_def)

lemma split_once_Some:
  "split_once c s = Some (a, b) \<longleftrightarrow> s = a @ c # b \<and> c \<notin> set a"
proof
  assume *: "split_once c s = Some (a, b)"
  then have "c \<in> set s" by (simp add: split_once_def split: if_splits)
  then obtain xs ys where "s = xs @ c # ys" "c \<notin> set xs"
    using split_list_first by metis
  with * show "s = a @ c # b \<and> c \<notin> set a" by (simp add: split_once_first)
qed (simp add: split_once_first)

lemma rsplit_once_Some:
  "rsplit_once c s = Some (a, b) \<longleftrightarrow> s = a @ c # b \<and> c \<notin> set b"
proof -
  have "rsplit_once c s = Some (a, b) \<longleftrightarrow> split_once c (rev s) = Some (rev b, rev a)"
    by (auto simp: rsplit_once_def split: option.splits)
  also have "\<dots> \<longleftrightarrow> rev s = rev b @ c # rev a \<and> c \<notin> set b"
    by (simp add: split_once_Some)
  also have "\<dots> \<longleftrightarrow> s = a @ c # b \<and> c \<notin> set b"
    using rev_swap [of s "rev b @ c # rev a"] by simp
  finally show ?thesis .
qed

lemma contains_str_iff: "contains_str pat s \<longleftrightarrow> sublist pat s"
  by (induction s) (auto simp: sublist_Cons_right)

end
