(* ===== verification/Config.thy ===== *)
theory Config
  imports Rust_Str
begin

text \<open>
  The protocol constants and enumerations of \<open>crates/hdc-protocol/src/config.rs\<close>: the packet
  flags and sizes, the version string, the command numbers with their two conversions, and the
  small tagged types the components share.
\<close>

section \<open>Constants\<close>

definition PACKET_FLAG :: bytes where "PACKET_FLAG = as_bytes ''HW''"
definition USB_PACKET_FLAG :: bytes where "USB_PACKET_FLAG = as_bytes ''UB''"
definition USB_OPTION_HEADER :: u8 where "USB_OPTION_HEADER = 1"
definition VER_PROTOCOL :: u16 where "VER_PROTOCOL = 1"
definition ENABLE_IO_CHECK :: bool where "ENABLE_IO_CHECK = False"
definition PAYLOAD_VCODE :: u8 where "PAYLOAD_VCODE = 0x09"
definition HDC_BUF_MAX_SIZE :: nat where "HDC_BUF_MAX_SIZE = 0x7fffffff"
definition HANDSHAKE_MESSAGE :: string where "HANDSHAKE_MESSAGE = ''OHOS HDC''"
definition BANNER_SIZE :: nat where "BANNER_SIZE = 12"
definition KEY_MAX_SIZE :: nat where "KEY_MAX_SIZE = 32"
definition AUTH_TYPE_OK :: u8 where "AUTH_TYPE_OK = 4"
definition AUTH_TYPE_SSL_TLS_PSK :: u8 where "AUTH_TYPE_SSL_TLS_PSK = 6"
definition DAEMON_PORT :: u16 where "DAEMON_PORT = 0"
definition MAX_SIZE_IOBUF :: nat where "MAX_SIZE_IOBUF = 511 * 1024"

definition SERVER_DEFAULT_PORT :: nat where "SERVER_DEFAULT_PORT = 8710"
definition LOCAL_HOST :: string where "LOCAL_HOST = ''127.0.0.1''"
definition RSA_PRIKEY_PATH :: string where "RSA_PRIKEY_PATH = ''.harmony''"
definition RSA_PRIKEY_NAME :: string where "RSA_PRIKEY_NAME = ''hdckey''"
definition HDC_HOST_DAEMON_BUF_SEPARATOR :: char where "HDC_HOST_DAEMON_BUF_SEPARATOR = CHR 0x0C"

text \<open>Both packet flags as literal bytes.\<close>

lemma PACKET_FLAG_bytes [simp]: "PACKET_FLAG = [0x48, 0x57]"
  by (simp add: PACKET_FLAG_def as_bytes_def byte_of_char_def)

lemma USB_PACKET_FLAG_bytes [simp]: "USB_PACKET_FLAG = [0x55, 0x42]"
  by (simp add: USB_PACKET_FLAG_def as_bytes_def byte_of_char_def)

section \<open>Version\<close>

definition HDC_VERSION_NUMBER :: u32 where "HDC_VERSION_NUMBER = 0x30200500"
definition AUTH_BASE_VERSION :: string where "AUTH_BASE_VERSION = ''Ver: 3.2.0b''"

text \<open>\<open>char::from_u32\<close> followed by the UTF-8 encoding of the scalar value.\<close>

definition char_from_u32 :: "u32 \<Rightarrow> string option" where
  "char_from_u32 v =
    (let n = unat v; byte = (\<lambda>k. char_of (k :: nat)) in
     if n < 0x80 then Some [byte n]
     else if n < 0x800 then Some [byte (0xC0 + n div 64), byte (0x80 + n mod 64)]
     else if 0xD800 \<le> n \<and> n \<le> 0xDFFF then None
     else if n < 0x10000 then
       Some [byte (0xE0 + n div 4096), byte (0x80 + n div 64 mod 64), byte (0x80 + n mod 64)]
     else if n \<le> 0x10FFFF then
       Some [byte (0xF0 + n div 262144), byte (0x80 + n div 4096 mod 64),
             byte (0x80 + n div 64 mod 64), byte (0x80 + n mod 64)]
     else None)"

definition get_version :: string where
  "get_version =
    (let major = drop_bit 28 HDC_VERSION_NUMBER AND 0xff;
         minor = drop_bit 24 (push_bit 4 HDC_VERSION_NUMBER) AND 0xff;
         version = drop_bit 24 (push_bit 12 HDC_VERSION_NUMBER) AND 0xff;
         fix_char = (case char_from_u32 (drop_bit 28 (push_bit 20 HDC_VERSION_NUMBER) + 0x61) of
                       Some c \<Rightarrow> c | None \<Rightarrow> ''?'')
     in ''Ver: '' @ show_nat (unat major) @ ''.'' @ show_nat (unat minor) @ ''.''
        @ show_nat (unat version) @ fix_char)"

lemma get_version_eq: "get_version = ''Ver: 3.2.0f''"
  by code_simp

section \<open>Enumerations\<close>

datatype compress_type = CompressNone | Lz4 | Lz77 | Lzma | Brotli

definition compress_type_try_from :: "u8 \<Rightarrow> compress_type option" where
  "compress_type_try_from cmd =
    (if cmd = 0 then Some CompressNone else if cmd = 1 then Some Lz4
     else if cmd = 2 then Some Lz77 else if cmd = 3 then Some Lzma
     else if cmd = 4 then Some Brotli else None)"

datatype connect_type = Usb string | Tcp | Uart | Bt | Bridge | HostUsb string

datatype conn_status = Ready | Connected | Offline | Unauthorized

datatype message_level = LevelFail | LevelInfo | LevelOk

primrec level_u8 :: "message_level \<Rightarrow> u8" where
  "level_u8 LevelFail = 0"
| "level_u8 LevelInfo = 1"
| "level_u8 LevelOk = 2"

datatype app_mode_type = Install | UnInstall

definition app_mode_type_try_from :: "u8 \<Rightarrow> app_mode_type option" where
  "app_mode_type_try_from cmd =
    (if cmd = 1 then Some Install else if cmd = 2 then Some UnInstall else None)"

section \<open>Command numbers\<close>

datatype (plugins only: code) hdc_command =
  KernelHelp | KernelHandshake | KernelChannelClose | KernelTargetDiscover
  | KernelTargetList | KernelTargetAny | KernelTargetConnect | KernelTargetDisconnect
  | KernelEcho | KernelEchoRaw | KernelEnableKeepalive | KernelWakeupSlavetask
  | KernelCheckServer | KernelCheckDevice | KernelWaitFor | KernelServerKill
  | KernelServerStart | KernelTargetReconnect | ClientVersion | SslHandshake
  | ClientKeyGenerate | UnityCommandHead | UnityExecute | UnityRemount | UnityReboot
  | UnityRunmode | UnityHilog | UnityTerminate | UnityRootrun | JdwpList | JdwpTrack
  | UnityCommandTail | UnityBugreportInit | UnityBugreportData | UnityExecuteEx | ShellInit
  | ShellData | ForwardInit | ForwardCheck | ForwardCheckResult | ForwardActiveSlave
  | ForwardActiveMaster | ForwardData | ForwardFreeContext | ForwardList | ForwardRemove
  | ForwardSuccess | ForwardRportInit | ForwardRportList | ForwardRportRemove | FileInit
  | FileCheck | FileBegin | FileData | FileFinish | AppSideload | FileMode | DirMode
  | FileRecvInit | AppInit | AppCheck | AppBegin | AppData | AppFinish | AppUninstall
  | FlashdUpdateInit | FlashdFlashInit | FlashdCheck | FlashdBegin | FlashdData
  | FlashdFinish | FlashdErase | FlashdFormat | FlashdProgress | HeartbeatMsg | SpawnSub

text \<open>\<open>HdcCommand::as_u32\<close>: the discriminants of the enumeration.\<close>

primrec as_u32 :: "hdc_command \<Rightarrow> u32" where
  "as_u32 KernelHelp = 0"
| "as_u32 KernelHandshake = 1"
| "as_u32 KernelChannelClose = 2"
| "as_u32 KernelTargetDiscover = 4"
| "as_u32 KernelTargetList = 5"
| "as_u32 KernelTargetAny = 6"
| "as_u32 KernelTargetConnect = 7"
| "as_u32 KernelTargetDisconnect = 8"
| "as_u32 KernelEcho = 9"
| "as_u32 KernelEchoRaw = 10"
| "as_u32 KernelEnableKeepalive = 11"
| "as_u32 KernelWakeupSlavetask = 12"
| "as_u32 KernelCheckServer = 13"
| "as_u32 KernelCheckDevice = 14"
| "as_u32 KernelWaitFor = 15"
| "as_u32 KernelServerKill = 16"
| "as_u32 KernelServerStart = 17"
| "as_u32 KernelTargetReconnect = 18"
| "as_u32 ClientVersion = 19"
| "as_u32 SslHandshake = 20"
| "as_u32 ClientKeyGenerate = 21"
| "as_u32 UnityCommandHead = 1000"
| "as_u32 UnityExecute = 1001"
| "as_u32 UnityRemount = 1002"
| "as_u32 UnityReboot = 1003"
| "as_u32 UnityRunmode = 1004"
| "as_u32 UnityHilog = 1005"
| "as_u32 UnityTerminate = 1006"
| "as_u32 UnityRootrun = 1007"
| "as_u32 JdwpList = 1008"
| "as_u32 JdwpTrack = 1009"
| "as_u32 UnityCommandTail = 1010"
| "as_u32 UnityBugreportInit = 1011"
| "as_u32 UnityBugreportData = 1012"
| "as_u32 UnityExecuteEx = 1200"
| "as_u32 ShellInit = 2000"
| "as_u32 ShellData = 2001"
| "as_u32 ForwardInit = 2500"
| "as_u32 ForwardCheck = 2501"
| "as_u32 ForwardCheckResult = 2502"
| "as_u32 ForwardActiveSlave = 2503"
| "as_u32 ForwardActiveMaster = 2504"
| "as_u32 ForwardData = 2505"
| "as_u32 ForwardFreeContext = 2506"
| "as_u32 ForwardList = 2507"
| "as_u32 ForwardRemove = 2508"
| "as_u32 ForwardSuccess = 2509"
| "as_u32 ForwardRportInit = 2510"
| "as_u32 ForwardRportList = 2511"
| "as_u32 ForwardRportRemove = 2512"
| "as_u32 FileInit = 3000"
| "as_u32 FileCheck = 3001"
| "as_u32 FileBegin = 3002"
| "as_u32 FileData = 3003"
| "as_u32 FileFinish = 3004"
| "as_u32 AppSideload = 3005"
| "as_u32 FileMode = 3006"
| "as_u32 DirMode = 3007"
| "as_u32 FileRecvInit = 3008"
| "as_u32 AppInit = 3500"
| "as_u32 AppCheck = 3501"
| "as_u32 AppBegin = 3502"
| "as_u32 AppData = 3503"
| "as_u32 AppFinish = 3504"
| "as_u32 AppUninstall = 3505"
| "as_u32 FlashdUpdateInit = 4000"
| "as_u32 FlashdFlashInit = 4001"
| "as_u32 FlashdCheck = 4002"
| "as_u32 FlashdBegin = 4003"
| "as_u32 FlashdData = 4004"
| "as_u32 FlashdFinish = 4005"
| "as_u32 FlashdErase = 4006"
| "as_u32 FlashdFormat = 4007"
| "as_u32 FlashdProgress = 4008"
| "as_u32 HeartbeatMsg = 5000"
| "as_u32 SpawnSub = 6000"

text \<open>The derived \<open>Debug\<close> text of a command is the name of its variant.\<close>

primrec command_name :: "hdc_command \<Rightarrow> string" where
  "command_name KernelHelp = ''KernelHelp''"
| "command_name KernelHandshake = ''KernelHandshake''"
| "command_name KernelChannelClose = ''KernelChannelClose''"
| "command_name KernelTargetDiscover = ''KernelTargetDiscover''"
| "command_name KernelTargetList = ''KernelTargetList''"
| "command_name KernelTargetAny = ''KernelTargetAny''"
| "command_name KernelTargetConnect = ''KernelTargetConnect''"
| "command_name KernelTargetDisconnect = ''KernelTargetDisconnect''"
| "command_name KernelEcho = ''KernelEcho''"
| "command_name KernelEchoRaw = ''KernelEchoRaw''"
| "command_name KernelEnableKeepalive = ''KernelEnableKeepalive''"
| "command_name KernelWakeupSlavetask = ''KernelWakeupSlavetask''"
| "command_name KernelCheckServer = ''KernelCheckServer''"
| "command_name KernelCheckDevice = ''KernelCheckDevice''"
| "command_name KernelWaitFor = ''KernelWaitFor''"
| "command_name KernelServerKill = ''KernelServerKill''"
| "command_name KernelServerStart = ''KernelServerStart''"
| "command_name KernelTargetReconnect = ''KernelTargetReconnect''"
| "command_name ClientVersion = ''ClientVersion''"
| "command_name SslHandshake = ''SslHandshake''"
| "command_name ClientKeyGenerate = ''ClientKeyGenerate''"
| "command_name UnityCommandHead = ''UnityCommandHead''"
| "command_name UnityExecute = ''UnityExecute''"
| "command_name UnityRemount = ''UnityRemount''"
| "command_name UnityReboot = ''UnityReboot''"
| "command_name UnityRunmode = ''UnityRunmode''"
| "command_name UnityHilog = ''UnityHilog''"
| "command_name UnityTerminate = ''UnityTerminate''"
| "command_name UnityRootrun = ''UnityRootrun''"
| "command_name JdwpList = ''JdwpList''"
| "command_name JdwpTrack = ''JdwpTrack''"
| "command_name UnityCommandTail = ''UnityCommandTail''"
| "command_name UnityBugreportInit = ''UnityBugreportInit''"
| "command_name UnityBugreportData = ''UnityBugreportData''"
| "command_name UnityExecuteEx = ''UnityExecuteEx''"
| "command_name ShellInit = ''ShellInit''"
| "command_name ShellData = ''ShellData''"
| "command_name ForwardInit = ''ForwardInit''"
| "command_name ForwardCheck = ''ForwardCheck''"
| "command_name ForwardCheckResult = ''ForwardCheckResult''"
| "command_name ForwardActiveSlave = ''ForwardActiveSlave''"
| "command_name ForwardActiveMaster = ''ForwardActiveMaster''"
| "command_name ForwardData = ''ForwardData''"
| "command_name ForwardFreeContext = ''ForwardFreeContext''"
| "command_name ForwardList = ''ForwardList''"
| "command_name ForwardRemove = ''ForwardRemove''"
| "command_name ForwardSuccess = ''ForwardSuccess''"
| "command_name ForwardRportInit = ''ForwardRportInit''"
| "command_name ForwardRportList = ''ForwardRportList''"
| "command_name ForwardRportRemove = ''ForwardRportRemove''"
| "command_name FileInit = ''FileInit''"
| "command_name FileCheck = ''FileCheck''"
| "command_name FileBegin = ''FileBegin''"
| "command_name FileData = ''FileData''"
| "command_name FileFinish = ''FileFinish''"
| "command_name AppSideload = ''AppSideload''"
| "command_name FileMode = ''FileMode''"
| "command_name DirMode = ''DirMode''"
| "command_name FileRecvInit = ''FileRecvInit''"
| "command_name AppInit = ''AppInit''"
| "command_name AppCheck = ''AppCheck''"
| "command_name AppBegin = ''AppBegin''"
| "command_name AppData = ''AppData''"
| "command_name AppFinish = ''AppFinish''"
| "command_name AppUninstall = ''AppUninstall''"
| "command_name FlashdUpdateInit = ''FlashdUpdateInit''"
| "command_name FlashdFlashInit = ''FlashdFlashInit''"
| "command_name FlashdCheck = ''FlashdCheck''"
| "command_name FlashdBegin = ''FlashdBegin''"
| "command_name FlashdData = ''FlashdData''"
| "command_name FlashdFinish = ''FlashdFinish''"
| "command_name FlashdErase = ''FlashdErase''"
| "command_name FlashdFormat = ''FlashdFormat''"
| "command_name FlashdProgress = ''FlashdProgress''"
| "command_name HeartbeatMsg = ''HeartbeatMsg''"
| "command_name SpawnSub = ''SpawnSub''"

text \<open>\<open>TryFrom<u32> for HdcCommand\<close>: the arms of the match, in order.\<close>

definition hdc_command_arms :: "(u32 \<times> hdc_command) list" where
  "hdc_command_arms = [
    (0, KernelHelp), (1, KernelHandshake), (2, KernelChannelClose),
    (4, KernelTargetDiscover), (5, KernelTargetList), (6, KernelTargetAny),
    (7, KernelTargetConnect), (8, KernelTargetDisconnect), (9, KernelEcho),
    (10, KernelEchoRaw), (11, KernelEnableKeepalive), (12, KernelWakeupSlavetask),
    (13, KernelCheckServer), (14, KernelCheckDevice), (15, KernelWaitFor),
    (16, KernelServerKill), (17, KernelServerStart), (18, KernelTargetReconnect),
    (19, ClientVersion), (20, SslHandshake), (21, ClientKeyGenerate),
    (1000, UnityCommandHead), (1001, UnityExecute), (1002, UnityRemount),
    (1003, UnityReboot), (1004, UnityRunmode), (1005, UnityHilog), (1006, UnityTerminate),
    (1007, UnityRootrun), (1008, JdwpList), (1009, JdwpTrack), (1010, UnityCommandTail),
    (1011, UnityBugreportInit), (1012, UnityBugreportData), (1200, UnityExecuteEx),
    (2000, ShellInit), (2001, ShellData), (2500, ForwardInit), (2501, ForwardCheck),
    (2502, ForwardCheckResult), (2503, ForwardActiveSlave), (2504, ForwardActiveMaster),
    (2505, ForwardData), (2506, ForwardFreeContext), (2507, ForwardList),
    (2508, ForwardRemove), (2509, ForwardSuccess), (2510, ForwardRportInit),
    (2511, ForwardRportList), (2512, ForwardRportRemove), (3000, FileInit),
    (3001, FileCheck), (3002, FileBegin), (3003, FileData), (3004, FileFinish),
    (3005, AppSideload), (3006, FileMode), (3007, DirMode), (3008, FileRecvInit),
    (3500, AppInit), (3501, AppCheck), (3502, AppBegin), (3503, AppData),
    (3504, AppFinish), (3505, AppUninstall), (4000, FlashdUpdateInit),
    (4001, FlashdFlashInit), (4002, FlashdCheck), (4003, FlashdBegin), (4004, FlashdData),
    (4005, FlashdFinish), (4006, FlashdErase), (4007, FlashdFormat),
    (4008, FlashdProgress), (5000, HeartbeatMsg), (6000, SpawnSub)]"

definition hdc_command_try_from :: "u32 \<Rightarrow> hdc_command option" where
  "hdc_command_try_from cmd = map_of hdc_command_arms cmd"

lemma arms_as_u32: "(n, c) \<in> set hdc_command_arms \<Longrightarrow> as_u32 c = n"
proof -
  have "list_all (\<lambda>(n, c). as_u32 c = n) hdc_command_arms"
    by (simp add: hdc_command_arms_def)
  then show "(n, c) \<in> set hdc_command_arms \<Longrightarrow> as_u32 c = n"
    by (auto simp: list_all_iff)
qed

lemma arms_complete: "c \<in> snd ` set hdc_command_arms"
  by (cases c) (simp_all only: hdc_command_arms_def list.set image_insert snd_conv insert_iff simp_thms)

lemma try_from_as_u32 [simp]: "hdc_command_try_from (as_u32 c) = Some c"
proof -
  have "(as_u32 c, c) \<in> set hdc_command_arms"
    using arms_complete [of c] arms_as_u32 by force
  moreover have "distinct (map fst hdc_command_arms)"
    by (simp add: hdc_command_arms_def)
  ultimately show ?thesis
    by (simp add: hdc_command_try_from_def)
qed

lemma as_u32_try_from: "hdc_command_try_from n = Some c \<Longrightarrow> as_u32 c = n"
  by (auto simp: hdc_command_try_from_def dest: map_of_SomeD arms_as_u32)

lemma as_u32_inject [simp]: "as_u32 c = as_u32 d \<longleftrightarrow> c = d"
  by (metis option.inject try_from_as_u32)

end
