(* ===== verification/Varint.thy ===== *)
theory Varint
  imports Hdc_Prelude
begin

text \<open>
  Base-128 varints (\<open>crates/hdc-protocol/src/serializer.rs\<close>, lines 18 to 86). The source has
  the same code once for \<open>u32\<close> and once for \<open>u64\<close>; here both are instances of one definition
  that is polymorphic in the width. A writer returns the bytes that the source pushes to its
  buffer, a reader takes the offset and returns the new one with the value.
\<close>

section \<open>Definitions\<close>

function write_varint :: "'a::len word \<Rightarrow> bytes" where
  "write_varint v =
    (let b = ucast (v AND 0x7f); v' = drop_bit 7 v in
     if v' \<noteq> 0 then (b OR 0x80) # write_varint v' else [b])"
  by pat_completeness auto

lemma unat_drop_bit_7: "unat (drop_bit 7 v) = unat v div 128"
  unfolding unat_drop_bit_eq by (simp add: drop_bit_eq_div)

lemma unat_drop_bit_7_less: "drop_bit 7 v \<noteq> 0 \<Longrightarrow> unat (drop_bit 7 v) < unat v"
proof -
  assume "drop_bit 7 v \<noteq> 0"
  then have "unat (drop_bit 7 v) \<noteq> 0" by (simp add: unsigned_eq_0_iff)
  then show ?thesis by (simp add: unat_drop_bit_7)
qed

termination write_varint
  by (relation "measure unat") (auto intro: unat_drop_bit_7_less)

declare write_varint.simps [simp del]

definition write_varint_u32 :: "u32 \<Rightarrow> bytes" where
  "write_varint_u32 = write_varint"

definition write_varint_u64 :: "u64 \<Rightarrow> bytes" where
  "write_varint_u64 = write_varint"

function read_varint_loop :: "bytes \<Rightarrow> nat \<Rightarrow> 'a::len word \<Rightarrow> nat \<Rightarrow> ('a word \<times> nat) io_result" where
  "read_varint_loop bs offset value shift =
    (if length bs \<le> offset then Inl (Error InvalidData ''truncated varint'')
     else
       let b = bs ! offset;
           value' = value OR push_bit shift (ucast (b AND 0x7f))
       in if b AND 0x80 = 0 then Inr (value', offset + 1)
          else if LENGTH('a) \<le> shift + 7 then Inl (Error InvalidData ''varint overflow'')
          else read_varint_loop bs (offset + 1) value' (shift + 7))"
  by pat_completeness auto
termination by (relation "measure (\<lambda>(bs, offset, value, shift). length bs - offset)") auto

declare read_varint_loop.simps [simp del]

definition read_varint :: "bytes \<Rightarrow> nat \<Rightarrow> ('a::len word \<times> nat) io_result" where
  "read_varint bs offset = read_varint_loop bs offset 0 0"

definition read_varint_u32 :: "bytes \<Rightarrow> nat \<Rightarrow> (u32 \<times> nat) io_result" where
  "read_varint_u32 = read_varint"

definition read_varint_u64 :: "bytes \<Rightarrow> nat \<Rightarrow> (u64 \<times> nat) io_result" where
  "read_varint_u64 = read_varint"

section \<open>The two halves of a varint byte\<close>

lemma bit_7f: "bit (0x7f :: 'a::len word) n \<longleftrightarrow> n < 7 \<and> n < LENGTH('a)"
proof -
  have "(0x7f :: 'a word) = mask 7" by (simp add: mask_eq_exp_minus_1)
  then show ?thesis by (auto simp only: bit_mask_iff possible_bit_word)
qed

lemma bit_80: "bit (0x80 :: u8) n \<longleftrightarrow> n = 7"
proof -
  have "(0x80 :: u8) = push_bit 7 1" by (simp add: push_bit_eq_mult)
  then show ?thesis by (auto simp only: bit_push_bit_iff bit_1_iff possible_bit_word) simp_all
qed

lemmas varint_bits = bit_and_iff bit_or_iff bit_ucast_iff bit_7f bit_80 possible_bit_word

lemma more_byte_and_80: "((ucast (v AND 0x7f) :: u8) OR 0x80) AND 0x80 \<noteq> 0"
proof -
  have "bit (((ucast (v AND 0x7f) :: u8) OR 0x80) AND 0x80) 7"
    by (simp only: varint_bits) simp
  then show ?thesis by (metis bit_0_eq bot_apply bot_bool_def)
qed

lemma more_byte_and_7f:
  "((ucast (v AND 0x7f) :: u8) OR 0x80) AND 0x7f = ucast (v AND 0x7f)"
  by (rule bit_word_eqI) (auto simp only: varint_bits)

lemma last_byte_and_80: "(ucast (v AND 0x7f) :: u8) AND 0x80 = 0"
  by (rule bit_word_eqI) (simp only: varint_bits, simp)

lemma last_byte_and_7f: "(ucast (v AND 0x7f) :: u8) AND 0x7f = ucast (v AND 0x7f)"
  by (rule bit_word_eqI) (auto simp only: varint_bits)

lemma ucast_low7: "ucast (ucast (v AND 0x7f) :: u8) = v AND 0x7f"
  by (rule bit_word_eqI) (simp only: varint_bits, auto)

section \<open>Round trip\<close>

lemma write_varint_not_Nil [simp]: "write_varint v \<noteq> []"
  by (subst write_varint.simps) (simp add: Let_def)

lemma join_low7:
  "(acc OR push_bit s (v AND 0x7f)) OR push_bit (s + 7) (drop_bit 7 v) = acc OR push_bit s v"
  for v :: "'a::len word"
proof (rule bit_word_eqI)
  fix n assume n: "n < LENGTH('a)"
  have "s + 7 \<le> n \<Longrightarrow> 7 + (n - (s + 7)) = n - s" by simp
  with n show "bit ((acc OR push_bit s (v AND 0x7f)) OR push_bit (s + 7) (drop_bit 7 v)) n
      = bit (acc OR push_bit s v) n"
    by (cases "s + 7 \<le> n")
      (auto simp only: bit_or_iff bit_push_bit_iff bit_drop_bit_eq varint_bits; simp)+
qed

lemma read_varint_loop_write:
  fixes v acc :: "'a::len word"
  assumes "\<And>n. bit v n \<Longrightarrow> n + s < LENGTH('a)"
  shows "read_varint_loop (pre @ write_varint v @ post) (length pre) acc s
    = Inr (acc OR push_bit s v, length pre + length (write_varint v))"
  using assms
proof (induction v arbitrary: pre acc s rule: write_varint.induct)
  case (1 v)
  let ?b = "ucast (v AND 0x7f) :: u8" and ?v' = "drop_bit 7 v"
  show ?case
  proof (cases "?v' = 0")
    case True
    then have "write_varint v = [?b]"
      by (subst write_varint.simps) (simp only: Let_def if_False simp_thms)
    moreover have "push_bit s (v AND 0x7f) = push_bit s v"
      using join_low7 [of 0 s v] True by simp
    ultimately show ?thesis
      by (subst read_varint_loop.simps)
        (simp add: Let_def last_byte_and_80 last_byte_and_7f ucast_low7)
  next
    case False
    then have wv: "write_varint v = (?b OR 0x80) # write_varint ?v'"
      by (subst write_varint.simps) (simp only: Let_def if_True simp_thms)
    obtain n where n: "bit ?v' n"
      using False bit_eq_iff [of ?v' 0] by auto
    have more: "n + (s + 7) < LENGTH('a)" if "bit ?v' n" for n
      using 1(2) [of "7 + n"] that by (simp add: bit_drop_bit_eq)
    have "read_varint_loop ((pre @ [?b OR 0x80]) @ write_varint ?v' @ post)
        (length (pre @ [?b OR 0x80])) (acc OR push_bit s (v AND 0x7f)) (s + 7)
      = Inr ((acc OR push_bit s (v AND 0x7f)) OR push_bit (s + 7) ?v',
          length (pre @ [?b OR 0x80]) + length (write_varint ?v'))"
      using False more by (intro "1.IH") auto
    then show ?thesis
      using more [OF n] unfolding join_low7
      by (subst read_varint_loop.simps)
        (simp add: Let_def wv more_byte_and_80 more_byte_and_7f ucast_low7)
  qed
qed

lemma read_varint_write:
  "read_varint (pre @ write_varint v @ post) (length pre)
    = Inr (v, length pre + length (write_varint v))"
  unfolding read_varint_def
  by (subst read_varint_loop_write) (auto dest: bit_imp_le_length)

section \<open>Sizes\<close>

lemma length_write_varint: "0 < k \<Longrightarrow> unat v < 128 ^ k \<Longrightarrow> length (write_varint v) \<le> k"
proof (induction v arbitrary: k rule: write_varint.induct)
  case (1 v)
  show ?case
  proof (cases "drop_bit 7 v = 0")
    case True
    then show ?thesis using 1(2) by (subst write_varint.simps) (simp add: Let_def)
  next
    case False
    then obtain j where j: "k = Suc j" "0 < j"
    proof -
      have "128 \<le> unat v"
        using False unat_drop_bit_7 [of v] by (metis div_less linorder_not_le unsigned_eq_0_iff)
      then show ?thesis using 1(2,3) that [of "k - 1"] by (cases "k = 1") auto
    qed
    then have "unat (drop_bit 7 v) < 128 ^ j"
      using 1(3) by (simp add: unat_drop_bit_7 less_mult_imp_div_less ac_simps)
    then show ?thesis
      using 1(1) [of _ "drop_bit 7 v" j] False j by (subst write_varint.simps) (simp add: Let_def)
  qed
qed

lemma write_varint_longer: "128 ^ k \<le> unat v \<Longrightarrow> k < length (write_varint v)"
proof (induction v arbitrary: k rule: write_varint.induct)
  case (1 v)
  show ?case
  proof (cases k)
    case 0
    then show ?thesis by simp
  next
    case (Suc j)
    then have j: "128 ^ j \<le> unat (drop_bit 7 v)"
      using 1(2) by (simp add: unat_drop_bit_7 less_eq_div_iff_mult_less_eq ac_simps)
    then have "drop_bit 7 v \<noteq> 0" by auto
    then show ?thesis
      using 1(1) [OF refl refl _ j] Suc by (subst write_varint.simps) (simp add: Let_def)
  qed
qed

lemma length_write_varint_eq:
  assumes "128 ^ k \<le> unat v" "unat v < 128 ^ Suc k"
  shows "length (write_varint v) = Suc k"
  using write_varint_longer [OF assms(1)] length_write_varint [OF _ assms(2)] by simp

lemma length_write_varint_u32: "length (write_varint_u32 v) \<in> {1..5}"
proof -
  have "unat v < 128 ^ 5" by (rule order_less_le_trans [OF unsigned_less]) simp
  then have "length (write_varint v) \<le> 5" by (intro length_write_varint) auto
  moreover have "1 \<le> length (write_varint v)" by (simp add: Suc_le_eq)
  ultimately show ?thesis by (simp add: write_varint_u32_def)
qed

lemma length_write_varint_u64: "length (write_varint_u64 v) \<in> {1..10}"
proof -
  have "unat v < 128 ^ 10" by (rule order_less_le_trans [OF unsigned_less]) simp
  then have "length (write_varint v) \<le> 10" by (intro length_write_varint) auto
  moreover have "1 \<le> length (write_varint v)" by (simp add: Suc_le_eq)
  ultimately show ?thesis by (simp add: write_varint_u64_def)
qed

lemma read_varint_loop_progress:
  "read_varint_loop bs off acc s = Inr (v, off') \<Longrightarrow> off < off' \<and> off' \<le> length bs"
proof (induction bs off acc s rule: read_varint_loop.induct)
  case (1 bs off acc s)
  let ?r = "read_varint_loop bs (off + 1) (acc OR push_bit s (ucast (bs ! off AND 0x7f))) (s + 7)"
  have "off < length bs \<and> (off' = off + 1 \<or> bs ! off AND 0x80 \<noteq> 0 \<and> s + 7 < LENGTH('a)
      \<and> ?r = Inr (v, off'))"
    using 1(2) by (simp add: read_varint_loop.simps [of bs off] Let_def split: if_splits)
  then show ?case
    using 1(1) [OF _ refl refl] by auto
qed

lemma read_varint_progress:
  "read_varint_u32 bs off = Inr (v, off') \<Longrightarrow> off < off' \<and> off' \<le> length bs"
  "read_varint_u64 bs off = Inr (w, off') \<Longrightarrow> off < off' \<and> off' \<le> length bs"
  by (auto simp: read_varint_u32_def read_varint_u64_def read_varint_def
      dest: read_varint_loop_progress)

end
