(* ===== verification/Serializer.thy ===== *)
theory Serializer
  imports Config Varint
begin

text \<open>
  The wire structures of \<open>crates/hdc-protocol/src/serializer.rs\<close>: the three fixed-size heads,
  written field by field in big-endian order, and the five tag-length-value structures with
  their protobuf-like field readers and writers. Each \<open>deserialize\<close> of a tag-length-value
  structure is a loop over the input with one match on the field number; its match is the
  \<open>_field\<close> function, its loop the \<open>_loop\<close> function. The locale \<open>tlv_struct\<close> carries the
  round-trip argument that the five share, the locale \<open>codec\<close> what follows for any pair of
  inverse conversions.
\<close>

section \<open>Field helpers\<close>

definition WIRE_VARINT :: u32 where "WIRE_VARINT = 0"
definition WIRE_FIXED64 :: u32 where "WIRE_FIXED64 = 1"
definition WIRE_LENGTH_DELIMITED :: u32 where "WIRE_LENGTH_DELIMITED = 2"
definition WIRE_FIXED32 :: u32 where "WIRE_FIXED32 = 5"

lemmas wire_defs = WIRE_VARINT_def WIRE_FIXED64_def WIRE_LENGTH_DELIMITED_def WIRE_FIXED32_def

definition make_tag :: "u32 \<Rightarrow> u32 \<Rightarrow> u32" where
  "make_tag field_number wire_type = push_bit 3 field_number OR wire_type"

definition read_tag_wire_type :: "u32 \<Rightarrow> u32 \<times> u32" where
  "read_tag_wire_type tag_key = (drop_bit 3 tag_key, tag_key AND 0x07)"

definition write_tag :: "u32 \<Rightarrow> u32 \<Rightarrow> bytes" where
  "write_tag field_number wire_type = write_varint_u32 (make_tag field_number wire_type)"

definition write_u32_field :: "u32 \<Rightarrow> u32 \<Rightarrow> bytes" where
  "write_u32_field field_number value =
    (if value = 0 then [] else write_tag field_number WIRE_VARINT @ write_varint_u32 value)"

definition write_u64_field :: "u32 \<Rightarrow> u64 \<Rightarrow> bytes" where
  "write_u64_field field_number value =
    (if value = 0 then [] else write_tag field_number WIRE_VARINT @ write_varint_u64 value)"

definition write_bool_field :: "u32 \<Rightarrow> bool \<Rightarrow> bytes" where
  "write_bool_field field_number value =
    (if \<not> value then [] else write_tag field_number WIRE_VARINT @ [1])"

definition write_string_field :: "u32 \<Rightarrow> string \<Rightarrow> bytes" where
  "write_string_field field_number value =
    (if value = [] then []
     else write_tag field_number WIRE_LENGTH_DELIMITED
          @ write_varint_u32 (of_nat (length value)) @ as_bytes value)"

definition read_u32_field :: "u32 \<Rightarrow> bytes \<Rightarrow> nat \<Rightarrow> (u32 \<times> nat) io_result" where
  "read_u32_field wire_type bs offset =
    (if wire_type \<noteq> WIRE_VARINT then Inl (Error InvalidData ''expected varint for u32'')
     else read_varint_u32 bs offset)"

definition read_u64_field :: "u32 \<Rightarrow> bytes \<Rightarrow> nat \<Rightarrow> (u64 \<times> nat) io_result" where
  "read_u64_field wire_type bs offset =
    (if wire_type \<noteq> WIRE_VARINT then Inl (Error InvalidData ''expected varint for u64'')
     else read_varint_u64 bs offset)"

definition read_bool_field :: "u32 \<Rightarrow> bytes \<Rightarrow> nat \<Rightarrow> (bool \<times> nat) io_result" where
  "read_bool_field wire_type bs offset =
    (if wire_type \<noteq> WIRE_VARINT then Inl (Error InvalidData ''expected varint for bool'')
     else and_then (read_varint_u32 bs offset) (\<lambda>(v, off). Inr (v \<noteq> 0, off)))"

text \<open>The \<open>Display\<close> text of \<open>FromUtf8Error\<close>.\<close>

definition utf8_error_text :: "nat \<times> nat option \<Rightarrow> string" where
  "utf8_error_text e =
    (case e of
       (i, Some l) \<Rightarrow> ''invalid utf-8 sequence of '' @ show_nat l @ '' bytes from index ''
                      @ show_nat i
     | (i, None) \<Rightarrow> ''incomplete utf-8 byte sequence from index '' @ show_nat i)"

definition read_string_field :: "u32 \<Rightarrow> bytes \<Rightarrow> nat \<Rightarrow> (string \<times> nat) io_result" where
  "read_string_field wire_type bs offset =
    (if wire_type \<noteq> WIRE_LENGTH_DELIMITED
     then Inl (Error InvalidData ''expected length-delimited for string'')
     else and_then (read_varint_u32 bs offset) (\<lambda>(v, off).
       let len = unat v in
       if length bs < off + len then Inl (Error InvalidData ''truncated string field'')
       else let raw = take len (drop off bs) in
         case utf8_error 0 raw of
           Some e \<Rightarrow> Inl (Error InvalidData (''invalid utf8: '' @ utf8_error_text e))
         | None \<Rightarrow> Inr (of_bytes raw, off + len)))"

text \<open>
  A byte-sized field: the source pushes the raw byte after the tag and reads it back as a
  varint that it truncates to \<open>u8\<close>. \<open>name\<close> is the field's name in the error text.
\<close>

definition write_byte_field :: "u32 \<Rightarrow> u8 \<Rightarrow> bytes" where
  "write_byte_field field_number value = write_tag field_number WIRE_VARINT @ [value]"

definition read_byte_field :: "string \<Rightarrow> u32 \<Rightarrow> bytes \<Rightarrow> nat \<Rightarrow> (u8 \<times> nat) io_result" where
  "read_byte_field name wire_type bs offset =
    (if wire_type \<noteq> WIRE_VARINT then Inl (Error InvalidData (''bad wire type for '' @ name))
     else and_then (read_varint_u32 bs offset) (\<lambda>(v, off). Inr (ucast v, off)))"

text \<open>The default arm of every match: step over a field with an unknown number.\<close>

definition skip_unknown :: "u32 \<Rightarrow> bytes \<Rightarrow> nat \<Rightarrow> nat io_result" where
  "skip_unknown wire_type bs offset =
    (if wire_type = WIRE_VARINT then
       and_then (read_varint_u64 bs offset) (\<lambda>(_, off). Inr off)
     else if wire_type = WIRE_FIXED64 then Inr (offset + 8)
     else if wire_type = WIRE_LENGTH_DELIMITED then
       and_then (read_varint_u32 bs offset) (\<lambda>(v, off). Inr (off + unat v))
     else if wire_type = WIRE_FIXED32 then Inr (offset + 4)
     else Inl (Error InvalidData ''unknown wire type''))"

text \<open>\<open>result.field = read(...)?\<close>: store the value that was read, keep the new offset.\<close>

definition store :: "('v \<times> nat) io_result \<Rightarrow> ('v \<Rightarrow> 's) \<Rightarrow> ('s \<times> nat) io_result" where
  "store r upd = and_then r (\<lambda>(v, off). Inr (upd v, off))"

section \<open>Structures\<close>

record session_handshake =
  hs_banner :: string
  hs_auth_type :: u8
  hs_session_id :: u32
  hs_connect_key :: string
  hs_buf :: string
  hs_version :: string

record payload_protect =
  pp_channel_id :: u32
  pp_command_flag :: u32
  pp_check_sum :: u8
  pp_v_code :: u8

record payload_head =
  ph_flag :: "u8 \<times> u8"
  ph_reserve :: "u8 \<times> u8"
  ph_protocol_ver :: u8
  ph_head_size :: u16
  ph_data_size :: u32

record uart_head =
  ua_flag :: "u8 \<times> u8"
  ua_option :: u16
  ua_session_id :: u32
  ua_data_size :: u32
  ua_package_index :: u32
  ua_data_checksum :: u32
  ua_head_checksum :: u32

record usb_head =
  uh_flag :: "u8 \<times> u8"
  uh_option :: u8
  uh_session_id :: u32
  uh_data_size :: u32

record transfer_config =
  tc_file_size :: u64
  tc_atime :: u64
  tc_mtime :: u64
  tc_options :: string
  tc_path :: string
  tc_optional_name :: string
  tc_update_if_new :: bool
  tc_compress_type :: u8
  tc_hold_timestamp :: bool
  tc_function_name :: string
  tc_client_cwd :: string
  tc_reserve1 :: string
  tc_reserve2 :: string

record file_mode =
  fm_perm :: u64
  fm_u_id :: u64
  fm_g_id :: u64
  fm_context :: string
  fm_full_name :: string

record transfer_payload =
  tp_index :: u64
  tp_compress_type :: u8
  tp_compress_size :: u32
  tp_uncompress_size :: u32

text \<open>The derived \<open>Default\<close> values that the readers start from.\<close>

definition session_handshake_default :: session_handshake where
  "session_handshake_default = \<lparr>hs_banner = [], hs_auth_type = 0, hs_session_id = 0,
     hs_connect_key = [], hs_buf = [], hs_version = []\<rparr>"

definition payload_protect_default :: payload_protect where
  "payload_protect_default = \<lparr>pp_channel_id = 0, pp_command_flag = 0, pp_check_sum = 0,
     pp_v_code = 0\<rparr>"

definition transfer_config_default :: transfer_config where
  "transfer_config_default = \<lparr>tc_file_size = 0, tc_atime = 0, tc_mtime = 0, tc_options = [],
     tc_path = [], tc_optional_name = [], tc_update_if_new = False, tc_compress_type = 0,
     tc_hold_timestamp = False, tc_function_name = [], tc_client_cwd = [], tc_reserve1 = [],
     tc_reserve2 = []\<rparr>"

definition file_mode_default :: file_mode where
  "file_mode_default = \<lparr>fm_perm = 0, fm_u_id = 0, fm_g_id = 0, fm_context = [],
     fm_full_name = []\<rparr>"

definition transfer_payload_default :: transfer_payload where
  "transfer_payload_default = \<lparr>tp_index = 0, tp_compress_type = 0, tp_compress_size = 0,
     tp_uncompress_size = 0\<rparr>"

section \<open>Fixed-size heads\<close>

definition pair_bytes :: "u8 \<times> u8 \<Rightarrow> bytes" where
  "pair_bytes p = [fst p, snd p]"

definition serialize_payload_head :: "payload_head \<Rightarrow> bytes" where
  "serialize_payload_head h =
    pair_bytes (ph_flag h) @ pair_bytes (ph_reserve h) @ [ph_protocol_ver h]
    @ to_be 2 (ph_head_size h) @ to_be 4 (ph_data_size h)"

definition deserialize_payload_head :: "bytes \<Rightarrow> payload_head io_result" where
  "deserialize_payload_head bs =
    (if length bs < 11 then Inl (Error InvalidData ''PayloadHead too short'')
     else Inr \<lparr>ph_flag = (bs ! 0, bs ! 1), ph_reserve = (bs ! 2, bs ! 3),
       ph_protocol_ver = bs ! 4, ph_head_size = from_be [bs ! 5, bs ! 6],
       ph_data_size = from_be [bs ! 7, bs ! 8, bs ! 9, bs ! 10]\<rparr>)"

definition serialize_usb_head :: "usb_head \<Rightarrow> bytes" where
  "serialize_usb_head h =
    pair_bytes (uh_flag h) @ [uh_option h] @ to_be 4 (uh_session_id h) @ to_be 4 (uh_data_size h)"

definition deserialize_usb_head :: "bytes \<Rightarrow> usb_head io_result" where
  "deserialize_usb_head bs =
    (if length bs < 11 then Inl (Error InvalidData ''UsbHead too short'')
     else Inr \<lparr>uh_flag = (bs ! 0, bs ! 1), uh_option = bs ! 2,
       uh_session_id = from_be [bs ! 3, bs ! 4, bs ! 5, bs ! 6],
       uh_data_size = from_be [bs ! 7, bs ! 8, bs ! 9, bs ! 10]\<rparr>)"

definition serialize_uart_head :: "uart_head \<Rightarrow> bytes" where
  "serialize_uart_head h =
    pair_bytes (ua_flag h) @ to_be 2 (ua_option h) @ to_be 4 (ua_session_id h)
    @ to_be 4 (ua_data_size h) @ to_be 4 (ua_package_index h) @ to_be 4 (ua_data_checksum h)
    @ to_be 4 (ua_head_checksum h)"

definition deserialize_uart_head :: "bytes \<Rightarrow> uart_head io_result" where
  "deserialize_uart_head bs =
    (if length bs < 24 then Inl (Error InvalidData ''UartHead too short'')
     else Inr \<lparr>ua_flag = (bs ! 0, bs ! 1), ua_option = from_be [bs ! 2, bs ! 3],
       ua_session_id = from_be [bs ! 4, bs ! 5, bs ! 6, bs ! 7],
       ua_data_size = from_be [bs ! 8, bs ! 9, bs ! 10, bs ! 11],
       ua_package_index = from_be [bs ! 12, bs ! 13, bs ! 14, bs ! 15],
       ua_data_checksum = from_be [bs ! 16, bs ! 17, bs ! 18, bs ! 19],
       ua_head_checksum = from_be [bs ! 20, bs ! 21, bs ! 22, bs ! 23]\<rparr>)"

section \<open>Tag-length-value structures\<close>

text \<open>No reader moves the offset backwards, which is why the loops below end.\<close>

lemma field_progress:
  "read_u32_field wt bs off = Inr (v1, off') \<Longrightarrow> off \<le> off'"
  "read_u64_field wt bs off = Inr (v2, off') \<Longrightarrow> off \<le> off'"
  "read_bool_field wt bs off = Inr (v3, off') \<Longrightarrow> off \<le> off'"
  "read_string_field wt bs off = Inr (v4, off') \<Longrightarrow> off \<le> off'"
  "read_byte_field name wt bs off = Inr (v5, off') \<Longrightarrow> off \<le> off'"
  "skip_unknown wt bs off = Inr off' \<Longrightarrow> off \<le> off'"
  by (auto simp: read_u32_field_def read_u64_field_def read_bool_field_def read_string_field_def
      read_byte_field_def skip_unknown_def Let_def split: if_splits option.splits
      dest!: read_varint_progress)

subsection \<open>session_handshake\<close>

definition serialize_session_handshake :: "session_handshake \<Rightarrow> bytes" where
  "serialize_session_handshake x =
    write_string_field 1 (hs_banner x) @ write_byte_field 2 (hs_auth_type x)
    @ (if hs_session_id x \<noteq> 0 then write_u32_field 3 (hs_session_id x) else [])
    @ write_string_field 4 (hs_connect_key x) @ write_string_field 5 (hs_buf x)
    @ write_string_field 6 (hs_version x)"

definition session_handshake_field :: "bytes \<Rightarrow> u32 \<Rightarrow> u32 \<Rightarrow> nat \<Rightarrow> session_handshake \<Rightarrow> (session_handshake \<times> nat) io_result" where
  "session_handshake_field bs fnum wt off st =
    (if fnum = 1 then store (read_string_field wt bs off) (\<lambda>v. st\<lparr>hs_banner := v\<rparr>)
     else if fnum = 2 then store (read_byte_field ''auth_type'' wt bs off) (\<lambda>v. st\<lparr>hs_auth_type := v\<rparr>)
     else if fnum = 3 then store (read_u32_field wt bs off) (\<lambda>v. st\<lparr>hs_session_id := v\<rparr>)
     else if fnum = 4 then store (read_string_field wt bs off) (\<lambda>v. st\<lparr>hs_connect_key := v\<rparr>)
     else if fnum = 5 then store (read_string_field wt bs off) (\<lambda>v. st\<lparr>hs_buf := v\<rparr>)
     else if fnum = 6 then store (read_string_field wt bs off) (\<lambda>v. st\<lparr>hs_version := v\<rparr>)
     else and_then (skip_unknown wt bs off) (\<lambda>off'. Inr (st, off')))"

lemma session_handshake_field_progress: "session_handshake_field bs fnum wt off st = Inr (st', off') \<Longrightarrow> off \<le> off'"
  by (auto simp: session_handshake_field_def store_def split: if_splits dest!: field_progress)

function session_handshake_loop :: "bytes \<Rightarrow> nat \<Rightarrow> session_handshake \<Rightarrow> session_handshake io_result" where
  "session_handshake_loop bs offset result =
    (if offset < length bs then
       and_then (read_varint_u32 bs offset) (\<lambda>(tag_key, off).
         let (fnum, wt) = read_tag_wire_type tag_key in
         and_then (session_handshake_field bs fnum wt off result) (\<lambda>(result', off').
           session_handshake_loop bs off' result'))
     else Inr result)"
  by pat_completeness auto
termination
  by (relation "measure (\<lambda>(bs, offset, _). length bs - offset)")
    (auto dest!: read_varint_progress session_handshake_field_progress)

declare session_handshake_loop.simps [simp del]

definition deserialize_session_handshake :: "bytes \<Rightarrow> session_handshake io_result" where
  "deserialize_session_handshake bs = session_handshake_loop bs 0 session_handshake_default"

subsection \<open>payload_protect\<close>

definition serialize_payload_protect :: "payload_protect \<Rightarrow> bytes" where
  "serialize_payload_protect x =
    (if pp_channel_id x \<noteq> 0 then write_u32_field 1 (pp_channel_id x) else [])
    @ (if pp_command_flag x \<noteq> 0 then write_u32_field 2 (pp_command_flag x) else [])
    @ (if pp_check_sum x \<noteq> 0 then write_byte_field 3 (pp_check_sum x) else [])
    @ (if pp_v_code x \<noteq> 0 then write_byte_field 4 (pp_v_code x) else [])"

definition payload_protect_field :: "bytes \<Rightarrow> u32 \<Rightarrow> u32 \<Rightarrow> nat \<Rightarrow> payload_protect \<Rightarrow> (payload_protect \<times> nat) io_result" where
  "payload_protect_field bs fnum wt off st =
    (if fnum = 1 then store (read_u32_field wt bs off) (\<lambda>v. st\<lparr>pp_channel_id := v\<rparr>)
     else if fnum = 2 then store (read_u32_field wt bs off) (\<lambda>v. st\<lparr>pp_command_flag := v\<rparr>)
     else if fnum = 3 then store (read_byte_field ''check_sum'' wt bs off) (\<lambda>v. st\<lparr>pp_check_sum := v\<rparr>)
     else if fnum = 4 then store (read_byte_field ''v_code'' wt bs off) (\<lambda>v. st\<lparr>pp_v_code := v\<rparr>)
     else and_then (skip_unknown wt bs off) (\<lambda>off'. Inr (st, off')))"

lemma payload_protect_field_progress: "payload_protect_field bs fnum wt off st = Inr (st', off') \<Longrightarrow> off \<le> off'"
  by (auto simp: payload_protect_field_def store_def split: if_splits dest!: field_progress)

function payload_protect_loop :: "bytes \<Rightarrow> nat \<Rightarrow> payload_protect \<Rightarrow> payload_protect io_result" where
  "payload_protect_loop bs offset result =
    (if offset < length bs then
       and_then (read_varint_u32 bs offset) (\<lambda>(tag_key, off).
         let (fnum, wt) = read_tag_wire_type tag_key in
         and_then (payload_protect_field bs fnum wt off result) (\<lambda>(result', off').
           payload_protect_loop bs off' result'))
     else Inr result)"
  by pat_completeness auto
termination
  by (relation "measure (\<lambda>(bs, offset, _). length bs - offset)")
    (auto dest!: read_varint_progress payload_protect_field_progress)

declare payload_protect_loop.simps [simp del]

definition deserialize_payload_protect :: "bytes \<Rightarrow> payload_protect io_result" where
  "deserialize_payload_protect bs = payload_protect_loop bs 0 payload_protect_default"

subsection \<open>transfer_config\<close>

definition serialize_transfer_config :: "transfer_config \<Rightarrow> bytes" where
  "serialize_transfer_config x =
    write_u64_field 1 (tc_file_size x) @ write_u64_field 2 (tc_atime x)
    @ write_u64_field 3 (tc_mtime x) @ write_string_field 4 (tc_options x)
    @ write_string_field 5 (tc_path x) @ write_string_field 6 (tc_optional_name x)
    @ write_bool_field 7 (tc_update_if_new x)
    @ (if tc_compress_type x \<noteq> 0 then write_byte_field 8 (tc_compress_type x) else [])
    @ write_bool_field 9 (tc_hold_timestamp x) @ write_string_field 10 (tc_function_name x)
    @ write_string_field 11 (tc_client_cwd x) @ write_string_field 12 (tc_reserve1 x)
    @ write_string_field 13 (tc_reserve2 x)"

definition transfer_config_field :: "bytes \<Rightarrow> u32 \<Rightarrow> u32 \<Rightarrow> nat \<Rightarrow> transfer_config \<Rightarrow> (transfer_config \<times> nat) io_result" where
  "transfer_config_field bs fnum wt off st =
    (if fnum = 1 then store (read_u64_field wt bs off) (\<lambda>v. st\<lparr>tc_file_size := v\<rparr>)
     else if fnum = 2 then store (read_u64_field wt bs off) (\<lambda>v. st\<lparr>tc_atime := v\<rparr>)
     else if fnum = 3 then store (read_u64_field wt bs off) (\<lambda>v. st\<lparr>tc_mtime := v\<rparr>)
     else if fnum = 4 then store (read_string_field wt bs off) (\<lambda>v. st\<lparr>tc_options := v\<rparr>)
     else if fnum = 5 then store (read_string_field wt bs off) (\<lambda>v. st\<lparr>tc_path := v\<rparr>)
     else if fnum = 6 then store (read_string_field wt bs off) (\<lambda>v. st\<lparr>tc_optional_name := v\<rparr>)
     else if fnum = 7 then store (read_bool_field wt bs off) (\<lambda>v. st\<lparr>tc_update_if_new := v\<rparr>)
     else if fnum = 8 then store (read_byte_field ''compress_type'' wt bs off) (\<lambda>v. st\<lparr>tc_compress_type := v\<rparr>)
     else if fnum = 9 then store (read_bool_field wt bs off) (\<lambda>v. st\<lparr>tc_hold_timestamp := v\<rparr>)
     else if fnum = 10 then store (read_string_field wt bs off) (\<lambda>v. st\<lparr>tc_function_name := v\<rparr>)
     else if fnum = 11 then store (read_string_field wt bs off) (\<lambda>v. st\<lparr>tc_client_cwd := v\<rparr>)
     else if fnum = 12 then store (read_string_field wt bs off) (\<lambda>v. st\<lparr>tc_reserve1 := v\<rparr>)
     else if fnum = 13 then store (read_string_field wt bs off) (\<lambda>v. st\<lparr>tc_reserve2 := v\<rparr>)
     else and_then (skip_unknown wt bs off) (\<lambda>off'. Inr (st, off')))"

lemma transfer_config_field_progress: "transfer_config_field bs fnum wt off st = Inr (st', off') \<Longrightarrow> off \<le> off'"
  by (auto simp: transfer_config_field_def store_def split: if_splits dest!: field_progress)

function transfer_config_loop :: "bytes \<Rightarrow> nat \<Rightarrow> transfer_config \<Rightarrow> transfer_config io_result" where
  "transfer_config_loop bs offset result =
    (if offset < length bs then
       and_then (read_varint_u32 bs offset) (\<lambda>(tag_key, off).
         let (fnum, wt) = read_tag_wire_type tag_key in
         and_then (transfer_config_field bs fnum wt off result) (\<lambda>(result', off').
           transfer_config_loop bs off' result'))
     else Inr result)"
  by pat_completeness auto
termination
  by (relation "measure (\<lambda>(bs, offset, _). length bs - offset)")
    (auto dest!: read_varint_progress transfer_config_field_progress)

declare transfer_config_loop.simps [simp del]

definition deserialize_transfer_config :: "bytes \<Rightarrow> transfer_config io_result" where
  "deserialize_transfer_config bs = transfer_config_loop bs 0 transfer_config_default"

subsection \<open>file_mode\<close>

definition serialize_file_mode :: "file_mode \<Rightarrow> bytes" where
  "serialize_file_mode x =
    write_u64_field 1 (fm_perm x) @ write_u64_field 2 (fm_u_id x) @ write_u64_field 3 (fm_g_id x)
    @ write_string_field 4 (fm_context x) @ write_string_field 5 (fm_full_name x)"

definition file_mode_field :: "bytes \<Rightarrow> u32 \<Rightarrow> u32 \<Rightarrow> nat \<Rightarrow> file_mode \<Rightarrow> (file_mode \<times> nat) io_result" where
  "file_mode_field bs fnum wt off st =
    (if fnum = 1 then store (read_u64_field wt bs off) (\<lambda>v. st\<lparr>fm_perm := v\<rparr>)
     else if fnum = 2 then store (read_u64_field wt bs off) (\<lambda>v. st\<lparr>fm_u_id := v\<rparr>)
     else if fnum = 3 then store (read_u64_field wt bs off) (\<lambda>v. st\<lparr>fm_g_id := v\<rparr>)
     else if fnum = 4 then store (read_string_field wt bs off) (\<lambda>v. st\<lparr>fm_context := v\<rparr>)
     else if fnum = 5 then store (read_string_field wt bs off) (\<lambda>v. st\<lparr>fm_full_name := v\<rparr>)
     else and_then (skip_unknown wt bs off) (\<lambda>off'. Inr (st, off')))"

lemma file_mode_field_progress: "file_mode_field bs fnum wt off st = Inr (st', off') \<Longrightarrow> off \<le> off'"
  by (auto simp: file_mode_field_def store_def split: if_splits dest!: field_progress)

function file_mode_loop :: "bytes \<Rightarrow> nat \<Rightarrow> file_mode \<Rightarrow> file_mode io_result" where
  "file_mode_loop bs offset result =
    (if offset < length bs then
       and_then (read_varint_u32 bs offset) (\<lambda>(tag_key, off).
         let (fnum, wt) = read_tag_wire_type tag_key in
         and_then (file_mode_field bs fnum wt off result) (\<lambda>(result', off').
           file_mode_loop bs off' result'))
     else Inr result)"
  by pat_completeness auto
termination
  by (relation "measure (\<lambda>(bs, offset, _). length bs - offset)")
    (auto dest!: read_varint_progress file_mode_field_progress)

declare file_mode_loop.simps [simp del]

definition deserialize_file_mode :: "bytes \<Rightarrow> file_mode io_result" where
  "deserialize_file_mode bs = file_mode_loop bs 0 file_mode_default"

subsection \<open>transfer_payload\<close>

definition serialize_transfer_payload :: "transfer_payload \<Rightarrow> bytes" where
  "serialize_transfer_payload x =
    write_u64_field 1 (tp_index x)
    @ (if tp_compress_type x \<noteq> 0 then write_byte_field 2 (tp_compress_type x) else [])
    @ (if tp_compress_size x \<noteq> 0 then write_u32_field 3 (tp_compress_size x) else [])
    @ (if tp_uncompress_size x \<noteq> 0 then write_u32_field 4 (tp_uncompress_size x) else [])"

definition transfer_payload_field :: "bytes \<Rightarrow> u32 \<Rightarrow> u32 \<Rightarrow> nat \<Rightarrow> transfer_payload \<Rightarrow> (transfer_payload \<times> nat) io_result" where
  "transfer_payload_field bs fnum wt off st =
    (if fnum = 1 then store (read_u64_field wt bs off) (\<lambda>v. st\<lparr>tp_index := v\<rparr>)
     else if fnum = 2 then store (read_byte_field ''compress_type'' wt bs off) (\<lambda>v. st\<lparr>tp_compress_type := v\<rparr>)
     else if fnum = 3 then store (read_u32_field wt bs off) (\<lambda>v. st\<lparr>tp_compress_size := v\<rparr>)
     else if fnum = 4 then store (read_u32_field wt bs off) (\<lambda>v. st\<lparr>tp_uncompress_size := v\<rparr>)
     else and_then (skip_unknown wt bs off) (\<lambda>off'. Inr (st, off')))"

lemma transfer_payload_field_progress: "transfer_payload_field bs fnum wt off st = Inr (st', off') \<Longrightarrow> off \<le> off'"
  by (auto simp: transfer_payload_field_def store_def split: if_splits dest!: field_progress)

function transfer_payload_loop :: "bytes \<Rightarrow> nat \<Rightarrow> transfer_payload \<Rightarrow> transfer_payload io_result" where
  "transfer_payload_loop bs offset result =
    (if offset < length bs then
       and_then (read_varint_u32 bs offset) (\<lambda>(tag_key, off).
         let (fnum, wt) = read_tag_wire_type tag_key in
         and_then (transfer_payload_field bs fnum wt off result) (\<lambda>(result', off').
           transfer_payload_loop bs off' result'))
     else Inr result)"
  by pat_completeness auto
termination
  by (relation "measure (\<lambda>(bs, offset, _). length bs - offset)")
    (auto dest!: read_varint_progress transfer_payload_field_progress)

declare transfer_payload_loop.simps [simp del]

definition deserialize_transfer_payload :: "bytes \<Rightarrow> transfer_payload io_result" where
  "deserialize_transfer_payload bs = transfer_payload_loop bs 0 transfer_payload_default"

section \<open>Reading back what was written\<close>

text \<open>
  A reader \<open>rd\<close> reads the value \<open>v\<close> back from its encoding \<open>enc\<close> wherever that encoding
  stands in the input.
\<close>

definition reads_back :: "(u32 \<Rightarrow> bytes \<Rightarrow> nat \<Rightarrow> ('v \<times> nat) io_result) \<Rightarrow> u32 \<Rightarrow> bytes \<Rightarrow> 'v \<Rightarrow> bool" where
  "reads_back rd wt enc v \<longleftrightarrow>
    (\<forall>pre post. rd wt (pre @ enc @ post) (length pre) = Inr (v, length pre + length enc))"

definition wf_field :: "string \<Rightarrow> bool" where
  "wf_field s \<longleftrightarrow> wf_str s \<and> length s < 2 ^ 32"

lemma wf_field_Nil [simp]: "wf_field []"
  by (simp add: wf_field_def)

lemma read_varint_u32_write:
  "read_varint_u32 (pre @ write_varint_u32 v @ post) (length pre)
    = Inr (v, length pre + length (write_varint_u32 v))"
  by (simp add: read_varint_u32_def write_varint_u32_def read_varint_write)

lemma read_varint_u64_write:
  "read_varint_u64 (pre @ write_varint_u64 v @ post) (length pre)
    = Inr (v, length pre + length (write_varint_u64 v))"
  by (simp add: read_varint_u64_def write_varint_u64_def read_varint_write)

lemma reads_back_u32: "reads_back read_u32_field WIRE_VARINT (write_varint_u32 v) v"
  by (simp add: reads_back_def read_u32_field_def read_varint_u32_write)

lemma reads_back_u64: "reads_back read_u64_field WIRE_VARINT (write_varint_u64 v) v"
  by (simp add: reads_back_def read_u64_field_def read_varint_u64_write)

text \<open>A byte below \<open>0x80\<close> is its own varint.\<close>

lemma small_byte_bits:
  assumes "b < (0x80 :: u8)" "bit b n" shows "n < 7"
proof -
  have "unat b < 128" using assms by (simp add: word_less_nat_alt)
  then have "unat (take_bit 7 b) = unat b"
    by (simp add: unsigned_take_bit_eq take_bit_nat_eq_self)
  then have "take_bit 7 b = b" by (rule unsigned_word_eqI)
  then have "bit (take_bit 7 b) n" using assms by simp
  then show ?thesis by (simp add: bit_take_bit_iff)
qed

lemma ucast_ucast_byte: "ucast (ucast (b :: u8) :: u32) = b"
  by (rule bit_word_eqI) (simp add: bit_ucast_iff)

lemma small_byte_varint:
  assumes "b < 0x80" shows "write_varint_u32 (ucast b) = [b]"
proof -
  note small = small_byte_bits [OF assms]
  have "drop_bit 7 (ucast b :: u32) = 0"
    using small [of "7 + n" for n]
    by (intro bit_word_eqI) (auto simp: bit_drop_bit_eq bit_ucast_iff)
  moreover have "ucast (ucast b AND (0x7f :: u32)) = b"
    using small by (intro bit_word_eqI) (simp only: varint_bits, auto)
  ultimately show ?thesis
    unfolding write_varint_u32_def by (subst write_varint.simps) (simp add: Let_def)
qed

lemma reads_back_byte:
  assumes "b < 0x80" shows "reads_back (read_byte_field name) WIRE_VARINT [b] b"
proof -
  have "read_varint_u32 (pre @ [b] @ post) (length pre) = Inr (ucast b, length pre + 1)" for pre post
    using read_varint_u32_write [of pre "ucast b" post] small_byte_varint [OF assms] by simp
  then show ?thesis by (simp add: reads_back_def read_byte_field_def ucast_ucast_byte)
qed

lemma reads_back_bool: "reads_back read_bool_field WIRE_VARINT [1] True"
proof -
  have "read_varint_u32 (pre @ [1] @ post) (length pre) = Inr (1, length pre + 1)" for pre post
    using read_varint_u32_write [of pre 1 post] small_byte_varint [of 1] by simp
  then show ?thesis by (simp add: reads_back_def read_bool_field_def)
qed

lemma reads_back_string:
  assumes "wf_field s"
  shows "reads_back read_string_field WIRE_LENGTH_DELIMITED
    (write_varint_u32 (of_nat (length s)) @ as_bytes s) s"
proof -
  have len: "unat (of_nat (length s) :: u32) = length s"
    using assms by (simp add: wf_field_def unat_of_nat)
  have "utf8_error 0 (as_bytes s) = None"
    using assms by (simp add: wf_field_def wf_str_def valid_utf8_def)
  then show ?thesis
    using read_varint_u32_write [of _ "of_nat (length s)" "as_bytes s @ _"]
    by (simp add: reads_back_def read_string_field_def len Let_def)
qed

section \<open>The loops as sequences of blocks\<close>

text \<open>
  \<open>tlv_block loop bs f\<close>: wherever the bytes \<open>bs\<close> stand in the input, the loop runs over them
  and has then applied \<open>f\<close> to its result.
\<close>

definition tlv_block :: "(bytes \<Rightarrow> nat \<Rightarrow> 's \<Rightarrow> 's io_result) \<Rightarrow> bytes \<Rightarrow> ('s \<Rightarrow> 's) \<Rightarrow> bool" where
  "tlv_block loop bs f \<longleftrightarrow>
    (\<forall>pre post st. loop (pre @ bs @ post) (length pre) st
       = loop (pre @ bs @ post) (length pre + length bs) (f st))"

lemma tlv_block_Nil: "tlv_block loop [] (\<lambda>st. st)"
  by (simp add: tlv_block_def)

lemma tlv_block_append:
  assumes "tlv_block loop bs f" "tlv_block loop cs g"
  shows "tlv_block loop (bs @ cs) (\<lambda>st. g (f st))"
  unfolding tlv_block_def
proof (intro allI)
  fix pre post st
  show "loop (pre @ (bs @ cs) @ post) (length pre) st
      = loop (pre @ (bs @ cs) @ post) (length pre + length (bs @ cs)) (g (f st))"
    using assms(1) [unfolded tlv_block_def, rule_format, of pre "cs @ post" st]
      assms(2) [unfolded tlv_block_def, rule_format, of "pre @ bs" post "f st"]
    by (simp add: add.assoc)
qed

locale tlv_struct =
  fixes loop :: "bytes \<Rightarrow> nat \<Rightarrow> 's \<Rightarrow> 's io_result"
    and field :: "bytes \<Rightarrow> u32 \<Rightarrow> u32 \<Rightarrow> nat \<Rightarrow> 's \<Rightarrow> ('s \<times> nat) io_result"
  assumes loop_step: "loop bs offset st =
    (if offset < length bs then
       and_then (read_varint_u32 bs offset) (\<lambda>(tag_key, off).
         let (fnum, wt) = read_tag_wire_type tag_key in
         and_then (field bs fnum wt off st) (\<lambda>(st', off'). loop bs off' st'))
     else Inr st)"
begin

lemma block_write:
  assumes "read_tag_wire_type (make_tag n wt) = (n, wt)"
    and "reads_back rd wt enc v"
    and "\<And>bs off st. field bs n wt off st = store (rd wt bs off) (\<lambda>v. upd v st)"
  shows "tlv_block loop (write_tag n wt @ enc) (upd v)"
  unfolding tlv_block_def
proof (intro allI)
  fix pre post st
  let ?tag = "write_varint_u32 (make_tag n wt)"
  let ?bs = "pre @ ?tag @ enc @ post"
  have "length pre < length ?bs"
    using length_write_varint_u32 [of "make_tag n wt"] by auto
  moreover have "read_varint_u32 ?bs (length pre) = Inr (make_tag n wt, length pre + length ?tag)"
    by (rule read_varint_u32_write)
  moreover have "rd wt ?bs (length pre + length ?tag)
      = Inr (v, length pre + length ?tag + length enc)"
    using assms(2) [unfolded reads_back_def, rule_format, of "pre @ ?tag" post] by simp
  ultimately show "loop (pre @ (write_tag n wt @ enc) @ post) (length pre) st
      = loop (pre @ (write_tag n wt @ enc) @ post) (length pre + length (write_tag n wt @ enc))
          (upd v st)"
    by (simp add: write_tag_def loop_step [of ?bs "length pre"] assms(1,3) store_def add.assoc)
qed

text \<open>A field that is left out when it has its default value.\<close>

lemma block_optional:
  assumes "v \<noteq> d \<Longrightarrow> tlv_block loop enc (upd (\<lambda>_. v))" and "\<And>st. upd (\<lambda>old. old) st = st"
  shows "tlv_block loop (if v = d then [] else enc) (upd (\<lambda>old. if v = d then old else v))"
proof (cases "v = d")
  case True
  moreover have "upd (\<lambda>old. old) = (\<lambda>st. st)" using assms(2) by auto
  ultimately show ?thesis by (simp add: tlv_block_Nil)
next
  case False
  then show ?thesis using assms(1) by simp
qed

lemma block_u32:
  assumes "read_tag_wire_type (make_tag n WIRE_VARINT) = (n, WIRE_VARINT)"
    and "\<And>bs off st. field bs n WIRE_VARINT off st
           = store (read_u32_field WIRE_VARINT bs off) (\<lambda>v. upd (\<lambda>_. v) st)"
    and "\<And>st. upd (\<lambda>old. old) st = st"
  shows "tlv_block loop (write_u32_field n v) (upd (\<lambda>old. if v = 0 then old else v))"
  unfolding write_u32_field_def
  by (rule block_optional [where upd = upd, OF block_write [OF assms(1) reads_back_u32 assms(2)] assms(3)])

lemma block_u64:
  assumes "read_tag_wire_type (make_tag n WIRE_VARINT) = (n, WIRE_VARINT)"
    and "\<And>bs off st. field bs n WIRE_VARINT off st
           = store (read_u64_field WIRE_VARINT bs off) (\<lambda>v. upd (\<lambda>_. v) st)"
    and "\<And>st. upd (\<lambda>old. old) st = st"
  shows "tlv_block loop (write_u64_field n v) (upd (\<lambda>old. if v = 0 then old else v))"
  unfolding write_u64_field_def
  by (rule block_optional [where upd = upd, OF block_write [OF assms(1) reads_back_u64 assms(2)] assms(3)])

lemma block_bool:
  assumes "read_tag_wire_type (make_tag n WIRE_VARINT) = (n, WIRE_VARINT)"
    and "\<And>bs off st. field bs n WIRE_VARINT off st
           = store (read_bool_field WIRE_VARINT bs off) (\<lambda>v. upd (\<lambda>_. v) st)"
    and "\<And>st. upd (\<lambda>old. old) st = st"
  shows "tlv_block loop (write_bool_field n v) (upd (\<lambda>old. if v = False then old else v))"
proof (cases v)
  case True
  then show ?thesis
    using block_write [OF assms(1) reads_back_bool assms(2)] by (simp add: write_bool_field_def)
next
  case False
  moreover have "upd (\<lambda>old. old) = (\<lambda>st. st)" using assms(3) by auto
  ultimately show ?thesis by (simp add: write_bool_field_def tlv_block_Nil)
qed

lemma block_string:
  assumes "wf_field v"
    and "read_tag_wire_type (make_tag n WIRE_LENGTH_DELIMITED) = (n, WIRE_LENGTH_DELIMITED)"
    and "\<And>bs off st. field bs n WIRE_LENGTH_DELIMITED off st
           = store (read_string_field WIRE_LENGTH_DELIMITED bs off) (\<lambda>v. upd (\<lambda>_. v) st)"
    and "\<And>st. upd (\<lambda>old. old) st = st"
  shows "tlv_block loop (write_string_field n v) (upd (\<lambda>old. if v = [] then old else v))"
  unfolding write_string_field_def
  by (rule block_optional [where upd = upd,
        OF block_write [OF assms(2) reads_back_string [OF assms(1)] assms(3)] assms(4)])

lemma block_byte:
  assumes "v < 0x80"
    and "read_tag_wire_type (make_tag n WIRE_VARINT) = (n, WIRE_VARINT)"
    and "\<And>bs off st. field bs n WIRE_VARINT off st
           = store (read_byte_field name WIRE_VARINT bs off) (\<lambda>v. upd (\<lambda>_. v) st)"
  shows "tlv_block loop (write_byte_field n v) (upd (\<lambda>_. v))"
  unfolding write_byte_field_def
  by (rule block_write [OF assms(2) reads_back_byte [OF assms(1)] assms(3)])

lemma block_byte_optional:
  assumes "v < 0x80"
    and "read_tag_wire_type (make_tag n WIRE_VARINT) = (n, WIRE_VARINT)"
    and "\<And>bs off st. field bs n WIRE_VARINT off st
           = store (read_byte_field name WIRE_VARINT bs off) (\<lambda>v. upd (\<lambda>_. v) st)"
    and "\<And>st. upd (\<lambda>old. old) st = st"
  shows "tlv_block loop (if v \<noteq> 0 then write_byte_field n v else [])
    (upd (\<lambda>old. if v = 0 then old else v))"
  using block_optional [where upd = upd and d = 0, OF block_byte [OF assms(1-3)] assms(4)]
  by (cases "v = 0") simp_all

lemma run_block: "tlv_block loop bs f \<Longrightarrow> loop bs 0 st = Inr (f st)"
  unfolding tlv_block_def
  using loop_step [of bs "length bs" "f st"]
  by (metis append_Nil append_Nil2 add_0 less_irrefl list.size(3))

end

lemma if_default [simp]: "(if v = d then d else v) = v"
  by simp

interpretation hs_tlv: tlv_struct session_handshake_loop session_handshake_field
  by unfold_locales (rule session_handshake_loop.simps)

interpretation pp_tlv: tlv_struct payload_protect_loop payload_protect_field
  by unfold_locales (rule payload_protect_loop.simps)

interpretation tc_tlv: tlv_struct transfer_config_loop transfer_config_field
  by unfold_locales (rule transfer_config_loop.simps)

interpretation fm_tlv: tlv_struct file_mode_loop file_mode_field
  by unfold_locales (rule file_mode_loop.simps)

interpretation tp_tlv: tlv_struct transfer_payload_loop transfer_payload_field
  by unfold_locales (rule transfer_payload_loop.simps)

definition wf_session_handshake :: "session_handshake \<Rightarrow> bool" where
  "wf_session_handshake x \<longleftrightarrow> hs_auth_type x < 0x80 \<and> wf_field (hs_banner x)
    \<and> wf_field (hs_connect_key x) \<and> wf_field (hs_buf x) \<and> wf_field (hs_version x)"

definition wf_payload_protect :: "payload_protect \<Rightarrow> bool" where
  "wf_payload_protect x \<longleftrightarrow> pp_check_sum x < 0x80 \<and> pp_v_code x < 0x80"

definition wf_transfer_config :: "transfer_config \<Rightarrow> bool" where
  "wf_transfer_config x \<longleftrightarrow> tc_compress_type x < 0x80 \<and> wf_field (tc_options x)
    \<and> wf_field (tc_path x) \<and> wf_field (tc_optional_name x) \<and> wf_field (tc_function_name x)
    \<and> wf_field (tc_client_cwd x) \<and> wf_field (tc_reserve1 x) \<and> wf_field (tc_reserve2 x)"

definition wf_file_mode :: "file_mode \<Rightarrow> bool" where
  "wf_file_mode x \<longleftrightarrow> wf_field (fm_context x) \<and> wf_field (fm_full_name x)"

definition wf_transfer_payload :: "transfer_payload \<Rightarrow> bool" where
  "wf_transfer_payload x \<longleftrightarrow> tp_compress_type x < 0x80"

lemmas tag_eval = read_tag_wire_type_def make_tag_def wire_defs

lemma write_u32_field_guard:
  "(if v \<noteq> 0 then write_u32_field n v else []) = write_u32_field n v"
  by (simp add: write_u32_field_def)

lemma pp_blocks:
  assumes "wf_payload_protect x"
  shows
    "tlv_block payload_protect_loop (write_u32_field 1 (pp_channel_id x))
      (pp_channel_id_update (\<lambda>old. if pp_channel_id x = 0 then old else pp_channel_id x))"
    "tlv_block payload_protect_loop (write_u32_field 2 (pp_command_flag x))
      (pp_command_flag_update (\<lambda>old. if pp_command_flag x = 0 then old else pp_command_flag x))"
    "tlv_block payload_protect_loop (if pp_check_sum x \<noteq> 0 then write_byte_field 3 (pp_check_sum x) else [])
      (pp_check_sum_update (\<lambda>old. if pp_check_sum x = 0 then old else pp_check_sum x))"
    "tlv_block payload_protect_loop (if pp_v_code x \<noteq> 0 then write_byte_field 4 (pp_v_code x) else [])
      (pp_v_code_update (\<lambda>old. if pp_v_code x = 0 then old else pp_v_code x))"
  subgoal by (rule pp_tlv.block_u32 [where upd = pp_channel_id_update])
    (use assms in \<open>simp_all add: payload_protect_field_def wf_payload_protect_def tag_eval\<close>)
  subgoal by (rule pp_tlv.block_u32 [where upd = pp_command_flag_update])
    (use assms in \<open>simp_all add: payload_protect_field_def wf_payload_protect_def tag_eval\<close>)
  subgoal by (rule pp_tlv.block_byte_optional [where upd = pp_check_sum_update])
    (use assms in \<open>simp_all add: payload_protect_field_def wf_payload_protect_def tag_eval\<close>)
  subgoal by (rule pp_tlv.block_byte_optional [where upd = pp_v_code_update])
    (use assms in \<open>simp_all add: payload_protect_field_def wf_payload_protect_def tag_eval\<close>)
  done

lemma payload_protect_round_trip:
  assumes "wf_payload_protect x"
  shows "deserialize_payload_protect (serialize_payload_protect x) = Inr x"
proof -
  have "\<exists>f. tlv_block payload_protect_loop (serialize_payload_protect x) f \<and> f payload_protect_default = x"
    unfolding serialize_payload_protect_def write_u32_field_guard payload_protect_default_def
    by (intro exI conjI, (rule tlv_block_append pp_blocks [OF assms])+) (cases x, simp)
  then show ?thesis
    unfolding deserialize_payload_protect_def using pp_tlv.run_block by blast
qed

lemma hs_blocks:
  assumes "wf_session_handshake x"
  shows
    "tlv_block session_handshake_loop (write_string_field 1 (hs_banner x))
      (hs_banner_update (\<lambda>old. if hs_banner x = [] then old else hs_banner x))"
    "tlv_block session_handshake_loop (write_byte_field 2 (hs_auth_type x))
      (hs_auth_type_update (\<lambda>_. hs_auth_type x))"
    "tlv_block session_handshake_loop (write_u32_field 3 (hs_session_id x))
      (hs_session_id_update (\<lambda>old. if hs_session_id x = 0 then old else hs_session_id x))"
    "tlv_block session_handshake_loop (write_string_field 4 (hs_connect_key x))
      (hs_connect_key_update (\<lambda>old. if hs_connect_key x = [] then old else hs_connect_key x))"
    "tlv_block session_handshake_loop (write_string_field 5 (hs_buf x))
      (hs_buf_update (\<lambda>old. if hs_buf x = [] then old else hs_buf x))"
    "tlv_block session_handshake_loop (write_string_field 6 (hs_version x))
      (hs_version_update (\<lambda>old. if hs_version x = [] then old else hs_version x))"
  subgoal by (rule hs_tlv.block_string [where upd = hs_banner_update])
    (use assms in \<open>simp_all add: session_handshake_field_def wf_session_handshake_def tag_eval\<close>)
  subgoal by (rule hs_tlv.block_byte [where upd = hs_auth_type_update])
    (use assms in \<open>simp_all add: session_handshake_field_def wf_session_handshake_def tag_eval\<close>)
  subgoal by (rule hs_tlv.block_u32 [where upd = hs_session_id_update])
    (use assms in \<open>simp_all add: session_handshake_field_def wf_session_handshake_def tag_eval\<close>)
  subgoal by (rule hs_tlv.block_string [where upd = hs_connect_key_update])
    (use assms in \<open>simp_all add: session_handshake_field_def wf_session_handshake_def tag_eval\<close>)
  subgoal by (rule hs_tlv.block_string [where upd = hs_buf_update])
    (use assms in \<open>simp_all add: session_handshake_field_def wf_session_handshake_def tag_eval\<close>)
  subgoal by (rule hs_tlv.block_string [where upd = hs_version_update])
    (use assms in \<open>simp_all add: session_handshake_field_def wf_session_handshake_def tag_eval\<close>)
  done

lemma session_handshake_round_trip:
  assumes "wf_session_handshake x"
  shows "deserialize_session_handshake (serialize_session_handshake x) = Inr x"
proof -
  have "\<exists>f. tlv_block session_handshake_loop (serialize_session_handshake x) f \<and> f session_handshake_default = x"
    unfolding serialize_session_handshake_def write_u32_field_guard session_handshake_default_def
    by (intro exI conjI, (rule tlv_block_append hs_blocks [OF assms])+) (cases x, simp)
  then show ?thesis
    unfolding deserialize_session_handshake_def using hs_tlv.run_block by blast
qed

lemma fm_blocks:
  assumes "wf_file_mode x"
  shows
    "tlv_block file_mode_loop (write_u64_field 1 (fm_perm x))
      (fm_perm_update (\<lambda>old. if fm_perm x = 0 then old else fm_perm x))"
    "tlv_block file_mode_loop (write_u64_field 2 (fm_u_id x))
      (fm_u_id_update (\<lambda>old. if fm_u_id x = 0 then old else fm_u_id x))"
    "tlv_block file_mode_loop (write_u64_field 3 (fm_g_id x))
      (fm_g_id_update (\<lambda>old. if fm_g_id x = 0 then old else fm_g_id x))"
    "tlv_block file_mode_loop (write_string_field 4 (fm_context x))
      (fm_context_update (\<lambda>old. if fm_context x = [] then old else fm_context x))"
    "tlv_block file_mode_loop (write_string_field 5 (fm_full_name x))
      (fm_full_name_update (\<lambda>old. if fm_full_name x = [] then old else fm_full_name x))"
  subgoal by (rule fm_tlv.block_u64 [where upd = fm_perm_update])
    (use assms in \<open>simp_all add: file_mode_field_def wf_file_mode_def tag_eval\<close>)
  subgoal by (rule fm_tlv.block_u64 [where upd = fm_u_id_update])
    (use assms in \<open>simp_all add: file_mode_field_def wf_file_mode_def tag_eval\<close>)
  subgoal by (rule fm_tlv.block_u64 [where upd = fm_g_id_update])
    (use assms in \<open>simp_all add: file_mode_field_def wf_file_mode_def tag_eval\<close>)
  subgoal by (rule fm_tlv.block_string [where upd = fm_context_update])
    (use assms in \<open>simp_all add: file_mode_field_def wf_file_mode_def tag_eval\<close>)
  subgoal by (rule fm_tlv.block_string [where upd = fm_full_name_update])
    (use assms in \<open>simp_all add: file_mode_field_def wf_file_mode_def tag_eval\<close>)
  done

lemma file_mode_round_trip:
  assumes "wf_file_mode x"
  shows "deserialize_file_mode (serialize_file_mode x) = Inr x"
proof -
  have "\<exists>f. tlv_block file_mode_loop (serialize_file_mode x) f \<and> f file_mode_default = x"
    unfolding serialize_file_mode_def write_u32_field_guard file_mode_default_def
    by (intro exI conjI, (rule tlv_block_append fm_blocks [OF assms])+) (cases x, simp)
  then show ?thesis
    unfolding deserialize_file_mode_def using fm_tlv.run_block by blast
qed

lemma tp_blocks:
  assumes "wf_transfer_payload x"
  shows
    "tlv_block transfer_payload_loop (write_u64_field 1 (tp_index x))
      (tp_index_update (\<lambda>old. if tp_index x = 0 then old else tp_index x))"
    "tlv_block transfer_payload_loop (if tp_compress_type x \<noteq> 0 then write_byte_field 2 (tp_compress_type x) else [])
      (tp_compress_type_update (\<lambda>old. if tp_compress_type x = 0 then old else tp_compress_type x))"
    "tlv_block transfer_payload_loop (write_u32_field 3 (tp_compress_size x))
      (tp_compress_size_update (\<lambda>old. if tp_compress_size x = 0 then old else tp_compress_size x))"
    "tlv_block transfer_payload_loop (write_u32_field 4 (tp_uncompress_size x))
      (tp_uncompress_size_update (\<lambda>old. if tp_uncompress_size x = 0 then old else tp_uncompress_size x))"
  subgoal by (rule tp_tlv.block_u64 [where upd = tp_index_update])
    (use assms in \<open>simp_all add: transfer_payload_field_def wf_transfer_payload_def tag_eval\<close>)
  subgoal by (rule tp_tlv.block_byte_optional [where upd = tp_compress_type_update])
    (use assms in \<open>simp_all add: transfer_payload_field_def wf_transfer_payload_def tag_eval\<close>)
  subgoal by (rule tp_tlv.block_u32 [where upd = tp_compress_size_update])
    (use assms in \<open>simp_all add: transfer_payload_field_def wf_transfer_payload_def tag_eval\<close>)
  subgoal by (rule tp_tlv.block_u32 [where upd = tp_uncompress_size_update])
    (use assms in \<open>simp_all add: transfer_payload_field_def wf_transfer_payload_def tag_eval\<close>)
  done

lemma transfer_payload_block:
  assumes "wf_transfer_payload x"
  shows "\<exists>f. tlv_block transfer_payload_loop (serialize_transfer_payload x) f \<and> f transfer_payload_default = x"
  unfolding serialize_transfer_payload_def write_u32_field_guard transfer_payload_default_def
  by (intro exI conjI, (rule tlv_block_append tp_blocks [OF assms])+) (cases x, simp)

lemma transfer_payload_round_trip:
  "wf_transfer_payload x \<Longrightarrow> deserialize_transfer_payload (serialize_transfer_payload x) = Inr x"
  unfolding deserialize_transfer_payload_def using transfer_payload_block tp_tlv.run_block by blast

lemma tc_blocks:
  assumes "wf_transfer_config x"
  shows
    "tlv_block transfer_config_loop (write_u64_field 1 (tc_file_size x))
      (tc_file_size_update (\<lambda>old. if tc_file_size x = 0 then old else tc_file_size x))"
    "tlv_block transfer_config_loop (write_u64_field 2 (tc_atime x))
      (tc_atime_update (\<lambda>old. if tc_atime x = 0 then old else tc_atime x))"
    "tlv_block transfer_config_loop (write_u64_field 3 (tc_mtime x))
      (tc_mtime_update (\<lambda>old. if tc_mtime x = 0 then old else tc_mtime x))"
    "tlv_block transfer_config_loop (write_string_field 4 (tc_options x))
      (tc_options_update (\<lambda>old. if tc_options x = [] then old else tc_options x))"
    "tlv_block transfer_config_loop (write_string_field 5 (tc_path x))
      (tc_path_update (\<lambda>old. if tc_path x = [] then old else tc_path x))"
    "tlv_block transfer_config_loop (write_string_field 6 (tc_optional_name x))
      (tc_optional_name_update (\<lambda>old. if tc_optional_name x = [] then old else tc_optional_name x))"
    "tlv_block transfer_config_loop (write_bool_field 7 (tc_update_if_new x))
      (tc_update_if_new_update (\<lambda>old. if tc_update_if_new x = False then old else tc_update_if_new x))"
    "tlv_block transfer_config_loop (if tc_compress_type x \<noteq> 0 then write_byte_field 8 (tc_compress_type x) else [])
      (tc_compress_type_update (\<lambda>old. if tc_compress_type x = 0 then old else tc_compress_type x))"
    "tlv_block transfer_config_loop (write_bool_field 9 (tc_hold_timestamp x))
      (tc_hold_timestamp_update (\<lambda>old. if tc_hold_timestamp x = False then old else tc_hold_timestamp x))"
    "tlv_block transfer_config_loop (write_string_field 10 (tc_function_name x))
      (tc_function_name_update (\<lambda>old. if tc_function_name x = [] then old else tc_function_name x))"
    "tlv_block transfer_config_loop (write_string_field 11 (tc_client_cwd x))
      (tc_client_cwd_update (\<lambda>old. if tc_client_cwd x = [] then old else tc_client_cwd x))"
    "tlv_block transfer_config_loop (write_string_field 12 (tc_reserve1 x))
      (tc_reserve1_update (\<lambda>old. if tc_reserve1 x = [] then old else tc_reserve1 x))"
    "tlv_block transfer_config_loop (write_string_field 13 (tc_reserve2 x))
      (tc_reserve2_update (\<lambda>old. if tc_reserve2 x = [] then old else tc_reserve2 x))"
  subgoal by (rule tc_tlv.block_u64 [where upd = tc_file_size_update])
    (use assms in \<open>simp_all add: transfer_config_field_def wf_transfer_config_def tag_eval\<close>)
  subgoal by (rule tc_tlv.block_u64 [where upd = tc_atime_update])
    (use assms in \<open>simp_all add: transfer_config_field_def wf_transfer_config_def tag_eval\<close>)
  subgoal by (rule tc_tlv.block_u64 [where upd = tc_mtime_update])
    (use assms in \<open>simp_all add: transfer_config_field_def wf_transfer_config_def tag_eval\<close>)
  subgoal by (rule tc_tlv.block_string [where upd = tc_options_update])
    (use assms in \<open>simp_all add: transfer_config_field_def wf_transfer_config_def tag_eval\<close>)
  subgoal by (rule tc_tlv.block_string [where upd = tc_path_update])
    (use assms in \<open>simp_all add: transfer_config_field_def wf_transfer_config_def tag_eval\<close>)
  subgoal by (rule tc_tlv.block_string [where upd = tc_optional_name_update])
    (use assms in \<open>simp_all add: transfer_config_field_def wf_transfer_config_def tag_eval\<close>)
  subgoal by (rule tc_tlv.block_bool [where upd = tc_update_if_new_update])
    (use assms in \<open>simp_all add: transfer_config_field_def wf_transfer_config_def tag_eval\<close>)
  subgoal by (rule tc_tlv.block_byte_optional [where upd = tc_compress_type_update])
    (use assms in \<open>simp_all add: transfer_config_field_def wf_transfer_config_def tag_eval\<close>)
  subgoal by (rule tc_tlv.block_bool [where upd = tc_hold_timestamp_update])
    (use assms in \<open>simp_all add: transfer_config_field_def wf_transfer_config_def tag_eval\<close>)
  subgoal by (rule tc_tlv.block_string [where upd = tc_function_name_update])
    (use assms in \<open>simp_all add: transfer_config_field_def wf_transfer_config_def tag_eval\<close>)
  subgoal by (rule tc_tlv.block_string [where upd = tc_client_cwd_update])
    (use assms in \<open>simp_all add: transfer_config_field_def wf_transfer_config_def tag_eval\<close>)
  subgoal by (rule tc_tlv.block_string [where upd = tc_reserve1_update])
    (use assms in \<open>simp_all add: transfer_config_field_def wf_transfer_config_def tag_eval\<close>)
  subgoal by (rule tc_tlv.block_string [where upd = tc_reserve2_update])
    (use assms in \<open>simp_all add: transfer_config_field_def wf_transfer_config_def tag_eval\<close>)
  done

lemma transfer_config_round_trip:
  assumes "wf_transfer_config x"
  shows "deserialize_transfer_config (serialize_transfer_config x) = Inr x"
proof -
  have "\<exists>f. tlv_block transfer_config_loop (serialize_transfer_config x) f \<and> f transfer_config_default = x"
    unfolding serialize_transfer_config_def write_u32_field_guard transfer_config_default_def
    by (intro exI conjI, (rule tlv_block_append tc_blocks [OF assms])+) (cases x, simp)
  then show ?thesis
    unfolding deserialize_transfer_config_def using tc_tlv.run_block by blast
qed

section \<open>Fixed-size round trips\<close>

lemma to_be_2: "to_be 2 w = [ucast (drop_bit 8 w), ucast w]"
  by (simp add: numeral_2_eq_2)

lemma to_be_4: "to_be 4 w = [ucast (drop_bit 24 w), ucast (drop_bit 16 w), ucast (drop_bit 8 w), ucast w]"
  by (simp add: eval_nat_numeral)

lemma from_be_2 [simp]: "from_be [ucast (drop_bit 8 w), ucast w] = (w :: u16)"
  using from_to_be_u16 [of w] by (simp only: to_be_2)

lemma from_be_4 [simp]:
  "from_be [ucast (drop_bit 24 w), ucast (drop_bit 16 w), ucast (drop_bit 8 w), ucast w] = (w :: u32)"
  using from_to_be_u32 [of w] by (simp only: to_be_4)

text \<open>Bytes after the head do not matter: the readers look at a prefix only.\<close>

lemma payload_head_round_trip:
  "deserialize_payload_head (serialize_payload_head h @ rest) = Inr h"
  by (cases h)
    (simp add: deserialize_payload_head_def serialize_payload_head_def pair_bytes_def to_be_2 to_be_4)

lemma usb_head_round_trip:
  "deserialize_usb_head (serialize_usb_head h @ rest) = Inr h"
  by (cases h)
    (simp add: deserialize_usb_head_def serialize_usb_head_def pair_bytes_def to_be_2 to_be_4)

lemma uart_head_round_trip:
  "deserialize_uart_head (serialize_uart_head h @ rest) = Inr h"
  by (cases h)
    (simp add: deserialize_uart_head_def serialize_uart_head_def pair_bytes_def to_be_2 to_be_4)

lemma length_serialize_heads [simp]:
  "length (serialize_payload_head h1) = 11"
  "length (serialize_usb_head h2) = 11"
  "length (serialize_uart_head h3) = 24"
  by (simp_all add: serialize_payload_head_def serialize_usb_head_def serialize_uart_head_def
      pair_bytes_def)

section \<open>Codecs\<close>

text \<open>
  What every pair of inverse conversions gives: the encoding determines the value, and a value
  whose encoding is read back differently is not well-formed.
\<close>

locale codec =
  fixes ser :: "'a \<Rightarrow> bytes"
    and de :: "bytes \<Rightarrow> 'a io_result"
    and wf :: "'a \<Rightarrow> bool"
  assumes round_trip: "wf x \<Longrightarrow> de (ser x) = Inr x"
begin

lemma ser_inject: "wf x \<Longrightarrow> wf y \<Longrightarrow> ser x = ser y \<longleftrightarrow> x = y"
  by (metis round_trip sum.inject(2))

lemma de_ser_iff: "wf x \<Longrightarrow> de (ser x) = Inr y \<longleftrightarrow> x = y"
  by (simp add: round_trip)

lemma de_map: "list_all wf xs \<Longrightarrow> map (de \<circ> ser) xs = map Inr xs"
  by (induction xs) (simp_all add: round_trip)

end

interpretation hs_codec: codec serialize_session_handshake deserialize_session_handshake
  wf_session_handshake
  by unfold_locales (rule session_handshake_round_trip)

interpretation pp_codec: codec serialize_payload_protect deserialize_payload_protect
  wf_payload_protect
  by unfold_locales (rule payload_protect_round_trip)

interpretation tc_codec: codec serialize_transfer_config deserialize_transfer_config
  wf_transfer_config
  by unfold_locales (rule transfer_config_round_trip)

interpretation fm_codec: codec serialize_file_mode deserialize_file_mode wf_file_mode
  by unfold_locales (rule file_mode_round_trip)

interpretation tp_codec: codec serialize_transfer_payload deserialize_transfer_payload
  wf_transfer_payload
  by unfold_locales (rule transfer_payload_round_trip)

interpretation ph_codec: codec serialize_payload_head deserialize_payload_head "\<lambda>_. True"
  using payload_head_round_trip [of _ "[]"] by unfold_locales simp

interpretation uh_codec: codec serialize_usb_head deserialize_usb_head "\<lambda>_. True"
  using usb_head_round_trip [of _ "[]"] by unfold_locales simp

interpretation ua_codec: codec serialize_uart_head deserialize_uart_head "\<lambda>_. True"
  using uart_head_round_trip [of _ "[]"] by unfold_locales simp

section \<open>The size of a handshake\<close>

lemma length_write_string_field: "length (write_string_field n s) \<le> 10 + length s"
  using length_write_varint_u32 [of "make_tag n WIRE_LENGTH_DELIMITED"] length_write_varint_u32 [of "of_nat (length s)"]
  by (auto simp: write_string_field_def write_tag_def)

lemma length_serialize_session_handshake:
  "length (serialize_session_handshake h)
    \<le> 60 + length (hs_banner h) + length (hs_connect_key h) + length (hs_buf h) + length (hs_version h)"
  using length_write_string_field [of 1 "hs_banner h"] length_write_string_field [of 4 "hs_connect_key h"]
    length_write_string_field [of 5 "hs_buf h"] length_write_string_field [of 6 "hs_version h"]
    length_write_varint_u32 [of "make_tag 2 WIRE_VARINT"] length_write_varint_u32 [of "make_tag 3 WIRE_VARINT"]
    length_write_varint_u32 [of "hs_session_id h"]
  by (simp add: serialize_session_handshake_def write_byte_field_def write_u32_field_def write_tag_def)

end
