(* ===== verification/Packet.thy ===== *)
theory Packet
  imports Serializer
begin

text \<open>
  Assembly of a task message into a packet and the inverse (\<open>TaskMessage\<close> of
  \<open>crates/hdc-protocol/src/config.rs\<close>, and the packet helpers at the end of
  \<open>crates/hdc-protocol/src/serializer.rs\<close>). A packet is the 11-byte head, the serialized
  \<open>PayloadProtect\<close>, and the payload.
\<close>

record task_message =
  tm_channel_id :: u32
  tm_command :: hdc_command
  tm_payload :: bytes

definition HEAD_SIZE :: nat where "HEAD_SIZE = 11"
definition USB_HEAD_SIZE :: nat where "USB_HEAD_SIZE = 11"

definition concat_pack :: "task_message \<Rightarrow> bytes" where
  "concat_pack msg =
    (let check_sum = (if ENABLE_IO_CHECK then sum_list (tm_payload msg) else 0);
         protect_buf = serialize_payload_protect
           \<lparr>pp_channel_id = tm_channel_id msg, pp_command_flag = as_u32 (tm_command msg),
            pp_check_sum = check_sum, pp_v_code = PAYLOAD_VCODE\<rparr>;
         head_buf = serialize_payload_head
           \<lparr>ph_flag = (PACKET_FLAG ! 0, PACKET_FLAG ! 1), ph_reserve = (0, 0),
            ph_protocol_ver = ucast VER_PROTOCOL,
            ph_head_size = of_nat (length protect_buf),
            ph_data_size = of_nat (length (tm_payload msg))\<rparr>
     in head_buf @ protect_buf @ tm_payload msg)"

text \<open>\<open>{:?}\<close> of a byte slice, for the error text.\<close>

definition debug_bytes :: "bytes \<Rightarrow> string" where
  "debug_bytes bs = ''['' @ join '', '' (map (\<lambda>b. show_nat (unat b)) bs) @ '']''"

definition unpack_payload_head :: "bytes \<Rightarrow> payload_head io_result" where
  "unpack_payload_head data =
    (if length data < HEAD_SIZE then Inl (Error InvalidData ''payload head too short'')
     else and_then (deserialize_payload_head (take HEAD_SIZE data)) (\<lambda>head.
       if ph_flag head \<noteq> (PACKET_FLAG ! 0, PACKET_FLAG ! 1)
       then Inl (Error InvalidData (''PACKET_FLAG incorrect: expected '' @ debug_bytes PACKET_FLAG
              @ '', got '' @ debug_bytes (pair_bytes (ph_flag head))))
       else Inr head))"

definition unpack_payload_protect :: "bytes \<Rightarrow> payload_protect io_result" where
  "unpack_payload_protect data = deserialize_payload_protect data"

text \<open>\<open>HdcCommand::try_from\<close> with the error that every caller maps its failure to.\<close>

definition command_of :: "payload_protect \<Rightarrow> hdc_command io_result" where
  "command_of p = (case hdc_command_try_from (pp_command_flag p) of
     None \<Rightarrow> Inl (Error InvalidData ''unknown command'') | Some c \<Rightarrow> Inr c)"

definition unpack_task_message :: "bytes \<Rightarrow> task_message io_result" where
  "unpack_task_message data =
    (if length data < HEAD_SIZE then Inl (Error InvalidData ''data too short for head'')
     else and_then (unpack_payload_head (take HEAD_SIZE data)) (\<lambda>head.
       let hsz = unat (ph_head_size head); dsz = unat (ph_data_size head) in
       if hsz + dsz = 0 \<or> HDC_BUF_MAX_SIZE < hsz + dsz
       then Inl (Error InvalidData ''Packet size incorrect'')
       else if length data < HEAD_SIZE + hsz + dsz
       then Inl (Error InvalidData ''incomplete packet'')
       else
         let protect_data = take hsz (drop HEAD_SIZE data);
             payload_data = take dsz (drop (HEAD_SIZE + hsz) data)
         in and_then (unpack_payload_protect protect_data) (\<lambda>p.
              if pp_v_code p \<noteq> PAYLOAD_VCODE
              then Inl (Error InvalidData ''Session recv static vcode failed'')
              else and_then (command_of p) (\<lambda>command.
                Inr \<lparr>tm_channel_id = pp_channel_id p, tm_command = command,
                     tm_payload = payload_data\<rparr>))))"

section \<open>The parts of a packet\<close>

definition packet_protect :: "task_message \<Rightarrow> payload_protect" where
  "packet_protect msg = \<lparr>pp_channel_id = tm_channel_id msg,
     pp_command_flag = as_u32 (tm_command msg), pp_check_sum = 0, pp_v_code = PAYLOAD_VCODE\<rparr>"

definition packet_head :: "task_message \<Rightarrow> payload_head" where
  "packet_head msg = \<lparr>ph_flag = (PACKET_FLAG ! 0, PACKET_FLAG ! 1), ph_reserve = (0, 0),
     ph_protocol_ver = ucast VER_PROTOCOL,
     ph_head_size = of_nat (length (serialize_payload_protect (packet_protect msg))),
     ph_data_size = of_nat (length (tm_payload msg))\<rparr>"

text \<open>The messages whose packet the readers accept.\<close>

definition wf_task_message :: "task_message \<Rightarrow> bool" where
  "wf_task_message msg \<longleftrightarrow> length (tm_payload msg) + 14 \<le> HDC_BUF_MAX_SIZE"

lemma concat_pack_parts:
  "concat_pack msg = serialize_payload_head (packet_head msg)
    @ serialize_payload_protect (packet_protect msg) @ tm_payload msg"
  by (simp add: concat_pack_def packet_head_def packet_protect_def ENABLE_IO_CHECK_def Let_def)

lemma unpack_payload_protect_packet:
  "unpack_payload_protect (serialize_payload_protect (packet_protect msg)) = Inr (packet_protect msg)"
  unfolding unpack_payload_protect_def
  by (rule payload_protect_round_trip)
    (simp add: wf_payload_protect_def packet_protect_def PAYLOAD_VCODE_def)

lemma command_of_packet [simp]: "command_of (packet_protect msg) = Inr (tm_command msg)"
  by (simp add: command_of_def packet_protect_def)

lemma packet_protect_sel [simp]:
  "pp_channel_id (packet_protect msg) = tm_channel_id msg"
  "pp_v_code (packet_protect msg) = PAYLOAD_VCODE"
  by (simp_all add: packet_protect_def)

lemma unpack_payload_head_packet:
  "unpack_payload_head (serialize_payload_head (packet_head msg) @ rest) = Inr (packet_head msg)"
  using payload_head_round_trip [of "packet_head msg" "[]"]
  by (simp add: unpack_payload_head_def HEAD_SIZE_def packet_head_def del: PACKET_FLAG_bytes)

text \<open>The protect part is between 2 and 14 bytes long, so its length fits the head's field.\<close>

lemma small_tag_length: "n \<le> 4 \<Longrightarrow> length (write_tag n WIRE_VARINT) = 1"
proof -
  assume "n \<le> 4"
  have "unat (make_tag n WIRE_VARINT) \<le> 8 * unat n"
    by (simp add: make_tag_def WIRE_VARINT_def push_bit_eq_mult unat_word_ariths)
  also have "\<dots> < 128 ^ 1" using \<open>n \<le> 4\<close> by (simp add: word_le_nat_alt)
  finally have "length (write_varint (make_tag n WIRE_VARINT)) \<le> 1"
    by (intro length_write_varint) auto
  moreover have "1 \<le> length (write_varint (make_tag n WIRE_VARINT))"
    by (simp add: Suc_le_eq)
  ultimately show ?thesis by (simp add: write_tag_def write_varint_u32_def)
qed

lemma small_u32_field_length: "n \<le> 4 \<Longrightarrow> length (write_u32_field n v) \<le> 6"
  using length_write_varint_u32 [of v] by (simp add: write_u32_field_def small_tag_length)

lemma packet_protect_length:
  "length (serialize_payload_protect (packet_protect msg)) \<in> {2..14}"
  using small_u32_field_length [of 1 "tm_channel_id msg"]
    small_u32_field_length [of 2 "as_u32 (tm_command msg)"]
  by (simp add: serialize_payload_protect_def packet_protect_def write_byte_field_def
      small_tag_length PAYLOAD_VCODE_def)

lemma packet_head_sizes:
  assumes "wf_task_message msg"
  shows "unat (ph_head_size (packet_head msg))
      = length (serialize_payload_protect (packet_protect msg))"
    and "unat (ph_data_size (packet_head msg)) = length (tm_payload msg)"
  using assms packet_protect_length [of msg]
  by (simp_all add: packet_head_def wf_task_message_def HDC_BUF_MAX_SIZE_def unat_of_nat)

lemma length_concat_pack:
  "length (concat_pack msg) = 11 + length (serialize_payload_protect (packet_protect msg))
     + length (tm_payload msg)"
  by (simp add: concat_pack_parts)

section \<open>Round trip\<close>

text \<open>Unpacking a packet gives the message back, whatever follows the packet in the buffer.\<close>

lemma unpack_concat_pack:
  assumes "wf_task_message msg"
  shows "unpack_task_message (concat_pack msg @ rest) = Inr msg"
proof -
  let ?p = "serialize_payload_protect (packet_protect msg)"
  note sizes = packet_head_sizes [OF assms]
  have "length ?p \<in> {2..14}" by (rule packet_protect_length)
  then have "?p \<noteq> []" "length ?p \<le> 14" by auto
  moreover have "unpack_payload_head (take HEAD_SIZE (concat_pack msg @ rest)) = Inr (packet_head msg)"
    using unpack_payload_head_packet [of msg "[]"] by (simp add: concat_pack_parts HEAD_SIZE_def)
  moreover have "take (length ?p) (drop HEAD_SIZE (concat_pack msg @ rest)) = ?p"
    by (simp add: concat_pack_parts HEAD_SIZE_def)
  moreover have "take (length (tm_payload msg)) (drop (HEAD_SIZE + length ?p) (concat_pack msg @ rest))
      = tm_payload msg"
    by (simp add: concat_pack_parts HEAD_SIZE_def)
  ultimately show ?thesis
    using assms
    by (simp add: unpack_task_message_def Let_def sizes unpack_payload_protect_packet
        length_concat_pack HEAD_SIZE_def wf_task_message_def)
qed

interpretation packet_codec: codec concat_pack unpack_task_message wf_task_message
  using unpack_concat_pack [of _ "[]"] by unfold_locales simp

section \<open>Rejection\<close>

text \<open>Every way of rejecting a buffer is an \<open>InvalidData\<close> error.\<close>

definition invalid_data :: "'a io_result \<Rightarrow> bool" where
  "invalid_data r \<longleftrightarrow> (case r of Inl e \<Rightarrow> err_kind e = InvalidData | Inr _ \<Rightarrow> True)"

lemma invalid_data_simps [simp]:
  "invalid_data (Inr x)" "invalid_data (Inl (Error k m)) \<longleftrightarrow> k = InvalidData"
  by (simp_all add: invalid_data_def)

lemma invalid_data_and_then [intro]:
  "invalid_data r \<Longrightarrow> (\<And>x. r = Inr x \<Longrightarrow> invalid_data (f x)) \<Longrightarrow> invalid_data (and_then r f)"
  by (cases r) (auto simp: invalid_data_def)

lemma invalid_data_varint: "invalid_data (read_varint_loop bs off acc s)"
proof (induction bs off acc s rule: read_varint_loop.induct)
  case (1 bs off acc s)
  then show ?case by (subst read_varint_loop.simps) (auto simp: Let_def)
qed

lemma invalid_data_fields [simp]:
  "invalid_data (read_varint_u32 bs off)" "invalid_data (read_varint_u64 bs off)"
  "invalid_data (read_u32_field wt bs off)" "invalid_data (read_byte_field name wt bs off)"
  "invalid_data (skip_unknown wt bs off)"
  by (auto simp: read_varint_u32_def read_varint_u64_def read_varint_def invalid_data_varint
      read_u32_field_def read_byte_field_def skip_unknown_def intro!: invalid_data_and_then)

lemma invalid_data_payload_protect_loop: "invalid_data (payload_protect_loop bs off st)"
proof (induction bs off st rule: payload_protect_loop.induct)
  case (1 bs off st)
  then show ?case
    by (subst payload_protect_loop.simps)
      (auto simp: payload_protect_field_def store_def split: prod.splits
        intro!: invalid_data_and_then)
qed

lemma invalid_data_unpack: "invalid_data (unpack_task_message data)"
  by (auto simp: unpack_task_message_def unpack_payload_head_def deserialize_payload_head_def
      unpack_payload_protect_def deserialize_payload_protect_def command_of_def Let_def
      invalid_data_payload_protect_loop split: option.splits intro!: invalid_data_and_then)

text \<open>An accepted buffer starts with a packet whose parts lie inside the buffer.\<close>

lemma slices: "data = take a data @ take h (drop a data) @ take d (drop (a + h) data) @ drop (a + h + d) data"
  using append_take_drop_id [of "a + h + d" data] by (simp add: take_add)

lemma unpack_task_message_sound:
  assumes "unpack_task_message data = Inr msg"
  shows "\<exists>head protect rest. data = head @ protect @ tm_payload msg @ rest
    \<and> length head = HEAD_SIZE \<and> take 2 head = PACKET_FLAG
    \<and> length protect + length (tm_payload msg) \<le> HDC_BUF_MAX_SIZE
    \<and> (\<exists>p. deserialize_payload_protect protect = Inr p \<and> pp_channel_id p = tm_channel_id msg
         \<and> pp_command_flag p = as_u32 (tm_command msg) \<and> pp_v_code p = PAYLOAD_VCODE)"
proof -
  obtain head p where
    len: "HEAD_SIZE \<le> length data" and
    head: "unpack_payload_head (take HEAD_SIZE data) = Inr head" and
    fits: "HEAD_SIZE + unat (ph_head_size head) + unat (ph_data_size head) \<le> length data"
      "unat (ph_head_size head) + unat (ph_data_size head) \<le> HDC_BUF_MAX_SIZE" and
    p: "deserialize_payload_protect (take (unat (ph_head_size head)) (drop HEAD_SIZE data)) = Inr p"
      "pp_v_code p = PAYLOAD_VCODE" "command_of p = Inr (tm_command msg)"
      "pp_channel_id p = tm_channel_id msg" and
    payload: "tm_payload msg
      = take (unat (ph_data_size head)) (drop (HEAD_SIZE + unat (ph_head_size head)) data)"
    using assms by (auto simp: unpack_task_message_def unpack_payload_protect_def Let_def
        split: if_splits)
  let ?h = "unat (ph_head_size head)" and ?d = "unat (ph_data_size head)"
  have "data = take HEAD_SIZE data @ take ?h (drop HEAD_SIZE data) @ tm_payload msg
      @ drop (HEAD_SIZE + ?h + ?d) data"
    unfolding payload by (rule slices)
  moreover have "take 2 (take HEAD_SIZE data) = PACKET_FLAG"
  proof -
    obtain a b ds where "data = a # b # ds"
      using len by (cases data; cases "tl data") (auto simp: HEAD_SIZE_def)
    then show ?thesis
      using head len by (auto simp: unpack_payload_head_def deserialize_payload_head_def
          HEAD_SIZE_def split: if_splits)
  qed
  moreover have "pp_command_flag p = as_u32 (tm_command msg)"
    using p(3) as_u32_try_from by (auto simp: command_of_def split: option.splits)
  ultimately show ?thesis
    using len fits p(1,2,4) payload
    by (intro exI [of _ "take HEAD_SIZE data"] exI [of _ "take ?h (drop HEAD_SIZE data)"]
        exI [of _ "drop (HEAD_SIZE + ?h + ?d) data"] exI [of _ p] conjI) simp_all
qed

lemma length_wf_packet: "wf_task_message m \<Longrightarrow> length (concat_pack m) < 2 ^ 31 + 11"
  using packet_protect_length [of m] by (simp add: length_concat_pack wf_task_message_def HDC_BUF_MAX_SIZE_def)

end
