(* ===== verification/Rust_Io.thy ===== *)
theory Rust_Io
  imports Hdc_Prelude
begin

text \<open>
  Input and output as state passing. An operation of type \<open>('s, 'a) io\<close> takes the state of the
  resource it works on and returns a result with the new state; \<open>io_bind\<close> is sequencing with
  \<open>?\<close>. The resources are the two halves of a TCP connection as \<open>tokio\<close> gives them to the
  program: a reader that delivers the stream in arbitrary segments, and a writer whose
  \<open>write_all\<close> may fail part-way. The locale \<open>byte_source\<close> states what a routine that reads an
  exact number of bytes promises, independently of the segments.
\<close>

section \<open>Sequencing\<close>

type_synonym ('s, 'a) io = "'s \<Rightarrow> 'a io_result \<times> 's"

definition io_return :: "'a \<Rightarrow> ('s, 'a) io" where
  "io_return x s = (Inr x, s)"

definition io_fail :: "io_error \<Rightarrow> ('s, 'a) io" where
  "io_fail e s = (Inl e, s)"

definition io_lift :: "'a io_result \<Rightarrow> ('s, 'a) io" where
  "io_lift r s = (r, s)"

definition io_bind :: "('s, 'a) io \<Rightarrow> ('a \<Rightarrow> ('s, 'b) io) \<Rightarrow> ('s, 'b) io" where
  "io_bind m f s = (case m s of (Inl e, s') \<Rightarrow> (Inl e, s') | (Inr x, s') \<Rightarrow> f x s')"

lemma io_simps [simp]:
  "io_return x s = (Inr x, s)" "io_fail e s = (Inl e, s)" "io_lift r s = (r, s)"
  by (simp_all add: io_return_def io_fail_def io_lift_def)

lemma io_bind_Inr: "m s = (Inr x, s') \<Longrightarrow> io_bind m f s = f x s'"
  by (simp add: io_bind_def)

lemma io_bind_Inl: "m s = (Inl e, s') \<Longrightarrow> io_bind m f s = (Inl e, s')"
  by (simp add: io_bind_def)

lemma io_bind_lift_Inr [simp]: "io_bind (io_lift (Inr x)) f s = f x s"
  by (simp add: io_bind_def)

lemma io_bind_eq_Inr:
  "io_bind m f s = (Inr y, s'') \<longleftrightarrow> (\<exists>x s'. m s = (Inr x, s') \<and> f x s' = (Inr y, s''))"
  by (auto simp: io_bind_def split: prod.splits sum.splits)

lemma take_drop_append [simp]: "take n xs @ drop n xs @ ys = xs @ ys"
  by (metis append.assoc append_take_drop_id)

text \<open>\<open>match operation { Err(e) => f(e), Ok(x) => g(x) }\<close>.\<close>

definition io_match :: "('s, 'a) io \<Rightarrow> (io_error \<Rightarrow> ('s, 'b) io) \<Rightarrow> ('a \<Rightarrow> ('s, 'b) io) \<Rightarrow> ('s, 'b) io" where
  "io_match m f g s = (case m s of (Inl e, s') \<Rightarrow> f e s' | (Inr x, s') \<Rightarrow> g x s')"

text \<open>Operations one after the other, up to the first error.\<close>

primrec io_all :: "('s, unit) io list \<Rightarrow> ('s, unit) io" where
  "io_all [] = io_return ()"
| "io_all (m # ms) = io_bind m (\<lambda>_. io_all ms)"

lemma io_all_append: "io_all (ms @ ns) s = io_bind (io_all ms) (\<lambda>_. io_all ns) s"
  by (induction ms arbitrary: s) (auto simp: io_bind_def split: prod.splits sum.splits)

section \<open>What an operation leaves alone\<close>

text \<open>\<open>keeps f m\<close>: the part \<open>f\<close> of the state is the same before and after \<open>m\<close>, whatever its result.\<close>

definition keeps :: "('s \<Rightarrow> 'b) \<Rightarrow> ('s, 'a) io \<Rightarrow> bool" where
  "keeps f m \<longleftrightarrow> (\<forall>s. f (snd (m s)) = f s)"

lemma keepsD: "keeps f m \<Longrightarrow> m s = (r, s') \<Longrightarrow> f s' = f s"
  by (metis keeps_def snd_conv)

lemma keepsI: "(\<And>s r s'. m s = (r, s') \<Longrightarrow> f s' = f s) \<Longrightarrow> keeps f m"
  by (metis keeps_def prod.collapse)

lemma keeps_basic [intro, simp]:
  "keeps f (io_return x)" "keeps f (io_fail e)" "keeps f (io_lift r)"
  by (simp_all add: keeps_def)

lemma keeps_match [intro]:
  assumes "keeps f m" "\<And>e. keeps f (g e)" "\<And>x. keeps f (h x)"
  shows "keeps f (io_match m g h)"
proof (rule keepsI)
  fix s r s' assume *: "io_match m g h s = (r, s')"
  obtain r1 s1 where m: "m s = (r1, s1)" by (cases "m s")
  have "f s1 = f s" using keepsD [OF assms(1) m] .
  moreover have "f s' = f s1"
    using * m keepsD [OF assms(2)] keepsD [OF assms(3)] by (cases r1) (auto simp: io_match_def)
  ultimately show "f s' = f s" by simp
qed

lemma io_bind_match: "io_bind m g = io_match m io_fail g"
  by (auto simp: io_bind_def io_match_def fun_eq_iff split: prod.splits sum.splits)

lemma keeps_bind [intro]: "keeps f m \<Longrightarrow> (\<And>x. keeps f (g x)) \<Longrightarrow> keeps f (io_bind m g)"
  by (auto simp: io_bind_match)

lemma keeps_case:
  "(x = None \<Longrightarrow> keeps f a) \<Longrightarrow> (\<And>y. x = Some y \<Longrightarrow> keeps f (b y)) \<Longrightarrow>
    keeps f (case x of None \<Rightarrow> a | Some y \<Rightarrow> b y)"
  "(\<And>e. z = Inl e \<Longrightarrow> keeps f (g e)) \<Longrightarrow> (\<And>y. z = Inr y \<Longrightarrow> keeps f (h y)) \<Longrightarrow>
    keeps f (case z of Inl e \<Rightarrow> g e | Inr y \<Rightarrow> h y)"
  "(P \<Longrightarrow> keeps f m) \<Longrightarrow> (\<not> P \<Longrightarrow> keeps f n) \<Longrightarrow> keeps f (if P then m else n)"
  "(\<And>u v. p = (u, v) \<Longrightarrow> keeps f (k u v)) \<Longrightarrow> keeps f (case p of (u, v) \<Rightarrow> k u v)"
  by (auto split: option.splits sum.splits prod.splits)

lemmas keeps_rules = keeps_bind keeps_match keeps_case

lemma keeps_all: "(\<And>m. m \<in> set ms \<Longrightarrow> keeps f m) \<Longrightarrow> keeps f (io_all ms)"
  by (induction ms) auto

text \<open>
  \<open>commutes g m\<close>: it does not matter whether the state is changed by \<open>g\<close> before or after \<open>m\<close>; \<open>m\<close>
  neither looks at nor touches what \<open>g\<close> changes.
\<close>

definition commutes :: "('s \<Rightarrow> 's) \<Rightarrow> ('s, 'a) io \<Rightarrow> bool" where
  "commutes g m \<longleftrightarrow> (\<forall>s. m (g s) = (fst (m s), g (snd (m s))))"

lemma commutesD: "commutes g m \<Longrightarrow> m s = (r, s') \<Longrightarrow> m (g s) = (r, g s')"
  by (simp add: commutes_def)

lemma commutesI: "(\<And>s r s'. m s = (r, s') \<Longrightarrow> m (g s) = (r, g s')) \<Longrightarrow> commutes g m"
  by (simp add: commutes_def)

lemma commutes_basic: "commutes g (io_return x)" "commutes g (io_fail e)" "commutes g (io_lift r)"
  by (simp_all add: commutes_def)

lemma commutes_match:
  assumes "commutes g m" "\<And>e. commutes g (f e)" "\<And>x. commutes g (h x)"
  shows "commutes g (io_match m f h)"
proof (rule commutesI)
  fix s r s' assume *: "io_match m f h s = (r, s')"
  obtain r1 s1 where m: "m s = (r1, s1)" by (cases "m s")
  then show "io_match m f h (g s) = (r, g s')"
    using * commutesD [OF assms(1) m] commutesD [OF assms(2)] commutesD [OF assms(3)]
    by (cases r1) (auto simp: io_match_def)
qed

lemma commutes_bind: "commutes g m \<Longrightarrow> (\<And>x. commutes g (h x)) \<Longrightarrow> commutes g (io_bind m h)"
  by (simp add: io_bind_match commutes_match commutes_basic)

lemma commutes_case:
  "(x = None \<Longrightarrow> commutes f a) \<Longrightarrow> (\<And>y. x = Some y \<Longrightarrow> commutes f (b y)) \<Longrightarrow>
    commutes f (case x of None \<Rightarrow> a | Some y \<Rightarrow> b y)"
  "(\<And>e. z = Inl e \<Longrightarrow> commutes f (g e)) \<Longrightarrow> (\<And>y. z = Inr y \<Longrightarrow> commutes f (h y)) \<Longrightarrow>
    commutes f (case z of Inl e \<Rightarrow> g e | Inr y \<Rightarrow> h y)"
  "(P \<Longrightarrow> commutes f m) \<Longrightarrow> (\<not> P \<Longrightarrow> commutes f n) \<Longrightarrow> commutes f (if P then m else n)"
  "(\<And>u v. p = (u, v) \<Longrightarrow> commutes f (k u v)) \<Longrightarrow> commutes f (case p of (u, v) \<Rightarrow> k u v)"
  by (auto split: option.splits sum.splits prod.splits)

lemmas commutes_rules = commutes_bind commutes_match commutes_case commutes_basic

section \<open>Repetition\<close>

text \<open>Run the same operation \<open>n\<close> times and collect the results.\<close>

primrec io_repeat :: "nat \<Rightarrow> ('s, 'a) io \<Rightarrow> ('s, 'a list) io" where
  "io_repeat 0 m = io_return []"
| "io_repeat (Suc n) m = io_bind m (\<lambda>x. io_bind (io_repeat n m) (\<lambda>xs. io_return (x # xs)))"

section \<open>The reading half of a TCP connection\<close>

datatype tcp_end = Eof | ReadFailed string

record tcp_in =
  in_segs :: "bytes list"
  in_end :: tcp_end

text \<open>
  \<open>rd.read(&mut buf)\<close> with a buffer of \<open>cap\<close> bytes: what has arrived, as far as it fits; the empty
  result at the end of the stream.
\<close>

definition tcp_read :: "nat \<Rightarrow> (tcp_in, bytes) io" where
  "tcp_read cap s =
    (case in_segs s of
       [] \<Rightarrow> (case in_end s of
               Eof \<Rightarrow> (Inr [], s)
             | ReadFailed m \<Rightarrow> (Inl (Error OtherKind m), s))
     | seg # rest \<Rightarrow>
         if length seg \<le> cap then (Inr seg, s\<lparr>in_segs := rest\<rparr>)
         else (Inr (take cap seg), s\<lparr>in_segs := drop cap seg # rest\<rparr>))"

definition in_contents :: "tcp_in \<Rightarrow> bytes" where
  "in_contents s = concat (in_segs s)"

definition in_ok :: "tcp_in \<Rightarrow> bool" where
  "in_ok s \<longleftrightarrow> [] \<notin> set (in_segs s)"

lemma tcp_read_some:
  assumes "in_ok s" "0 < cap" "in_contents s \<noteq> []"
  shows "\<exists>got s'. tcp_read cap s = (Inr got, s') \<and> got \<noteq> [] \<and> length got \<le> cap
    \<and> in_contents s = got @ in_contents s' \<and> in_ok s' \<and> in_end s' = in_end s"
proof -
  obtain seg rest where segs: "in_segs s = seg # rest" "seg \<noteq> []" "[] \<notin> set rest"
    using assms by (cases "in_segs s") (auto simp: in_ok_def in_contents_def)
  show ?thesis
  proof (cases "length seg \<le> cap")
    case True
    then show ?thesis
      using segs by (auto simp: tcp_read_def in_contents_def in_ok_def)
  next
    case False
    then have "drop cap seg \<noteq> []" "take cap seg \<noteq> []" using assms(2) segs by auto
    then show ?thesis
      using False segs by (auto simp: tcp_read_def in_contents_def in_ok_def)
  qed
qed

text \<open>
  The loop that fills a buffer of \<open>n\<close> bytes: read into what is left of it until it is full, an
  empty read or an error ends it. \<open>eof\<close> is the error for an empty read, \<open>wrap\<close> what is done to a
  read error.
\<close>

function fill_loop :: "(io_error \<Rightarrow> io_error) \<Rightarrow> io_error \<Rightarrow> bytes \<Rightarrow> nat \<Rightarrow> (tcp_in, bytes) io" where
  "fill_loop wrap eof data n s =
    (if length data < n then
       (case tcp_read (n - length data) s of
          (Inl e, s') \<Rightarrow> (Inl (wrap e), s')
        | (Inr got, s') \<Rightarrow>
            if got = [] then (Inl eof, s') else fill_loop wrap eof (data @ got) n s')
     else (Inr data, s))"
  by pat_completeness auto
termination
proof (relation "measure (\<lambda>(_, _, data, n, _). n - length data)")
qed (auto simp: neq_Nil_conv)

declare fill_loop.simps [simp del]

text \<open>\<open>AsyncReadExt::read_exact\<close>.\<close>

definition tcp_read_exact :: "nat \<Rightarrow> (tcp_in, bytes) io" where
  "tcp_read_exact n = fill_loop (\<lambda>e. e) (Error UnexpectedEof ''early eof'') [] n"

section \<open>Sources of bytes\<close>

locale byte_source =
  fixes get :: "nat \<Rightarrow> ('s, bytes) io"
    and contents :: "'s \<Rightarrow> bytes"
    and ok :: "'s \<Rightarrow> bool"
  assumes get_exact: "ok s \<Longrightarrow> contents s = xs @ ys \<Longrightarrow>
      \<exists>s'. get (length xs) s = (Inr xs, s') \<and> contents s' = ys \<and> ok s'"
    and get_short: "ok s \<Longrightarrow> length (contents s) < n \<Longrightarrow> \<exists>e s'. get n s = (Inl e, s')"
begin

lemma get_ok_iff: "ok s \<Longrightarrow> is_ok (fst (get n s)) \<longleftrightarrow> n \<le> length (contents s)"
proof (cases "n \<le> length (contents s)")
  case True
  assume "ok s"
  from get_exact [OF this, of "take n (contents s)" "drop n (contents s)"] True
  show ?thesis by auto
next
  case False
  assume "ok s"
  with get_short [of s n] False show ?thesis by auto
qed

text \<open>A four-byte big-endian length, then that many bytes.\<close>

lemma get_prefixed:
  assumes "ok s" "length xs < 2 ^ 32" "contents s = to_be 4 (of_nat (length xs) :: u32) @ xs @ ys"
  shows "\<exists>s'. io_bind (get 4) (\<lambda>l. get (unat (from_be l :: u32))) s = (Inr xs, s')
    \<and> contents s' = ys \<and> ok s'"
proof -
  obtain s1 where s1: "get 4 s = (Inr (to_be 4 (of_nat (length xs) :: u32)), s1)"
    "contents s1 = xs @ ys" "ok s1"
    using get_exact [OF assms(1,3)] by auto
  moreover have "unat (from_be (to_be 4 (of_nat (length xs) :: u32)) :: u32) = length xs"
    using assms(2) by (simp add: unat_of_nat)
  ultimately show ?thesis
    using get_exact [OF s1(3,2)] by (simp add: io_bind_Inr)
qed

text \<open>
  A message reader that takes one encoded message off the front of the contents takes any
  number of them.
\<close>

lemma repeat_messages:
  assumes "\<And>m s ys. m \<in> set ms \<Longrightarrow> ok s \<Longrightarrow> contents s = enc m @ ys \<Longrightarrow>
      \<exists>s'. recv s = (Inr m, s') \<and> contents s' = ys \<and> ok s'"
  shows "ok s \<Longrightarrow> contents s = concat (map enc ms) @ ys \<Longrightarrow>
    \<exists>s'. io_repeat (length ms) recv s = (Inr ms, s') \<and> contents s' = ys \<and> ok s'"
  using assms
proof (induction ms arbitrary: s)
  case (Cons m ms)
  then obtain s1 where s1: "recv s = (Inr m, s1)" "contents s1 = concat (map enc ms) @ ys" "ok s1"
    by (metis (no_types, lifting) append.assoc concat.simps(2) list.set_intros(1) list.simps(9))
  moreover obtain s2 where "io_repeat (length ms) recv s1 = (Inr ms, s2)" "contents s2 = ys" "ok s2"
    using Cons.IH [OF s1(3,2)] Cons.prems(3) by (meson list.set_intros(2))
  ultimately show ?case by (simp add: io_bind_Inr)
qed simp

end

lemma fill_loop_exact:
  "in_ok s \<Longrightarrow> in_contents s = xs @ ys \<Longrightarrow> n = length data + length xs \<Longrightarrow>
    \<exists>s'. fill_loop wrap eof data n s = (Inr (data @ xs), s') \<and> in_contents s' = ys \<and> in_ok s'"
proof (induction "length xs" arbitrary: data xs s rule: less_induct)
  case less
  show ?case
  proof (cases "xs = []")
    case True
    then show ?thesis using less by (subst fill_loop.simps) auto
  next
    case False
    with less obtain got s1 where got: "tcp_read (n - length data) s = (Inr got, s1)" "got \<noteq> []"
      "length got \<le> n - length data" "in_contents s = got @ in_contents s1" "in_ok s1"
      using tcp_read_some [of s "n - length data"] by auto
    then obtain xs' where xs': "xs = got @ xs'" "in_contents s1 = xs' @ ys"
      using less.prems by (auto simp: append_eq_append_conv2)
    then show ?thesis
      using less.hyps [of xs' s1 "data @ got"] less.prems got
      by (subst fill_loop.simps) auto
  qed
qed

text \<open>A stream that ends too early gives the error for its kind of end.\<close>

lemma fill_loop_short:
  "in_ok s \<Longrightarrow> length data + length (in_contents s) < n \<Longrightarrow>
    fst (fill_loop wrap eof data n s)
      = Inl (case in_end s of Eof \<Rightarrow> eof | ReadFailed m \<Rightarrow> wrap (Error OtherKind m))"
proof (induction "length (in_contents s)" arbitrary: data s rule: less_induct)
  case less
  show ?case
  proof (cases "in_contents s = []")
    case True
    then have "in_segs s = []"
      using less.prems(1) by (cases "in_segs s") (auto simp: in_contents_def in_ok_def)
    then show ?thesis
      using less.prems by (subst fill_loop.simps) (auto simp: tcp_read_def split: tcp_end.splits)
  next
    case False
    then obtain got s1 where "tcp_read (n - length data) s = (Inr got, s1)" "got \<noteq> []"
      "in_contents s = got @ in_contents s1" "in_ok s1" "in_end s1 = in_end s"
      using tcp_read_some [of s "n - length data"] less.prems by auto
    then show ?thesis
      using less.hyps [of s1 "data @ got"] less.prems by (subst fill_loop.simps) auto
  qed
qed

interpretation exact_source: byte_source tcp_read_exact in_contents in_ok
proof
  fix s xs ys assume "in_ok s" "in_contents s = xs @ ys"
  then show "\<exists>s'. tcp_read_exact (length xs) s = (Inr xs, s') \<and> in_contents s' = ys \<and> in_ok s'"
    using fill_loop_exact [of s xs ys "length xs" "[]"] by (simp add: tcp_read_exact_def)
next
  fix s n assume "in_ok s" "length (in_contents s) < n"
  then show "\<exists>e s'. tcp_read_exact n s = (Inl e, s')"
    using fill_loop_short [of s "[]" n] by (metis list.size(3) add_0 prod.collapse tcp_read_exact_def)
qed

section \<open>The writing half of a TCP connection\<close>

text \<open>
  \<open>out_faults\<close> has the outcome of the coming \<open>write_all\<close> calls: \<open>None\<close> for success, \<open>Some (k, e)\<close>
  for the error \<open>e\<close> after \<open>k\<close> bytes have gone out. Calls beyond the list succeed.
\<close>

record tcp_out =
  out_bytes :: bytes
  out_faults :: "(nat \<times> io_error) option list"

definition tcp_write_all :: "bytes \<Rightarrow> (tcp_out, unit) io" where
  "tcp_write_all data w =
    (case out_faults w of
       Some (k, e) # fs \<Rightarrow> (Inl e, w\<lparr>out_bytes := out_bytes w @ take k data, out_faults := fs\<rparr>)
     | fs \<Rightarrow> (Inr (), w\<lparr>out_bytes := out_bytes w @ data, out_faults := tl fs\<rparr>))"

lemma tcp_write_all_ok:
  "tcp_write_all data w = (Inr u, w') \<Longrightarrow> out_bytes w' = out_bytes w @ data"
  by (auto simp: tcp_write_all_def split: list.splits option.splits)

end
