(* ===== verification/Usb_Transport.thy ===== *)
theory Usb_Transport
  imports Packet Rust_Io
begin

text \<open>
  The USB transport of the host: the completion of a bulk transfer
  (\<open>AsyncUsbConnection\<close> of \<open>hdc/src/usb.rs\<close>) and the message layer on top of it
  (\<open>hdc/src/transfer/usb.rs\<close>). The device side of the bus is a list of events: the transfers it
  makes, and the transfer statuses that libusb reports otherwise. A transfer that does not fit
  the buffer of the read completes with libusb's overflow status; when the list is used up the
  device is gone.
\<close>

section \<open>Bulk transfers\<close>

datatype usb_event = Bulk bytes | UsbStatus int

record usb_conn =
  usb_events :: "usb_event list"
  usb_sent :: "bytes list"
  usb_write_status :: "int list"

text \<open>\<open>transfer_callback\<close>: the result that a completed transfer sends to its waiter.\<close>

definition show_int :: "int \<Rightarrow> string" where
  "show_int k = (if k < 0 then CHR ''-'' # show_nat (nat (- k)) else show_nat (nat k))"

definition transfer_result :: "int \<Rightarrow> 'a \<Rightarrow> 'a io_result" where
  "transfer_result status actual =
    (if status = 0 then Inr actual
     else if status = 2 then Inl (Error TimedOut ''USB transfer timed out'')
     else if status = 3 then Inl (Error Interrupted ''USB transfer cancelled'')
     else if status = 4 then Inl (Error OtherKind ''USB transfer stalled'')
     else if status = 5 then Inl (Error NotConnected ''USB device disconnected'')
     else if status = 6 then Inl (Error OtherKind ''USB transfer overflow'')
     else Inl (Error OtherKind (''USB transfer failed: status='' @ show_int status)))"

definition read_bulk :: "nat \<Rightarrow> (usb_conn, bytes) io" where
  "read_bulk cap u =
    (case usb_events u of
       [] \<Rightarrow> (transfer_result 5 [], u)
     | Bulk data # rest \<Rightarrow>
         (transfer_result (if length data \<le> cap then 0 else 6) data, u\<lparr>usb_events := rest\<rparr>)
     | UsbStatus k # rest \<Rightarrow> (transfer_result k [], u\<lparr>usb_events := rest\<rparr>))"

text \<open>
  \<open>write_bulk\<close>: \<open>usb_write_status\<close> has the statuses of the coming writes; writes beyond the list
  complete. The caller does not look at the transferred length.
\<close>

definition write_bulk :: "bytes \<Rightarrow> (usb_conn, unit) io" where
  "write_bulk data u =
    (case usb_write_status u of
       [] \<Rightarrow> (Inr (), u\<lparr>usb_sent := usb_sent u @ [data]\<rparr>)
     | k # ks \<Rightarrow>
         (transfer_result k (),
          u\<lparr>usb_sent := (if k = 0 then usb_sent u @ [data] else usb_sent u), usb_write_status := ks\<rparr>))"

section \<open>Message layer\<close>

function read_exact_loop :: "bytes \<Rightarrow> nat \<Rightarrow> (usb_conn, bytes) io" where
  "read_exact_loop data expected_size u =
    (if length data < expected_size then
       (case read_bulk (expected_size - length data) u of
          (Inl e, u') \<Rightarrow> (Inl e, u')
        | (Inr got, u') \<Rightarrow>
            if got = [] then (Inl (Error ConnectionAborted ''USB peer shutdown''), u')
            else read_exact_loop (data @ got) expected_size u')
     else (Inr data, u))"
  by pat_completeness auto
termination
proof (relation "measure (\<lambda>(data, n, _). n - length data)")
qed (auto simp: neq_Nil_conv)

declare read_exact_loop.simps [simp del]

definition read_exact_from_usb :: "nat \<Rightarrow> (usb_conn, bytes) io" where
  "read_exact_from_usb expected_size =
    (if expected_size = 0 then io_return [] else read_exact_loop [] expected_size)"

definition read_usb_drop :: "nat \<Rightarrow> (usb_conn, nat) io" where
  "read_usb_drop buf_size = io_bind (read_bulk buf_size) (\<lambda>got. io_return (length got))"

definition USB_OPTION_RESET :: u8 where "USB_OPTION_RESET = 2"

definition build_usb_header :: "u32 \<Rightarrow> u8 \<Rightarrow> u32 \<Rightarrow> bytes" where
  "build_usb_header session_id option data_size =
    serialize_usb_head \<lparr>uh_flag = (USB_PACKET_FLAG ! 0, USB_PACKET_FLAG ! 1), uh_option = option,
      uh_session_id = session_id, uh_data_size = data_size\<rparr>"

definition send_usb_soft_reset :: "u32 \<Rightarrow> (usb_conn, unit) io" where
  "send_usb_soft_reset session_id = write_bulk (build_usb_header session_id USB_OPTION_RESET 0)"

text \<open>
  \<open>send_usb_raw\<close> takes a remainder by the packet size; a packet size of zero makes it panic after
  the payload has been written, which is the outer \<open>None\<close>.
\<close>

definition send_usb_raw :: "u32 \<Rightarrow> bytes \<Rightarrow> u16 \<Rightarrow> usb_conn \<Rightarrow> (unit io_result \<times> usb_conn) option" where
  "send_usb_raw session_id payload max_packet_size u =
    (let payload_len = length payload;
         header = build_usb_header session_id USB_OPTION_HEADER (of_nat payload_len) in
     case io_bind (write_bulk header)
            (\<lambda>_. if payload \<noteq> [] then write_bulk payload else io_return ()) u of
       (Inl e, u') \<Rightarrow> Some (Inl e, u')
     | (Inr _, u') \<Rightarrow>
         if 0 < payload_len \<and> max_packet_size = 0 then None
         else if 0 < payload_len \<and> payload_len mod unat max_packet_size = 0
         then Some (write_bulk (build_usb_header session_id 0 0) u')
         else Some (Inr (), u'))"

definition send_usb_message :: "u32 \<Rightarrow> task_message \<Rightarrow> u16 \<Rightarrow> usb_conn \<Rightarrow> (unit io_result \<times> usb_conn) option" where
  "send_usb_message session_id msg max_packet_size =
    send_usb_raw session_id (concat_pack msg) max_packet_size"

text \<open>The parsing half of \<open>recv_usb_message\<close>, on the payload it has read.\<close>

definition parse_usb_payload :: "bytes \<Rightarrow> task_message io_result" where
  "parse_usb_payload payload_data =
    (if length payload_data < HEAD_SIZE
     then Inl (Error InvalidData ''payload too short for head'')
     else and_then (unpack_payload_head (take HEAD_SIZE payload_data)) (\<lambda>payload_head.
       let hsz = unat (ph_head_size payload_head); dsz = unat (ph_data_size payload_head) in
       if length payload_data < HEAD_SIZE + hsz + dsz
       then Inl (Error InvalidData ''incomplete payload'')
       else and_then (unpack_payload_protect (take hsz (drop HEAD_SIZE payload_data))) (\<lambda>p.
         and_then (command_of p) (\<lambda>command.
           Inr \<lparr>tm_channel_id = pp_channel_id p, tm_command = command,
                tm_payload = take dsz (drop (HEAD_SIZE + hsz) payload_data)\<rparr>))))"

definition recv_usb_message :: "(usb_conn, u32 \<times> task_message) io" where
  "recv_usb_message =
    io_bind (read_exact_from_usb USB_HEAD_SIZE) (\<lambda>head_data.
    io_bind (io_lift (deserialize_usb_head head_data)) (\<lambda>usb_head.
    let data_size = unat (uh_data_size usb_head); option = uh_option usb_head in
    if data_size = 0 then io_fail (Error InvalidData ''USB nop/reset packet'')
    else if option AND USB_OPTION_HEADER = 0
    then io_fail (Error InvalidData (''USB packet without HEADER option: '' @ show_nat (unat option)))
    else if HDC_BUF_MAX_SIZE < data_size
    then io_fail (Error InvalidData ''USB payload too large'')
    else
      io_bind (read_exact_from_usb data_size) (\<lambda>payload_data.
      io_bind (io_lift (parse_usb_payload payload_data)) (\<lambda>msg.
      io_return (uh_session_id usb_head, msg)))))"

section \<open>Reading transfers\<close>

text \<open>
  Transfers that together make up exactly the expected bytes are read as one block, however the
  device splits them.
\<close>

lemma read_exact_loop_chunks:
  assumes "usb_events u = map Bulk chunks @ evs" "[] \<notin> set chunks"
    and "n = length data + length (concat chunks)"
  shows "read_exact_loop data n u = (Inr (data @ concat chunks), u\<lparr>usb_events := evs\<rparr>)"
  using assms
proof (induction chunks arbitrary: data u)
  case Nil
  then show ?case by (subst read_exact_loop.simps) simp
next
  case (Cons ch chunks)
  let ?u = "u\<lparr>usb_events := map Bulk chunks @ evs\<rparr>"
  have "read_exact_loop (data @ ch) n ?u
      = (Inr ((data @ ch) @ concat chunks), ?u\<lparr>usb_events := evs\<rparr>)"
    using Cons.prems by (intro Cons.IH) auto
  then show ?case
    using Cons.prems by (subst read_exact_loop.simps) (auto simp: read_bulk_def transfer_result_def)
qed

lemma read_exact_from_usb_chunks:
  assumes "usb_events u = map Bulk chunks @ evs" "[] \<notin> set chunks"
  shows "read_exact_from_usb (length (concat chunks)) u = (Inr (concat chunks), u\<lparr>usb_events := evs\<rparr>)"
proof (cases "concat chunks = []")
  case True
  then have "chunks = []" using assms(2) by (cases chunks) auto
  then show ?thesis using assms(1) by (simp add: read_exact_from_usb_def)
next
  case False
  then show ?thesis
    using read_exact_loop_chunks [OF assms, of _ "[]"] by (auto simp: read_exact_from_usb_def)
qed

section \<open>Messages\<close>

lemma parse_usb_payload_packet:
  assumes "wf_task_message msg"
  shows "parse_usb_payload (concat_pack msg) = Inr msg"
proof -
  let ?p = "serialize_payload_protect (packet_protect msg)"
  have "unpack_payload_head (take HEAD_SIZE (concat_pack msg)) = Inr (packet_head msg)"
    using unpack_payload_head_packet [of msg "[]"] by (simp add: concat_pack_parts HEAD_SIZE_def)
  moreover have "take (length ?p) (drop HEAD_SIZE (concat_pack msg)) = ?p"
    "take (length (tm_payload msg)) (drop (HEAD_SIZE + length ?p) (concat_pack msg)) = tm_payload msg"
    by (simp_all add: concat_pack_parts HEAD_SIZE_def)
  ultimately show ?thesis
    by (simp add: parse_usb_payload_def Let_def packet_head_sizes [OF assms]
        unpack_payload_protect_packet length_concat_pack HEAD_SIZE_def)
qed

lemma length_build_usb_header [simp]: "length (build_usb_header sid opt n) = 11"
  by (simp add: build_usb_header_def)

text \<open>
  The host reads a message that arrives as one header transfer followed by any split of the
  packet, and gets the session and the message.
\<close>

lemma recv_usb_message_ok:
  assumes "wf_task_message msg" "length (concat_pack msg) \<le> HDC_BUF_MAX_SIZE"
    and "usb_events u = Bulk (build_usb_header sid USB_OPTION_HEADER (of_nat (length (concat_pack msg))))
           # map Bulk chunks @ evs"
    and "concat chunks = concat_pack msg" "[] \<notin> set chunks"
  shows "recv_usb_message u = (Inr (sid, msg), u\<lparr>usb_events := evs\<rparr>)"
proof -
  let ?h = "build_usb_header sid USB_OPTION_HEADER (of_nat (length (concat_pack msg)))"
  let ?u = "u\<lparr>usb_events := map Bulk chunks @ evs\<rparr>"
  have "read_exact_from_usb USB_HEAD_SIZE u = (Inr ?h, ?u)"
    using read_exact_from_usb_chunks [of u "[?h]" "map Bulk chunks @ evs"] assms(3)
    by (simp add: USB_HEAD_SIZE_def) (metis length_0_conv length_build_usb_header zero_neq_numeral)
  moreover have "read_exact_from_usb (length (concat_pack msg)) ?u
      = (Inr (concat_pack msg), u\<lparr>usb_events := evs\<rparr>)"
    using read_exact_from_usb_chunks [of ?u chunks evs] assms(4,5) by simp
  moreover have "unat (of_nat (length (concat_pack msg)) :: u32) = length (concat_pack msg)"
    using assms(2) by (simp add: HDC_BUF_MAX_SIZE_def unat_of_nat)
  moreover have "deserialize_usb_head ?h = Inr \<lparr>uh_flag = (USB_PACKET_FLAG ! 0, USB_PACKET_FLAG ! 1),
      uh_option = USB_OPTION_HEADER, uh_session_id = sid, uh_data_size = of_nat (length (concat_pack msg))\<rparr>"
    unfolding build_usb_header_def by (rule uh_codec.round_trip) simp
  moreover have "length (concat_pack msg) \<noteq> 0" by (simp add: length_concat_pack)
  ultimately show ?thesis
    using assms(2) parse_usb_payload_packet [OF assms(1)]
    by (simp add: recv_usb_message_def io_bind_def USB_OPTION_HEADER_def Let_def)
qed

text \<open>The transfers that \<open>send_usb_raw\<close> makes when no write fails.\<close>

lemma send_usb_raw_transfers:
  assumes "usb_write_status u = []" "max_packet_size \<noteq> 0"
  shows "send_usb_raw sid payload max_packet_size u = Some (Inr (), u\<lparr>usb_sent := usb_sent u
    @ [build_usb_header sid USB_OPTION_HEADER (of_nat (length payload))]
    @ (if payload = [] then [] else [payload])
    @ (if payload \<noteq> [] \<and> length payload mod unat max_packet_size = 0
       then [build_usb_header sid 0 0] else [])\<rparr>)"
  using assms by (auto simp: send_usb_raw_def write_bulk_def io_bind_def Let_def)

lemma recv_usb_dummy:
  assumes "usb_events u = Bulk (build_usb_header sid opt 0) # evs"
  shows "recv_usb_message u = (Inl (Error InvalidData ''USB nop/reset packet''), u\<lparr>usb_events := evs\<rparr>)"
proof -
  have "read_exact_from_usb USB_HEAD_SIZE u = (Inr (build_usb_header sid opt 0), u\<lparr>usb_events := evs\<rparr>)"
    using read_exact_from_usb_chunks [of u "[build_usb_header sid opt 0]" evs] assms
    by (simp add: USB_HEAD_SIZE_def) (metis length_0_conv length_build_usb_header zero_neq_numeral)
  moreover have "deserialize_usb_head (build_usb_header sid opt 0)
      = Inr \<lparr>uh_flag = (USB_PACKET_FLAG ! 0, USB_PACKET_FLAG ! 1), uh_option = opt,
          uh_session_id = sid, uh_data_size = 0\<rparr>"
    unfolding build_usb_header_def by (rule uh_codec.round_trip) simp
  ultimately show ?thesis by (simp add: recv_usb_message_def io_bind_def)
qed

end
