(* ===== verification/Rust_Text.thy ===== *)
theory Rust_Text
  imports Rust_Str
begin

text \<open>
  More of Rust's \<open>str\<close>: trimming by the Unicode white-space property, splitting at white space,
  trimming of given characters, slicing at byte positions (which panics inside a character), and
  the left-aligned padding of \<open>format!\<close>.
\<close>

section \<open>Trimming\<close>

text \<open>The UTF-8 encodings of the white-space characters.\<close>

definition ws_encodings :: "string list" where
  "ws_encodings = [
    [CHR 0x09], [CHR 0x0A], [CHR 0x0B], [CHR 0x0C], [CHR 0x0D], [CHR 0x20],
    [CHR 0xC2, CHR 0x85], [CHR 0xC2, CHR 0xA0], [CHR 0xE1, CHR 0x9A, CHR 0x80],
    [CHR 0xE2, CHR 0x80, CHR 0x80], [CHR 0xE2, CHR 0x80, CHR 0x81],
    [CHR 0xE2, CHR 0x80, CHR 0x82], [CHR 0xE2, CHR 0x80, CHR 0x83],
    [CHR 0xE2, CHR 0x80, CHR 0x84], [CHR 0xE2, CHR 0x80, CHR 0x85],
    [CHR 0xE2, CHR 0x80, CHR 0x86], [CHR 0xE2, CHR 0x80, CHR 0x87],
    [CHR 0xE2, CHR 0x80, CHR 0x88], [CHR 0xE2, CHR 0x80, CHR 0x89],
    [CHR 0xE2, CHR 0x80, CHR 0x8A], [CHR 0xE2, CHR 0x80, CHR 0xA8],
    [CHR 0xE2, CHR 0x80, CHR 0xA9], [CHR 0xE2, CHR 0x80, CHR 0xAF],
    [CHR 0xE2, CHR 0x81, CHR 0x9F], [CHR 0xE3, CHR 0x80, CHR 0x80]]"

function trim_pats :: "string list \<Rightarrow> string \<Rightarrow> string" where
  "trim_pats pats s =
    (case find (\<lambda>p. p \<noteq> [] \<and> prefix p s) pats of
       None \<Rightarrow> s
     | Some p \<Rightarrow> trim_pats pats (drop (length p) s))"
  by pat_completeness auto
termination
  by (relation "measure (\<lambda>(_, s). length s)") (auto simp: find_Some_iff prefix_def)

declare trim_pats.simps [simp del]

definition trim_start :: "string \<Rightarrow> string" where
  "trim_start s = trim_pats ws_encodings s"

definition trim_end :: "string \<Rightarrow> string" where
  "trim_end s = rev (trim_pats (map rev ws_encodings) (rev s))"

definition trim :: "string \<Rightarrow> string" where
  "trim s = trim_start (trim_end s)"

text \<open>\<open>trim_end_matches\<close> and \<open>trim_start_matches\<close> for a predicate on one-byte characters.\<close>

definition trim_end_matches :: "(char \<Rightarrow> bool) \<Rightarrow> string \<Rightarrow> string" where
  "trim_end_matches P s = rev (dropWhile P (rev s))"

definition trim_start_matches :: "(char \<Rightarrow> bool) \<Rightarrow> string \<Rightarrow> string" where
  "trim_start_matches P s = dropWhile P s"

definition to_ascii_lowercase :: "string \<Rightarrow> string" where
  "to_ascii_lowercase = map (\<lambda>c. let n = of_char c :: nat in if 65 \<le> n \<and> n \<le> 90 then char_of (n + 32) else c)"

text \<open>\<open>split_whitespace\<close>: the maximal runs of other characters.\<close>

definition starts_ws :: "string \<Rightarrow> bool" where
  "starts_ws s \<longleftrightarrow> (\<exists>p \<in> set ws_encodings. prefix p s)"

fun take_word :: "string \<Rightarrow> string \<times> string" where
  "take_word [] = ([], [])"
| "take_word (c # cs) =
    (if starts_ws (c # cs) then ([], c # cs)
     else (let (w, rest) = take_word cs in (c # w, rest)))"

lemma take_word_length: "length (snd (take_word s)) \<le> length s"
  by (induction s) (auto simp: Let_def split: prod.splits)

lemma trim_pats_length: "length (trim_pats pats s) \<le> length s"
proof (induction pats s rule: trim_pats.induct)
  case (1 pats s)
  then show ?case
    by (cases "find (\<lambda>p. p \<noteq> [] \<and> prefix p s) pats")
      (auto simp: trim_pats.simps [of pats s] intro: order_trans)
qed

function split_whitespace :: "string \<Rightarrow> string list" where
  "split_whitespace s =
    (case trim_start s of
       [] \<Rightarrow> []
     | c # cs \<Rightarrow> (c # fst (take_word cs)) # split_whitespace (snd (take_word cs)))"
  by pat_completeness auto
termination
proof (relation "measure length")
  fix s c cs
  assume "trim_start s = c # cs"
  moreover have "length (trim_start s) \<le> length s"
    unfolding trim_start_def by (rule trim_pats_length)
  ultimately show "(snd (take_word cs), s) \<in> measure length"
    using take_word_length [of cs] by simp
qed simp

declare split_whitespace.simps [simp del]

section \<open>Padding and slicing\<close>

definition is_cont_char :: "char \<Rightarrow> bool" where
  "is_cont_char c \<longleftrightarrow> digit7 c \<and> \<not> digit6 c"

text \<open>\<open>{:<n}\<close> pads with spaces up to \<open>n\<close> characters.\<close>

definition char_count :: "string \<Rightarrow> nat" where
  "char_count s = length (filter (\<lambda>c. \<not> is_cont_char c) s)"

definition pad_right :: "nat \<Rightarrow> string \<Rightarrow> string" where
  "pad_right n s = s @ replicate (n - char_count s) CHR '' ''"

definition is_char_boundary :: "nat \<Rightarrow> string \<Rightarrow> bool" where
  "is_char_boundary i s \<longleftrightarrow> i = length s \<or> i < length s \<and> \<not> is_cont_char (s ! i)"

text \<open>\<open>&s[i..j]\<close>: a panic when an end is out of range or inside a character.\<close>

definition str_slice :: "nat \<Rightarrow> nat \<Rightarrow> string \<Rightarrow> string option" where
  "str_slice i j s =
    (if i \<le> j \<and> is_char_boundary i s \<and> is_char_boundary j s then Some (take (j - i) (drop i s))
     else None)"

section \<open>Facts\<close>

lemma trim_pats_done:
  "(\<And>p. p \<in> set pats \<Longrightarrow> p \<noteq> [] \<Longrightarrow> \<not> prefix p s) \<Longrightarrow> trim_pats pats s = s"
  by (subst trim_pats.simps) (auto split: option.splits simp: find_Some_iff)

lemma space_ws: "'' '' \<in> set ws_encodings"
  by (simp add: ws_encodings_def)

text \<open>A string that does not end in white space is what is left of its padded form.\<close>

definition ends_ws :: "string \<Rightarrow> bool" where
  "ends_ws s \<longleftrightarrow> (\<exists>p \<in> set ws_encodings. suffix p s)"

lemma ws_first_byte:
  assumes "p \<in> set ws_encodings" "prefix p (CHR '' '' # s) \<or> prefix (rev p) (CHR '' '' # s)"
  shows "p = '' ''"
  using assms by (auto simp: ws_encodings_def)

lemma find_exists: "x \<in> set xs \<Longrightarrow> P x \<Longrightarrow> \<exists>y. find P xs = Some y \<and> y \<in> set xs \<and> P y"
  by (induction xs) auto

lemma trim_end_pad:
  assumes "\<not> ends_ws s"
  shows "trim_end (s @ replicate k CHR '' '') = s"
proof -
  have "trim_pats (map rev ws_encodings) (replicate k CHR '' '' @ rev s) = rev s"
  proof (induction k)
    case 0
    have "\<not> prefix p (rev s)" if "p \<in> set (map rev ws_encodings)" for p
      using assms that by (auto simp: ends_ws_def suffix_to_prefix)
    then have "trim_pats (map rev ws_encodings) (rev s) = rev s"
      by (intro trim_pats_done) auto
    then show ?case by simp
  next
    case (Suc k)
    let ?s = "CHR '' '' # replicate k CHR '' '' @ rev s"
    have "find (\<lambda>p. p \<noteq> [] \<and> prefix p ?s) (map rev ws_encodings) = Some '' ''"
    proof -
      have "'' '' \<in> set (map rev ws_encodings)" by (simp add: ws_encodings_def)
      then obtain p where p: "find (\<lambda>p. p \<noteq> [] \<and> prefix p ?s) (map rev ws_encodings) = Some p"
        "p \<in> set (map rev ws_encodings)" "prefix p ?s"
        using find_exists [of "'' ''" "map rev ws_encodings" "\<lambda>p. p \<noteq> [] \<and> prefix p ?s"]
        by (auto simp del: set_map)
      have "rev p = '' ''"
        using p(2,3) by (intro ws_first_byte [of _ "replicate k CHR '' '' @ rev s"]) auto
      then show ?thesis using p(1) by (simp add: rev_swap)
    qed
    then show ?case using Suc by (subst trim_pats.simps) simp
  qed
  then show ?thesis by (simp add: trim_end_def)
qed

lemma ascii_no_cont: "is_ascii s \<Longrightarrow> c \<in> set s \<Longrightarrow> \<not> is_cont_char c"
  by (auto simp: is_ascii_def list_all_iff is_cont_char_def)

lemma char_count_ascii: "is_ascii s \<Longrightarrow> char_count s = length s"
  unfolding char_count_def using ascii_no_cont by (metis filter_True)

lemma digit_ascii: "d < 10 \<Longrightarrow> is_ascii [digit d]"
  by (simp add: is_ascii_def digit_def flip: of_char_less_128)

lemma show_nat_ascii: "is_ascii (show_nat n)"
proof (induction n rule: show_nat.induct)
  case (1 n)
  then show ?case
    using digit_ascii [of n] digit_ascii [of "n mod 10"]
    by (cases "n < 10") (auto simp: show_nat.simps [of n] is_ascii_def)
qed

section \<open>Parsing numbers with the error text\<close>

text \<open>
  \<open>str::parse\<close> for an unsigned type, with the \<open>Display\<close> of its \<open>ParseIntError\<close>: the digits are
  consumed from the left, and the first character that is no digit or exceeds the largest value
  \<open>m\<close> decides on the error.
\<close>

primrec parse_steps :: "nat \<Rightarrow> nat \<Rightarrow> string \<Rightarrow> string + nat" where
  "parse_steps m acc [] = Inr acc"
| "parse_steps m acc (c # cs) =
    (case digit_val c of
       None \<Rightarrow> Inl ''invalid digit found in string''
     | Some d \<Rightarrow>
         if m < acc * 10 + d then Inl ''number too large to fit in target type''
         else parse_steps m (acc * 10 + d) cs)"

definition parse_uint_res :: "nat \<Rightarrow> string \<Rightarrow> string + nat" where
  "parse_uint_res m s =
    (if s = [] then Inl ''cannot parse integer from empty string''
     else if s = ''+'' \<or> s = ''-'' then Inl ''invalid digit found in string''
     else parse_steps m 0 (if hd s = CHR ''+'' then tl s else s))"

lemma parse_digits_ge: "parse_digits acc cs = Some n \<Longrightarrow> acc \<le> n"
  by (induction cs arbitrary: acc) (fastforce split: option.splits)+

lemma parse_steps_digits:
  "acc \<le> m \<Longrightarrow> res_ok (parse_steps m acc cs) =
    (case parse_digits acc cs of None \<Rightarrow> None | Some n \<Rightarrow> if n \<le> m then Some n else None)"
proof (induction cs arbitrary: acc)
  case (Cons c cs)
  show ?case
  proof (cases "digit_val c")
    case (Some d)
    then show ?thesis
      using Cons parse_digits_ge [of "acc * 10 + d" cs] by (auto split: option.splits)
  qed simp
qed simp

text \<open>Both views of parsing agree.\<close>

lemma parse_uint_res_ok: "res_ok (parse_uint_res m s) = parse_uint m s"
proof -
  have "digit_val CHR ''-'' = None" by (simp add: digit_val_def)
  then show ?thesis
    by (cases s) (auto simp: parse_uint_res_def parse_uint_def parse_steps_digits simp del: parse_steps.simps)
qed

lemma parse_uint_res_Inr [simp]: "parse_uint_res m s = Inr n \<longleftrightarrow> parse_uint m s = Some n"
  using parse_uint_res_ok [of m s] by (cases "parse_uint_res m s") auto

lemma parse_uint_res_show_nat: "n \<le> m \<Longrightarrow> parse_uint_res m (show_nat n) = Inr n"
  by simp

lemma length_show_nat: "n < 10 ^ k \<Longrightarrow> 0 < k \<Longrightarrow> length (show_nat n) \<le> k"
proof (induction n arbitrary: k rule: show_nat.induct)
  case (1 n)
  show ?case
  proof (cases "n < 10")
    case True
    then show ?thesis using 1(3) by (simp add: show_nat.simps [of n])
  next
    case False
    then obtain j where j: "k = Suc j" "0 < j"
      using 1(2,3) by (cases k; cases "k - 1") auto
    then have "n div 10 < 10 ^ j" using 1(2) by auto
    then show ?thesis using 1(1) [OF False _ j(2)] False j by (simp add: show_nat.simps [of n])
  qed
qed

lemma ascii_slice: "is_ascii s \<Longrightarrow> i \<le> j \<Longrightarrow> j \<le> length s \<Longrightarrow> str_slice i j s \<noteq> None"
  by (auto simp: str_slice_def is_char_boundary_def ascii_no_cont)

end
