(* ===== verification/Rust_Net.thy ===== *)
theory Rust_Net
  imports Rust_Text
begin


text \<open>
  Parsing and printing of network addresses by the standard library (\<open>std::net\<close>), as the host uses
  them for listen addresses: IPv4 and IPv6 addresses and socket addresses. A reader takes a text and
  gives a value and the unread rest, or \<open>None\<close>. The main lemma says that a reader is not disturbed
  by what follows its input when that starts with a character outside the grammar.
\<close>

section \<open>Readers\<close>

definition hex_alpha :: "char \<Rightarrow> nat option" where
  "hex_alpha c = (let n = of_char c in
     if 97 \<le> n \<and> n \<le> 102 then Some (n - 87) else if 65 \<le> n \<and> n \<le> 70 then Some (n - 55) else None)"

text \<open>\<open>char::to_digit\<close> for the bases 10 and 16.\<close>

definition radix_digit :: "nat \<Rightarrow> char \<Rightarrow> nat option" where
  "radix_digit r c = (case digit_val c of Some d \<Rightarrow> Some d | None \<Rightarrow> if r = 16 then hex_alpha c else None)"

definition digits_value :: "nat \<Rightarrow> string \<Rightarrow> nat" where
  "digits_value r ds = foldl (\<lambda>v c. v * r + the (radix_digit r c)) 0 ds"

definition read_number :: "nat \<Rightarrow> nat option \<Rightarrow> bool \<Rightarrow> nat \<Rightarrow> string \<Rightarrow> (nat \<times> string) option" where
  "read_number r max_digits zero_prefix limit s =
    (let ds = takeWhile (\<lambda>c. radix_digit r c \<noteq> None) s in
     if ds = [] \<or> (case max_digits of None \<Rightarrow> False | Some k \<Rightarrow> k < length ds)
        \<or> \<not> zero_prefix \<and> hd s = CHR ''0'' \<and> 1 < length ds \<or> limit < digits_value r ds
     then None else Some (digits_value r ds, drop (length ds) s))"

definition read_given :: "char \<Rightarrow> string \<Rightarrow> string option" where
  "read_given c s = (case s of [] \<Rightarrow> None | x # xs \<Rightarrow> if x = c then Some xs else None)"

definition read_octet :: "string \<Rightarrow> (nat \<times> string) option" where
  "read_octet = read_number 10 (Some 3) False 255"

type_synonym ipv4 = "nat \<times> nat \<times> nat \<times> nat"

definition read_ipv4_addr :: "string \<Rightarrow> (ipv4 \<times> string) option" where
  "read_ipv4_addr s =
    Option.bind (read_octet s) (\<lambda>(a, s). Option.bind (read_given CHR ''.'' s) (\<lambda>s.
    Option.bind (read_octet s) (\<lambda>(b, s). Option.bind (read_given CHR ''.'' s) (\<lambda>s.
    Option.bind (read_octet s) (\<lambda>(c, s). Option.bind (read_given CHR ''.'' s) (\<lambda>s.
    Option.bind (read_octet s) (\<lambda>(d, s). Some ((a, b, c, d), s))))))))"

definition read_separator :: "nat \<Rightarrow> string \<Rightarrow> string option" where
  "read_separator i s = (if 0 < i then read_given CHR '':'' s else Some s)"

text \<open>
  The groups of an IPv6 address: at most \<open>n\<close> of them from index \<open>i\<close> of \<open>limit\<close>; an IPv4 address may
  end them when two places are left. The flag tells whether it did.
\<close>

primrec read_groups :: "nat \<Rightarrow> nat \<Rightarrow> nat \<Rightarrow> string \<Rightarrow> nat list \<times> bool \<times> string" where
  "read_groups limit i 0 s = ([], False, s)"
| "read_groups limit i (Suc n) s =
    (case (if i < limit - 1 then Option.bind (read_separator i s) read_ipv4_addr else None) of
       Some ((a, b, c, d), s') \<Rightarrow> ([a * 256 + b, c * 256 + d], True, s')
     | None \<Rightarrow>
         (case Option.bind (read_separator i s) (read_number 16 (Some 4) True 65535) of
            None \<Rightarrow> ([], False, s)
          | Some (g, s') \<Rightarrow> (case read_groups limit (Suc i) n s' of (gs, v4, r) \<Rightarrow> (g # gs, v4, r))))"

definition read_ipv6_addr :: "string \<Rightarrow> (nat list \<times> string) option" where
  "read_ipv6_addr s =
    (case read_groups 8 0 8 s of (head, head_ipv4, s1) \<Rightarrow>
     if length head = 8 then Some (head, s1)
     else if head_ipv4 then None
     else Option.bind (read_given CHR '':'' s1) (\<lambda>s2.
          Option.bind (read_given CHR '':'' s2) (\<lambda>s3.
          let limit = 8 - (length head + 1) in
          case read_groups limit 0 limit s3 of (tail, _, s4) \<Rightarrow>
            Some (head @ replicate (8 - length head - length tail) 0 @ tail, s4))))"

datatype ip_addr = V4 ipv4 | V6 "nat list"

definition read_ip_addr :: "string \<Rightarrow> (ip_addr \<times> string) option" where
  "read_ip_addr s =
    (case read_ipv4_addr s of
       Some (a, r) \<Rightarrow> Some (V4 a, r)
     | None \<Rightarrow> map_option (\<lambda>(g, r). (V6 g, r)) (read_ipv6_addr s))"

definition read_port :: "string \<Rightarrow> (nat \<times> string) option" where
  "read_port s = Option.bind (read_given CHR '':'' s) (read_number 10 None True 65535)"

definition read_socket_addr_v4 :: "string \<Rightarrow> ((ipv4 \<times> nat) \<times> string) option" where
  "read_socket_addr_v4 s =
    Option.bind (read_ipv4_addr s) (\<lambda>(ip, s). Option.bind (read_port s) (\<lambda>(port, s). Some ((ip, port), s)))"

definition read_scope_id :: "string \<Rightarrow> nat \<times> string" where
  "read_scope_id s =
    (case Option.bind (read_given CHR ''%'' s) (read_number 10 None True 4294967295) of
       None \<Rightarrow> (0, s) | Some r \<Rightarrow> r)"

definition read_socket_addr_v6 :: "string \<Rightarrow> ((nat list \<times> nat) \<times> string) option" where
  "read_socket_addr_v6 s =
    Option.bind (read_given CHR ''['' s) (\<lambda>s.
    Option.bind (read_ipv6_addr s) (\<lambda>(ip, s).
    Option.bind (read_given CHR '']'' (snd (read_scope_id s))) (\<lambda>s.
    Option.bind (read_port s) (\<lambda>(port, s). Some ((ip, port), s)))))"

text \<open>Parsing reads the whole text.\<close>

definition parse_all :: "(string \<Rightarrow> ('a \<times> string) option) \<Rightarrow> string \<Rightarrow> 'a option" where
  "parse_all p s = (case p s of Some (v, []) \<Rightarrow> Some v | _ \<Rightarrow> None)"

definition parse_ip_addr :: "string \<Rightarrow> ip_addr option" where
  "parse_ip_addr = parse_all read_ip_addr"

definition parse_socket_addr_v4 :: "string \<Rightarrow> (ipv4 \<times> nat) option" where
  "parse_socket_addr_v4 = parse_all read_socket_addr_v4"

definition parse_socket_addr :: "string \<Rightarrow> (ip_addr \<times> nat) option" where
  "parse_socket_addr = parse_all (\<lambda>s.
    case read_socket_addr_v4 s of
      Some ((ip, port), r) \<Rightarrow> Some ((V4 ip, port), r)
    | None \<Rightarrow> map_option (\<lambda>((ip, port), r). ((V6 ip, port), r)) (read_socket_addr_v6 s))"

fun show_ipv4 :: "ipv4 \<Rightarrow> string" where
  "show_ipv4 (a, b, c, d) = show_nat a @ ''.'' @ show_nat b @ ''.'' @ show_nat c @ ''.'' @ show_nat d"

definition show_socket_addr_v4 :: "ipv4 \<times> nat \<Rightarrow> string" where
  "show_socket_addr_v4 a = show_ipv4 (fst a) @ '':'' @ show_nat (snd a)"

section \<open>Reading in front of a foreign character\<close>

definition then_rest :: "string \<Rightarrow> ('a \<times> string) option \<Rightarrow> ('a \<times> string) option" where
  "then_rest t = map_option (\<lambda>(v, r). (v, r @ t))"

lemma then_rest_simps [simp]:
  "then_rest t None = None" "then_rest t (Some (v, r)) = Some (v, r @ t)"
  by (simp_all add: then_rest_def)

lemma takeWhile_foreign: "\<not> P c \<Longrightarrow> takeWhile P (s @ c # t) = takeWhile P s"
  by (induction s) auto

lemma read_number_foreign:
  assumes "radix_digit r c = None"
  shows "read_number r m z l (s @ c # t) = then_rest (c # t) (read_number r m z l s)"
proof -
  have eq: "takeWhile (\<lambda>c. radix_digit r c \<noteq> None) (s @ c # t) = takeWhile (\<lambda>c. radix_digit r c \<noteq> None) s"
    using assms by (simp add: takeWhile_foreign)
  show ?thesis
    unfolding read_number_def eq Let_def
    by (cases s) (auto simp: drop_append length_takeWhile_le)
qed

lemma read_given_foreign: "x \<noteq> c \<Longrightarrow> read_given x (s @ c # t) = map_option (\<lambda>r. r @ c # t) (read_given x s)"
  by (auto simp: read_given_def split: list.splits)

lemma bind_then_rest:
  assumes "\<And>v r. m = Some (v, r) \<Longrightarrow> f (v, r @ t) = then_rest t (f (v, r))"
  shows "Option.bind (then_rest t m) f = then_rest t (Option.bind m f)"
  using assms by (cases m) auto

lemma bind_map_rest:
  assumes "\<And>r. m = Some r \<Longrightarrow> f (r @ t) = then_rest t (f r)"
  shows "Option.bind (map_option (\<lambda>r. r @ t) m) f = then_rest t (Option.bind m f)"
  using assms by (cases m) auto

lemmas foreign_rules = bind_then_rest bind_map_rest read_given_foreign read_number_foreign

lemma read_octet_foreign:
  assumes "digit_val c = None"
  shows "read_octet (s @ c # t) = then_rest (c # t) (read_octet s)"
  using assms unfolding read_octet_def by (intro read_number_foreign) (simp add: radix_digit_def)

lemma read_ipv4_foreign:
  assumes "digit_val c = None" "c \<noteq> CHR ''.''"
  shows "read_ipv4_addr (s @ c # t) = then_rest (c # t) (read_ipv4_addr s)"
  unfolding read_ipv4_addr_def read_octet_foreign [OF assms(1)]
  using assms
  by (simp add: bind_then_rest bind_map_rest read_given_foreign read_octet_foreign case_prod_beta)


lemma read_separator_foreign:
  "c \<noteq> CHR '':'' \<Longrightarrow> read_separator i (s @ c # t) = map_option (\<lambda>r. r @ c # t) (read_separator i s)"
  by (simp add: read_separator_def read_given_foreign)

definition foreign :: "char \<Rightarrow> bool" where
  "foreign c \<longleftrightarrow> radix_digit 16 c = None \<and> c \<noteq> CHR ''.'' \<and> c \<noteq> CHR '':''"

lemma foreignD: "foreign c \<Longrightarrow> radix_digit 16 c = None \<and> digit_val c = None \<and> c \<noteq> CHR ''.'' \<and> c \<noteq> CHR '':''"
  by (auto simp: foreign_def radix_digit_def split: option.splits)

lemma read_groups_foreign:
  assumes "foreign c"
  shows "read_groups limit i n (s @ c # t)
    = (case read_groups limit i n s of (gs, v4, r) \<Rightarrow> (gs, v4, r @ c # t))"
proof (induction n arbitrary: i s)
  case (Suc n)
  note f = foreignD [OF assms]
  have v4: "Option.bind (read_separator i (s @ c # t)) read_ipv4_addr
      = then_rest (c # t) (Option.bind (read_separator i s) read_ipv4_addr)"
    using f by (simp add: read_separator_foreign bind_map_rest read_ipv4_foreign)
  have num: "Option.bind (read_separator i (s @ c # t)) (read_number 16 (Some 4) True 65535)
      = then_rest (c # t) (Option.bind (read_separator i s) (read_number 16 (Some 4) True 65535))"
    using f by (simp add: read_separator_foreign bind_map_rest read_number_foreign)
  show ?case
    by (simp add: v4 num Suc.IH then_rest_def split: option.splits prod.splits)
qed simp

lemma read_ipv6_foreign:
  assumes "foreign c"
  shows "read_ipv6_addr (s @ c # t) = then_rest (c # t) (read_ipv6_addr s)"
  using foreignD [OF assms]
  by (auto simp: read_ipv6_addr_def read_groups_foreign [OF assms] read_given_foreign bind_map_rest Let_def
      split: prod.splits)

section \<open>Printed numbers\<close>

lemma takeWhile_digits: "takeWhile (\<lambda>c. radix_digit 10 c \<noteq> None) (show_nat n) = show_nat n"
  using show_nat_digits by (auto simp: radix_digit_def takeWhile_eq_all_conv split: option.splits)

lemma digits_value_parse: "parse_digits v ds = Some n \<Longrightarrow> foldl (\<lambda>v c. v * 10 + the (radix_digit 10 c)) v ds = n"
  by (induction ds arbitrary: v) (auto simp: radix_digit_def split: option.splits)

lemma digits_value_show [simp]: "digits_value 10 (show_nat n) = n"
  unfolding digits_value_def by (rule digits_value_parse) (rule parse_digits_show_nat)

lemma hd_show_nat: "0 < n \<Longrightarrow> hd (show_nat n) \<noteq> CHR ''0''"
proof (induction n rule: show_nat.induct)
  case (1 n)
  have "digit_val CHR ''0'' = Some 0" by code_simp
  then have "n < 10 \<Longrightarrow> digit n \<noteq> CHR ''0''" using digit_val_digit [of n] "1.prems" by (metis less_irrefl option.inject)
  then show ?case using 1 by (cases "n < 10") (simp_all add: show_nat.simps [of n])
qed

lemma show_nat_zero: "hd (show_nat n) = CHR ''0'' \<Longrightarrow> length (show_nat n) = 1"
  using hd_show_nat [of n] by (cases "n = 0") (simp_all add: show_nat.simps [of 0])

lemma read_number_show:
  assumes "n \<le> l" "\<And>k. m = Some k \<Longrightarrow> length (show_nat n) \<le> k"
  shows "read_number 10 m z l (show_nat n) = Some (n, [])"
proof -
  have "\<not> (case m of None \<Rightarrow> False | Some k \<Rightarrow> k < length (show_nat n))"
    using assms(2) by (auto split: option.splits simp: not_less)
  then show ?thesis
    unfolding read_number_def takeWhile_digits Let_def using assms(1) show_nat_zero [of n] by auto
qed

lemma read_octet_show: "n \<le> 255 \<Longrightarrow> read_octet (show_nat n) = Some (n, [])"
  unfolding read_octet_def by (rule read_number_show) (auto intro!: length_show_nat)

definition wf_ipv4 :: "ipv4 \<Rightarrow> bool" where
  "wf_ipv4 ip = (case ip of (a, b, c, d) \<Rightarrow> a \<le> 255 \<and> b \<le> 255 \<and> c \<le> 255 \<and> d \<le> 255)"

lemma digit_val_sep [simp]: "digit_val CHR ''.'' = None" "digit_val CHR '':'' = None" "digit_val CHR ''['' = None"
  by code_simp+

lemma read_given_Cons [simp]: "read_given c (x # s) = (if x = c then Some s else None)" "read_given c [] = None"
  by (simp_all add: read_given_def)

lemma read_ipv4_show: "wf_ipv4 ip \<Longrightarrow> read_ipv4_addr (show_ipv4 ip) = Some (ip, [])"
  by (cases ip) (simp add: wf_ipv4_def read_ipv4_addr_def read_octet_foreign read_octet_show)

lemma read_port_show: "p \<le> 65535 \<Longrightarrow> read_port (CHR '':'' # show_nat p) = Some (p, [])"
  using read_number_show [of p 65535 None True] by (simp add: read_port_def)

lemma read_socket_addr_v4_join:
  "read_ipv4_addr host = Some (ip, []) \<Longrightarrow> read_socket_addr_v4 (host @ CHR '':'' # port)
    = map_option (\<lambda>(p, r). ((ip, p), r)) (read_port (CHR '':'' # port))"
  by (cases "read_port (CHR '':'' # port)") (auto simp: read_socket_addr_v4_def read_ipv4_foreign)

lemma parse_show_socket_addr_v4:
  assumes "wf_ipv4 ip" "p \<le> 65535"
  shows "parse_socket_addr_v4 (show_socket_addr_v4 (ip, p)) = Some (ip, p)"
    and "parse_socket_addr (show_socket_addr_v4 (ip, p)) = Some (V4 ip, p)"
  using assms read_socket_addr_v4_join [OF read_ipv4_show, of ip "show_nat p"]
  by (simp_all add: parse_socket_addr_v4_def parse_socket_addr_def parse_all_def show_socket_addr_v4_def read_port_show)

text \<open>Whatever is read is in range.\<close>

lemma read_number_le: "read_number r m z l s = Some (n, t) \<Longrightarrow> n \<le> l"
  by (auto simp: read_number_def Let_def split: if_splits)

lemma read_socket_addr_v4_wf:
  "read_socket_addr_v4 s = Some ((ip, p), r) \<Longrightarrow> wf_ipv4 ip \<and> p \<le> 65535"
  by (auto simp: read_socket_addr_v4_def read_ipv4_addr_def read_octet_def read_port_def wf_ipv4_def
      bind_eq_Some_conv dest!: read_number_le)

text \<open>A bracketed IPv6 address with a port of digits.\<close>

lemma radix_10: "radix_digit 10 c = digit_val c"
  by (simp add: radix_digit_def split: option.splits)

lemma read_digits:
  assumes "port \<noteq> []" "list_all (\<lambda>c. digit_val c \<noteq> None) port" "parse_uint 65535 port = Some p"
  shows "read_port (CHR '':'' # port) = Some (p, [])"
proof -
  have all: "takeWhile (\<lambda>c. radix_digit 10 c \<noteq> None) port = port"
    using assms(2) by (simp add: radix_10 takeWhile_eq_all_conv list_all_iff)
  have "hd port \<noteq> CHR ''+''" using assms(1,2) by (cases port) auto
  then have "parse_digits 0 port = Some p" "p \<le> 65535"
    using assms by (auto simp: parse_uint_def Let_def split: option.splits if_splits)
  moreover from this(1) have "digits_value 10 port = p"
    unfolding digits_value_def by (rule digits_value_parse)
  ultimately show ?thesis
    unfolding read_port_def using assms(1) by (simp add: read_number_def all Let_def del: not_None_eq)
qed

lemma parse_bracketed:
  assumes "read_ipv6_addr host = Some (ip, [])" "read_port (CHR '':'' # port) = Some (p, [])"
  shows "parse_socket_addr (''['' @ host @ '']:'' @ port) = Some (V6 ip, p)"
proof -
  have "foreign CHR '']''" by code_simp
  then have "read_ipv6_addr (host @ CHR '']'' # CHR '':'' # port) = Some (ip, CHR '']'' # CHR '':'' # port)"
    using assms(1) by (simp add: read_ipv6_foreign)
  then have "read_socket_addr_v6 (''['' @ host @ '']:'' @ port) = Some ((ip, p), [])"
    using assms(2) by (simp add: read_socket_addr_v6_def read_scope_id_def)
  moreover have "read_socket_addr_v4 (''['' @ host @ '']:'' @ port) = None"
    by (simp add: read_socket_addr_v4_def read_ipv4_addr_def read_octet_def read_number_def radix_10 Let_def)
  ultimately show ?thesis by (simp add: parse_socket_addr_def parse_all_def)
qed

end
