(* ===== verification/Cmd_Parser.thy ===== *)
theory Cmd_Parser
  imports Rust_Net Config
begin

text \<open>
  The command line of the host tool (\<open>hdc/src/parser.rs\<close>): finding the command among the arguments,
  the global options, and the listen address of the server. The loop over positions and phrase
  lengths is proved equal to a specification that looks at the arguments from left to right, and
  accepted listen addresses are shown to be socket addresses.
\<close>

section \<open>Commands\<close>

record parsed_command =
  pc_run_in_server :: bool
  pc_launch_server :: bool
  pc_spawned_server :: bool
  pc_connect_key :: string
  pc_log_level :: nat
  pc_server_addr :: string
  pc_forward_listen_ip :: string
  pc_command :: "hdc_command option"
  pc_parameters :: "string list"

definition CMD_MAP :: "(string \<times> hdc_command) list" where
  "CMD_MAP =
    [(''version'', ClientVersion), (''help'', KernelHelp),
     (''discover'', KernelTargetDiscover), (''start'', KernelServerStart),
     (''kill'', KernelServerKill), (''keygen'', ClientKeyGenerate),
     (''list targets'', KernelTargetList), (''checkserver'', KernelCheckServer),
     (''checkdevice'', KernelCheckDevice), (''wait'', KernelWaitFor),
     (''tconn'', KernelTargetConnect), (''any'', KernelTargetAny),
     (''shell'', UnityExecute), (''target boot'', UnityReboot),
     (''target mount'', UnityRemount), (''smode'', UnityRootrun),
     (''tmode'', UnityRunmode), (''bugreport'', UnityBugreportInit),
     (''hilog'', UnityHilog), (''file send'', FileInit),
     (''file recv'', FileRecvInit), (''fport'', ForwardInit),
     (''rport'', ForwardRportInit), (''rport ls'', ForwardRportList),
     (''fport ls'', ForwardList), (''fport rm'', ForwardRemove),
     (''rport rm'', ForwardRportRemove), (''install'', AppInit),
     (''uninstall'', AppUninstall), (''sideload'', AppSideload),
     (''jpid'', JdwpList), (''track-jpid'', JdwpTrack),
     (''alive'', KernelEnableKeepalive), (''update'', FlashdUpdateInit),
     (''flash'', FlashdFlashInit), (''erase'', FlashdErase),
     (''format'', FlashdFormat), (''reconnect'', KernelTargetReconnect),
     (''spawn-sub'', SpawnSub), (''killall-sub'', SpawnSub)]"

definition MAX_CMD_LEN :: nat where "MAX_CMD_LEN = 3"

definition usage :: string where
  "usage = concat (map (\<lambda>line. line @ [CHR 0x0A])
    [''HDC (HarmonyOS Device Connector) Rust Implementation'',
     [],
     ''Usage: hdc [options] [command]'',
     [],
     ''Global Options:'',
     ''  -h              Show this help message'',
     ''  -v              Show version'',
     ''  -l <level>      Set log level (0-6)'',
     ''  -m              Run in server mode'',
     ''  -p              Do not launch server automatically'',
     ''  -t <key>        Target connect key'',
     ''  -s <addr>       Server address (ip:port)'',
     ''  -e <ip>         IP address for host to listen during TCP port forwarding'',
     ''  -b              Server spawned by client (no stdout)'',
     [],
     ''Commands:'',
     ''  list targets              List connected devices'',
     ''  tconn <ip:port>           Connect to device via TCP'',
     ''  shell [cmd]               Execute shell command or enter interactive shell'',
     ''  shell - [cmd]             Execute shell with bundle options'',
     ''  file send <local> <remote> Send file to device'',
     ''  file recv <remote> <local> Receive file from device'',
     ''  install [options] <path...>  Install application package(s) (.hap/.hsp/.app)'',
     ''                              options are passed to 'bm install' (e.g. -r replace,'',
     ''                              -g grant permissions, -s shared bundle)'',
     ''  uninstall <package>       Uninstall application'',
     ''  fport [ls|rm]             Forward port management'',
     ''  rport [ls|rm]             Reverse port management'',
     ''  hilog                     Show device logs'',
     ''  bugreport [path]          Generate bug report'',
     ''  target boot [mode]        Reboot device'',
     ''  target mount              Remount filesystem'',
     ''  smode                     Switch root mode'',
     ''  tmode                     Switch target mode'',
     ''  jpid                      List JDWP processes'',
     ''  track-jpid                Track JDWP processes'',
     ''  update <package>          Update system by package (.zip/.img/...)'',
     ''  flash [-f] <partition> <image>  Flash partition by image'',
     ''  erase [-f] <partition>    Erase partition'',
     ''  format [-f] <partition>   Format partition'',
     ''  reconnect <key>           Reconnect USB device'',
     ''  start [-r]                Start server (with -r to restart)'',
     ''  kill [-r]                 Kill server (with -r to restart)'',
     ''  checkserver               Check server version'',
     ''  wait                      Wait for device connection''])"

definition verbose_usage :: string where
  "verbose_usage = usage @ [CHR 0x0A] @ ''Verbose mode enabled.'' @ [CHR 0x0A]"

record parsed =
  pd_options :: "string list"
  pd_command :: "hdc_command option"
  pd_parameters :: "string list"

definition forward_init :: "hdc_command list" where
  "forward_init = [ForwardInit, ForwardRportInit]"

definition forward_manage :: "hdc_command list" where
  "forward_manage = [ForwardRemove, ForwardList, ForwardRportList, ForwardRportRemove]"

text \<open>The inner loop: the phrase lengths at one position. The state is the command and its position.\<close>

fun cmd_lens :: "string list \<Rightarrow> nat \<Rightarrow> nat list \<Rightarrow> hdc_command option \<times> nat \<Rightarrow> hdc_command option \<times> nat" where
  "cmd_lens input st [] found = found"
| "cmd_lens input st (len # lens) (cmd_opt, cmd_index) =
    (if length input < st + len then (cmd_opt, cmd_index)
     else (case map_of CMD_MAP (join '' '' (take len (drop st input))) of
             None \<Rightarrow> cmd_lens input st lens (cmd_opt, cmd_index)
           | Some command \<Rightarrow>
               if (\<exists>existing \<in> set_option cmd_opt. existing \<in> set forward_init) \<and> command \<notin> set forward_manage
               then (cmd_opt, cmd_index)
               else if command \<in> set forward_init then cmd_lens input st lens (Some command, st)
               else (Some command, st)))"

text \<open>The outer loop over the positions.\<close>

fun cmd_starts :: "string list \<Rightarrow> nat list \<Rightarrow> hdc_command option \<times> nat \<Rightarrow> hdc_command option \<times> nat" where
  "cmd_starts input [] found = found"
| "cmd_starts input (st # sts) found =
    (let (cmd_opt, cmd_index) = cmd_lens input st [1..<Suc MAX_CMD_LEN] found in
     case cmd_opt of
       Some existing \<Rightarrow>
         if existing \<notin> set forward_init then (cmd_opt, cmd_index)
         else cmd_starts input sts (cmd_opt, cmd_index)
     | None \<Rightarrow> cmd_starts input sts (cmd_opt, cmd_index))"

definition split_opt_and_cmd :: "string list \<Rightarrow> parsed" where
  "split_opt_and_cmd input =
    (let (cmd_opt, cmd_index) = cmd_starts input [0..<length input] (None, length input)
     in \<lparr>pd_options = take cmd_index input, pd_command = cmd_opt, pd_parameters = drop cmd_index input\<rparr>)"

section \<open>Listen address\<close>

definition check_port :: "string \<Rightarrow> nat io_result" where
  "check_port port_str =
    (if port_str = [] \<or> 5 < length port_str \<or> \<not> list_all (\<lambda>c. digit_val c \<noteq> None) port_str
     then Inl (Error InvalidInput ''The port must be digit str'')
     else (case parse_uint 65535 port_str of
             Some port \<Rightarrow> if 0 < port then Inr port else Inl (Error InvalidInput ''Port range incorrect'')
           | None \<Rightarrow> Inl (Error InvalidInput ''Port range incorrect'')))"

definition strip_prefix :: "string \<Rightarrow> string \<Rightarrow> string option" where
  "strip_prefix p s = (if prefix p s then Some (drop (length p) s) else None)"

definition is_ipv6 :: "ip_addr \<Rightarrow> bool" where
  "is_ipv6 ip = (case ip of V4 _ \<Rightarrow> False | V6 _ \<Rightarrow> True)"

definition normalize_listen_addr :: "string \<Rightarrow> string" where
  "normalize_listen_addr s =
    (if parse_socket_addr s \<noteq> None then s
     else case Option.bind (strip_prefix ''::ffff:'' (to_ascii_lowercase s)) parse_socket_addr_v4 of
       Some v4 \<Rightarrow> show_socket_addr_v4 v4
     | None \<Rightarrow>
         (case rsplit_once CHR '':'' s of
            None \<Rightarrow> s
          | Some (host, port) \<Rightarrow>
              if parse_uint 65535 port \<noteq> None \<and> (\<exists>ip \<in> set_option (parse_ip_addr host). is_ipv6 ip)
              then ''['' @ host @ '']:'' @ port else s))"

text \<open>
  The slice of the address ends in front of the last colon, which is a character boundary. Both
  families of addresses are accepted.
\<close>

definition parse_server_listen_string :: "string \<Rightarrow> string io_result" where
  "parse_server_listen_string arg =
    (let addr = normalize_listen_addr arg;
         segments = split_on CHR '':'' addr;
         port_str = last segments
     in and_then (check_port port_str) (\<lambda>port.
        if length segments = 1 then Inr (LOCAL_HOST @ '':'' @ show_nat port)
        else let ip_str = trim_end_matches (\<lambda>c. c = CHR '']'')
                   (trim_start_matches (\<lambda>c. c = CHR ''['') (take (length addr - length port_str - 1) addr))
             in case parse_ip_addr ip_str of
                  Some _ \<Rightarrow> Inr addr
                | None \<Rightarrow> Inl (Error InvalidInput ''-s content ip incorrect'')))"

section \<open>Options\<close>

text \<open>
  One option: what it does with its argument. \<open>usize\<close> has 64 bits.
\<close>

definition apply_option :: "string \<Rightarrow> string \<Rightarrow> parsed_command \<Rightarrow> parsed_command io_result" where
  "apply_option opt arg pc =
    (if prefix ''-h'' opt then Inl (Error OtherKind (if arg = ''verbose'' then verbose_usage else usage))
     else if prefix ''-v'' opt then Inl (Error OtherKind get_version)
     else if prefix ''-l'' opt then
       (case parse_uint (2 ^ 64 - 1) arg of
          Some level \<Rightarrow>
            if level < 7 then Inr (pc\<lparr>pc_log_level := level\<rparr>)
            else Inl (Error InvalidInput (''-l content loglevel incorrect'' @ [CHR 0x0A, CHR 0x0A] @ usage))
        | None \<Rightarrow> Inl (Error InvalidInput (''-l content loglevel incorrect'' @ [CHR 0x0A, CHR 0x0A] @ usage)))
     else if prefix ''-m'' opt then Inr (pc\<lparr>pc_run_in_server := True\<rparr>)
     else if prefix ''-p'' opt then Inr (pc\<lparr>pc_launch_server := False\<rparr>)
     else if prefix ''-t'' opt then
       (if 32 < length arg
        then Inl (Error InvalidInput (''Size of param '' @ [CHR 39] @ ''-t'' @ [CHR 39] @ '' ''
               @ show_nat (length arg) @ '' is too long''))
        else Inr (pc\<lparr>pc_connect_key := arg\<rparr>))
     else if prefix ''-s'' opt then
       and_then (parse_server_listen_string arg) (\<lambda>a. Inr (pc\<lparr>pc_server_addr := a\<rparr>))
     else if prefix ''-e'' opt then
       (case parse_ip_addr arg of
          Some _ \<Rightarrow> Inr (pc\<lparr>pc_forward_listen_ip := arg\<rparr>)
        | None \<Rightarrow> Inl (Error InvalidInput ''-e content IP incorrect''))
     else if prefix ''-b'' opt then Inr (pc\<lparr>pc_spawned_server := True\<rparr>)
     else Inr pc)"

text \<open>
  The loop over the options; \<open>None\<close> is the panic of slicing an option inside a character.
\<close>

fun extract_loop :: "string list \<Rightarrow> parsed_command \<Rightarrow> parsed_command io_result option" where
  "extract_loop [] pc = Some (Inr pc)"
| "extract_loop (opt # opts) pc =
    (case (if 2 < length opt then str_slice 2 (length opt) opt
           else Some (case opts of [] \<Rightarrow> [] | next # _ \<Rightarrow> next)) of
       None \<Rightarrow> None
     | Some arg \<Rightarrow>
         (case apply_option opt arg pc of
            Inl e \<Rightarrow> Some (Inl e)
          | Inr pc' \<Rightarrow> extract_loop opts pc'))"

definition parsed_default :: parsed_command where
  "parsed_default =
    \<lparr>pc_run_in_server = False, pc_launch_server = True, pc_spawned_server = False, pc_connect_key = [],
     pc_log_level = 3, pc_server_addr = LOCAL_HOST @ '':'' @ show_nat SERVER_DEFAULT_PORT,
     pc_forward_listen_ip = LOCAL_HOST, pc_command = None, pc_parameters = []\<rparr>"

definition extract_global_params :: "string list \<Rightarrow> parsed_command io_result option" where
  "extract_global_params opts = extract_loop opts parsed_default"

definition parse_command :: "string list \<Rightarrow> parsed_command io_result option" where
  "parse_command args =
    (let p = split_opt_and_cmd (tl args) in
     map_option (\<lambda>r. and_then r (\<lambda>pc.
       let pc = pc\<lparr>pc_command := pd_command p, pc_parameters := pd_parameters p\<rparr> in
       Inr (if pc_command pc = Some UnityExecute \<and> 2 \<le> length (pc_parameters pc) \<and> pc_parameters pc ! 0 = ''-''
            then pc\<lparr>pc_command := Some UnityExecuteEx\<rparr> else pc)))
     (extract_global_params (pd_options p)))"

definition auto_connect_key :: "string \<Rightarrow> hdc_command \<Rightarrow> string" where
  "auto_connect_key key cmd =
    (if cmd \<in> {ClientVersion, KernelHelp, KernelTargetList, KernelCheckServer, KernelTargetConnect, KernelServerKill}
     then [] else if key = [] then ''any'' else key)"

section \<open>Commands from left to right\<close>

text \<open>
  The phrase at the start of a list of arguments: one word, or two. The words \<open>fport\<close> and \<open>rport\<close>
  are commands by themselves unless the second word makes a longer phrase.
\<close>

definition phrase :: "string list \<Rightarrow> hdc_command option" where
  "phrase ws =
    (case map_of CMD_MAP (join '' '' (take 1 ws)) of
       Some c \<Rightarrow>
         if c \<in> set forward_init \<and> 2 \<le> length ws \<and> map_of CMD_MAP (join '' '' (take 2 ws)) \<noteq> None
         then map_of CMD_MAP (join '' '' (take 2 ws)) else Some c
     | None \<Rightarrow> if 2 \<le> length ws then map_of CMD_MAP (join '' '' (take 2 ws)) else None)"

text \<open>The options are the arguments in front of the first phrase.\<close>

primrec split_spec :: "string list \<Rightarrow> string list \<Rightarrow> parsed" where
  "split_spec opts [] = \<lparr>pd_options = opts, pd_command = None, pd_parameters = []\<rparr>"
| "split_spec opts (w # ws) =
    (case phrase (w # ws) of
       Some c \<Rightarrow> \<lparr>pd_options = opts, pd_command = Some c, pd_parameters = w # ws\<rparr>
     | None \<Rightarrow> split_spec (opts @ [w]) ws)"

text \<open>Facts about the table, by evaluation.\<close>

lemma cmd_keys:
  "list_all (\<lambda>(k, c). count_list k CHR '' '' \<le> 1 \<and> k \<noteq> []) CMD_MAP"
  by code_simp

lemma cmd_three: "map_of CMD_MAP (join '' '' [a, b, c]) = None"
proof (rule ccontr)
  assume "map_of CMD_MAP (join '' '' [a, b, c]) \<noteq> None"
  then obtain x where "(join '' '' [a, b, c], x) \<in> set CMD_MAP" by (auto dest: map_of_SomeD)
  then have "count_list (join '' '' [a, b, c]) CHR '' '' \<le> 1" using cmd_keys by (auto simp: list_all_iff)
  then show False by simp
qed

lemma cmd_two:
  assumes "map_of CMD_MAP a = Some f" "f \<in> set forward_init" "map_of CMD_MAP (join '' '' [a, b]) = Some c"
  shows "c \<in> set forward_manage"
proof -
  have "list_all (\<lambda>(k, c). c \<in> set forward_init \<longrightarrow> k = ''fport'' \<or> k = ''rport'') CMD_MAP" by code_simp
  then have a: "a = ''fport'' \<or> a = ''rport''" using assms(1,2) map_of_SomeD [OF assms(1)] by (fastforce simp: list_all_iff)
  have "list_all (\<lambda>(k, c). prefix ''fport '' k \<or> prefix ''rport '' k \<longrightarrow> c \<in> set forward_manage) CMD_MAP" by code_simp
  moreover have "prefix ''fport '' (join '' '' [a, b]) \<or> prefix ''rport '' (join '' '' [a, b])" using a by auto
  ultimately show ?thesis using map_of_SomeD [OF assms(3)] by (fastforce simp: list_all_iff)
qed

lemma forward_disjoint: "c \<in> set forward_init \<Longrightarrow> c \<notin> set forward_manage"
  by (auto simp: forward_init_def forward_manage_def)

definition plain_words :: "string list \<Rightarrow> bool" where
  "plain_words ws \<longleftrightarrow> (\<forall>w \<in> set ws. map_of CMD_MAP w \<notin> Some ` set forward_manage)"

lemma manage_first:
  assumes "map_of CMD_MAP (join '' '' [a, b]) = Some c" "c \<in> set forward_manage"
  shows "map_of CMD_MAP a \<noteq> None"
proof -
  have "list_all (\<lambda>(k, c). c \<in> set forward_manage \<longrightarrow>
      (case split_once CHR '' '' k of Some (a, b) \<Rightarrow> map_of CMD_MAP a \<noteq> None | None \<Rightarrow> False)) CMD_MAP"
    by code_simp
  then have key: "case split_once CHR '' '' (a @ CHR '' '' # b) of Some (a, b) \<Rightarrow> map_of CMD_MAP a \<noteq> None | None \<Rightarrow> False"
    using map_of_SomeD [OF assms(1)] assms(2) by (fastforce simp: list_all_iff)
  have "count_list (a @ CHR '' '' # b) CHR '' '' \<le> 1"
    using cmd_keys map_of_SomeD [OF assms(1)] by (fastforce simp: list_all_iff)
  then have "CHR '' '' \<notin> set a" by (simp add: count_list_0_iff)
  then show ?thesis using key by (simp add: split_once_first)
qed

lemma lens_eq: "[1..<Suc MAX_CMD_LEN] = [1, 2, 3]"
  by (simp add: MAX_CMD_LEN_def upt_rec)

lemma cmd_starts_Cons:
  "cmd_starts input (st # sts) found =
    (case cmd_lens input st [1, 2, 3] found of (cmd_opt, cmd_index) \<Rightarrow>
     (case cmd_opt of
        Some existing \<Rightarrow>
          if existing \<notin> set forward_init then (cmd_opt, cmd_index)
          else cmd_starts input sts (cmd_opt, cmd_index)
      | None \<Rightarrow> cmd_starts input sts (cmd_opt, cmd_index)))"
  by (simp only: cmd_starts.simps lens_eq Let_def)

lemma three_none: "Suc (Suc (Suc 0)) \<le> length ws \<Longrightarrow> map_of CMD_MAP (join '' '' (take 3 ws)) = None"
  using cmd_three by (cases ws; cases "tl ws"; cases "tl (tl ws)") (auto simp: numeral_3_eq_3)

lemma cmd_lens_none:
  assumes "st < length input"
  shows "cmd_lens input st [1, 2, 3] (None, i)
    = (case phrase (drop st input) of None \<Rightarrow> (None, i) | Some c \<Rightarrow> (Some c, st))"
proof -
  obtain a ws where aws: "drop st input = a # ws" using assms by (metis Cons_nth_drop_Suc)
  have "length (drop st input) = length input - st" by simp
  then have guard: "length input < st + n \<longleftrightarrow> length (a # ws) < n" for n using assms unfolding aws by auto
  show ?thesis
  proof (cases ws)
    case Nil
    then show ?thesis unfolding cmd_lens.simps guard aws phrase_def by (simp split: option.splits)
  next
    case (Cons b rest)
    have three: "rest \<noteq> [] \<Longrightarrow> map_of CMD_MAP (join '' '' (take 3 (a # b # rest))) = None"
      using three_none [of "a # b # rest"] by (cases rest) simp_all
    have two: "f \<in> set forward_init \<Longrightarrow> map_of CMD_MAP a = Some f \<Longrightarrow> map_of CMD_MAP (a @ '' '' @ b) = Some c \<Longrightarrow>
        c \<in> set forward_manage \<and> c \<notin> set forward_init" for f c
      using cmd_two [of a f b c] forward_disjoint by auto
    have words: "join '' '' (take 1 (a # b # rest)) = a" "join '' '' (take 2 (a # b # rest)) = a @ '' '' @ b"
      by (simp_all add: numeral_2_eq_2)
    show ?thesis
      unfolding cmd_lens.simps guard aws phrase_def Cons words
      using two three by (cases "map_of CMD_MAP a"; cases "map_of CMD_MAP (a @ '' '' @ b)") (auto simp: not_less)
  qed
qed

lemma cmd_lens_forward:
  assumes "st < length input" "f \<in> set forward_init" "plain_words input"
  shows "cmd_lens input st [1, 2, 3] (Some f, i) = (Some f, i)"
proof -
  obtain a ws where aws: "drop st input = a # ws" using assms by (metis Cons_nth_drop_Suc)
  have "length (drop st input) = length input - st" by simp
  then have guard: "length input < st + n \<longleftrightarrow> length (a # ws) < n" for n using assms unfolding aws by auto
  have "a \<in> set input" using in_set_dropD [of a st input] by (simp add: aws)
  then have one: "map_of CMD_MAP a = Some c \<Longrightarrow> c \<notin> set forward_manage" for c
    using assms(3) by (auto simp: plain_words_def)
  show ?thesis
  proof (cases ws)
    case Nil
    then show ?thesis unfolding cmd_lens.simps guard aws using one assms(2) by (simp split: option.splits)
  next
    case (Cons b rest)
    have three: "rest \<noteq> [] \<Longrightarrow> map_of CMD_MAP (join '' '' (take 3 (a # b # rest))) = None"
      using three_none [of "a # b # rest"] by (cases rest) simp_all
    have two: "map_of CMD_MAP a = None \<Longrightarrow> map_of CMD_MAP (a @ '' '' @ b) = Some c \<Longrightarrow> c \<notin> set forward_manage" for c
      using manage_first [of a b c] by auto
    have words: "join '' '' (take 1 (a # b # rest)) = a" "join '' '' (take 2 (a # b # rest)) = a @ '' '' @ b"
      by (simp_all add: numeral_2_eq_2)
    show ?thesis
      unfolding cmd_lens.simps guard aws Cons words
      using one two three assms(2)
      by (cases "map_of CMD_MAP a"; cases "map_of CMD_MAP (a @ '' '' @ b)") (auto simp: not_less)
  qed
qed

lemma cmd_starts_forward:
  "f \<in> set forward_init \<Longrightarrow> plain_words input \<Longrightarrow> \<forall>st \<in> set sts. st < length input \<Longrightarrow>
    cmd_starts input sts (Some f, i) = (Some f, i)"
  by (induction sts) (simp_all add: cmd_starts_Cons cmd_lens_forward del: cmd_lens.simps cmd_starts.simps(2) One_nat_def)

lemma cmd_starts_spec:
  assumes "plain_words input" "st \<le> length input"
  shows "(case cmd_starts input [st..<length input] (None, length input) of (c, i) \<Rightarrow>
      \<lparr>pd_options = take i input, pd_command = c, pd_parameters = drop i input\<rparr>)
    = split_spec (take st input) (drop st input)"
  using assms(2)
proof (induction "length input - st" arbitrary: st)
  case (Suc n)
  then have st: "st < length input" by simp
  then have upt: "[st..<length input] = st # [Suc st..<length input]" by (simp add: upt_conv_Cons)
  have ws: "drop st input = input ! st # drop (Suc st) input" "take (Suc st) input = take st input @ [input ! st]"
    using st by (simp_all add: Cons_nth_drop_Suc take_Suc_conv_app_nth)
  have IH: "(case cmd_starts input [Suc st..<length input] (None, length input) of (c, i) \<Rightarrow>
      \<lparr>pd_options = take i input, pd_command = c, pd_parameters = drop i input\<rparr>)
    = split_spec (take st input @ [input ! st]) (drop (Suc st) input)"
    using Suc.hyps(1) [of "Suc st"] Suc.hyps(2) st ws(2) by simp
  show ?case
  proof (cases "phrase (drop st input)")
    case None
    then have "cmd_starts input [st..<length input] (None, length input)
        = cmd_starts input [Suc st..<length input] (None, length input)"
      using cmd_lens_none [OF st] by (simp add: upt cmd_starts_Cons del: cmd_lens.simps cmd_starts.simps(2) One_nat_def)
    then show ?thesis using IH None ws(1) by simp
  next
    case (Some c)
    then have "cmd_starts input [st..<length input] (None, length input) = (Some c, st)"
      using cmd_lens_none [OF st] cmd_starts_forward [OF _ assms(1), of c "[Suc st..<length input]" st]
      by (auto simp: upt cmd_starts_Cons simp del: cmd_lens.simps cmd_starts.simps(2) One_nat_def)
    then show ?thesis using Some ws(1) by simp
  qed
qed simp

lemma split_opt_and_cmd_spec: "plain_words input \<Longrightarrow> split_opt_and_cmd input = split_spec [] input"
  using cmd_starts_spec [of input 0] by (simp add: split_opt_and_cmd_def)

text \<open>The parameters start with the words of the command, so the test for a first parameter \<open>-\<close> never holds.\<close>

lemma dash_no_command: "map_of CMD_MAP (join '' '' (take 1 (''-'' # ws))) = None"
  "map_of CMD_MAP (join '' '' (take 2 (''-'' # ws))) = None"
proof -
  have "list_all (\<lambda>(k, c). k \<noteq> ''-'' \<and> \<not> prefix ''- '' k) CMD_MAP" by code_simp
  then have keys: "map_of CMD_MAP k = Some c \<Longrightarrow> k \<noteq> ''-'' \<and> \<not> prefix ''- '' k" for k c
    by (auto simp: list_all_iff dest!: map_of_SomeD)
  then have none: "k = ''-'' \<or> prefix ''- '' k \<Longrightarrow> map_of CMD_MAP k = None" for k
    by (cases "map_of CMD_MAP k") auto
  show "map_of CMD_MAP (join '' '' (take 1 (''-'' # ws))) = None"
    by (rule none) simp
  show "map_of CMD_MAP (join '' '' (take 2 (''-'' # ws))) = None"
    by (rule none) (cases ws; simp add: numeral_2_eq_2)
qed

lemma split_spec_no_dash:
  "pd_parameters (split_spec opts ws) \<noteq> [] \<Longrightarrow> hd (pd_parameters (split_spec opts ws)) \<noteq> ''-''"
proof (induction ws arbitrary: opts)
  case (Cons w ws)
  have "phrase (''-'' # ws) = None"
    unfolding phrase_def using dash_no_command [of ws] by simp
  then show ?case using Cons by (cases "phrase (w # ws)") auto
qed simp

section \<open>Accepted listen addresses\<close>

lemma check_port_ok:
  assumes "check_port s = Inr p"
  shows "s \<noteq> []" "list_all (\<lambda>c. digit_val c \<noteq> None) s" "parse_uint 65535 s = Some p" "0 < p" "p \<le> 65535"
  using assms parse_uint_le [of 65535 s p]
  by (auto simp: check_port_def split: if_splits option.splits)

lemma LOCAL_HOST_eq: "LOCAL_HOST = show_ipv4 (127, 0, 0, 1)"
  by code_simp

lemma parse_all_read: "parse_all f s = Some v \<longleftrightarrow> f s = Some (v, [])"
  by (auto simp: parse_all_def split: option.splits list.splits)

lemma parse_ip_v6: "parse_ip_addr s = Some (V6 g) \<longleftrightarrow> read_ipv4_addr s = None \<and> read_ipv6_addr s = Some (g, [])"
  by (auto simp: parse_ip_addr_def parse_all_read read_ip_addr_def split: option.splits)

lemma parse_ip_v4: "parse_ip_addr s = Some (V4 a) \<longleftrightarrow> read_ipv4_addr s = Some (a, [])"
  by (auto simp: parse_ip_addr_def parse_all_read read_ip_addr_def split: option.splits)

lemma split_on_snoc: "c \<notin> set b \<Longrightarrow> split_on c (a @ c # b) = split_on c a @ [b]"
  by (induction a) (auto simp: split_on_free)

lemma split_on_one: "length (split_on c s) = 1 \<longleftrightarrow> c \<notin> set s"
proof (cases "c \<in> set s")
  case True
  then obtain a b where "s = a @ c # b" "c \<notin> set b" by (metis split_list_last)
  then show ?thesis using True by (simp add: split_on_snoc)
qed (simp add: split_on_free)

text \<open>The forms that a listen address has after normalization.\<close>

lemma normalize_cases:
  obtains (same) "normalize_listen_addr s = s" "parse_socket_addr s \<noteq> None"
  | (mapped) ip p where "normalize_listen_addr s = show_socket_addr_v4 (ip, p)" "wf_ipv4 ip" "p \<le> 65535"
  | (bracketed) host port g where "normalize_listen_addr s = ''['' @ host @ '']:'' @ port"
      "CHR '':'' \<notin> set port" "parse_ip_addr host = Some (V6 g)"
  | (other) "normalize_listen_addr s = s" "\<And>host port g. s = host @ CHR '':'' # port \<Longrightarrow> CHR '':'' \<notin> set port \<Longrightarrow>
      parse_uint 65535 port = None \<or> parse_ip_addr host \<noteq> Some (V6 g)"
proof -
  let ?m = "Option.bind (strip_prefix ''::ffff:'' (to_ascii_lowercase s)) parse_socket_addr_v4"
  let ?v6 = "\<lambda>host port. parse_uint 65535 port \<noteq> None \<and> (\<exists>ip \<in> set_option (parse_ip_addr host). is_ipv6 ip)"
  consider "parse_socket_addr s \<noteq> None" | v where "parse_socket_addr s = None" "?m = Some v"
    | host port where "parse_socket_addr s = None" "?m = None" "rsplit_once CHR '':'' s = Some (host, port)" "?v6 host port"
    | "parse_socket_addr s = None" "?m = None" "\<And>host port. rsplit_once CHR '':'' s = Some (host, port) \<Longrightarrow> \<not> ?v6 host port"
    by fast
  then show thesis
  proof cases
    case 1
    then show thesis using same by (simp add: normalize_listen_addr_def)
  next
    case (2 v)
    moreover obtain t where "parse_socket_addr_v4 t = Some v" using 2(2) by (auto simp: bind_eq_Some_conv)
    then have "wf_ipv4 (fst v) \<and> snd v \<le> 65535"
      using read_socket_addr_v4_wf [of t "fst v" "snd v"] by (simp add: parse_socket_addr_v4_def parse_all_read)
    ultimately show thesis using mapped [of "fst v" "snd v"] by (simp add: normalize_listen_addr_def)
  next
    case (3 host port)
    then obtain ip where "parse_ip_addr host = Some ip" "is_ipv6 ip" by auto
    then obtain g where "parse_ip_addr host = Some (V6 g)" by (cases ip) (auto simp: is_ipv6_def)
    moreover have "normalize_listen_addr s = ''['' @ host @ '']:'' @ port"
      using 3 by (simp add: normalize_listen_addr_def)
    ultimately show thesis using bracketed 3(3) by (simp add: rsplit_once_Some)
  next
    case 4
    have "normalize_listen_addr s = s"
      using 4 by (auto simp: normalize_listen_addr_def split: option.splits)
    moreover have "parse_uint 65535 port = None \<or> parse_ip_addr host \<noteq> Some (V6 g)"
      if "s = host @ CHR '':'' # port" "CHR '':'' \<notin> set port" for host port g
      using 4(3) [of host port] that by (auto simp: rsplit_once_Some is_ipv6_def)
    ultimately show thesis using other by blast
  qed
qed

lemma listen_local: "p \<le> 65535 \<Longrightarrow> parse_socket_addr (LOCAL_HOST @ '':'' @ show_nat p) = Some (V4 (127, 0, 0, 1), p)"
  using parse_show_socket_addr_v4(2) [of "(127, 0, 0, 1)" p]
  by (simp add: LOCAL_HOST_eq show_socket_addr_v4_def wf_ipv4_def)

lemma trim_no_match: "c \<notin> set s \<Longrightarrow> trim_start_matches (\<lambda>x. x = c) s = s" "c \<notin> set s \<Longrightarrow> trim_end_matches (\<lambda>x. x = c) s = s"
proof -
  have "c \<notin> set t \<Longrightarrow> dropWhile (\<lambda>x. x = c) t = t" for t by (cases t) auto
  from this [of s] this [of "rev s"]
  show "c \<notin> set s \<Longrightarrow> trim_start_matches (\<lambda>x. x = c) s = s" "c \<notin> set s \<Longrightarrow> trim_end_matches (\<lambda>x. x = c) s = s"
    by (simp_all add: trim_start_matches_def trim_end_matches_def)
qed

lemma listen_usable:
  assumes brackets: "CHR ''['' \<notin> set arg" "CHR '']'' \<notin> set arg" and ok: "parse_server_listen_string arg = Inr addr"
  shows "parse_socket_addr addr \<noteq> None"
proof -
  let ?a = "normalize_listen_addr arg"
  obtain port where port: "check_port (last (split_on CHR '':'' ?a)) = Inr port"
    using ok by (auto simp: parse_server_listen_string_def Let_def and_then_eq_Inr)
  show ?thesis
  proof (cases "CHR '':'' \<in> set ?a")
    case False
    then have "addr = LOCAL_HOST @ '':'' @ show_nat port"
      using ok port split_on_one [of "CHR '':''" ?a] by (simp add: parse_server_listen_string_def Let_def)
    then show ?thesis using listen_local check_port_ok(5) [OF port] by simp
  next
    case True
    then have addr: "addr = ?a" and ip: "parse_ip_addr (trim_end_matches (\<lambda>c. c = CHR '']'')
        (trim_start_matches (\<lambda>c. c = CHR ''['') (take (length ?a - length (last (split_on CHR '':'' ?a)) - 1) ?a))) \<noteq> None"
      using ok port split_on_one [of "CHR '':''" ?a]
      by (auto simp: parse_server_listen_string_def Let_def split: option.splits)
    show ?thesis
    proof (cases arg rule: normalize_cases)
      case same
      then show ?thesis using addr by simp
    next
      case (mapped ip p)
      then show ?thesis using addr parse_show_socket_addr_v4(2) by simp
    next
      case (bracketed host pstr g)
      have "last (split_on CHR '':'' ?a) = pstr"
        using split_on_snoc [OF bracketed(2), of "''['' @ host @ '']''"] bracketed(1) by simp
      with port have p: "read_port (CHR '':'' # pstr) = Some (port, [])"
        using check_port_ok [OF port] read_digits by simp
      then show ?thesis using addr bracketed parse_bracketed [OF _ p] by (simp add: parse_ip_v6)
    next
      case other
      with True obtain host pstr where arg: "arg = host @ CHR '':'' # pstr" "CHR '':'' \<notin> set pstr"
        by (metis split_list_last)
      have last: "last (split_on CHR '':'' ?a) = pstr" using split_on_snoc [OF arg(2)] arg(1) other(1) by simp
      have digits: "parse_uint 65535 pstr = Some port" "read_port (CHR '':'' # pstr) = Some (port, [])"
        using check_port_ok [OF port] read_digits last by simp_all
      have "parse_ip_addr host \<noteq> None"
        using ip brackets other(1) arg(1) last by (simp add: trim_no_match)
      then obtain a where "parse_ip_addr host = Some (V4 a)"
        using other(2) [OF arg] digits(1) by (metis ip_addr.exhaust not_None_eq)
      then show ?thesis
        using addr other(1) arg(1) digits(2) read_socket_addr_v4_join [of host a pstr]
        by (simp add: parse_ip_v4 parse_socket_addr_def parse_all_def)
    qed
  qed
qed

text \<open>An IPv4-mapped address becomes the IPv4 address.\<close>

lemma lowercase_append: "to_ascii_lowercase (s @ t) = to_ascii_lowercase s @ to_ascii_lowercase t"
  by (simp add: to_ascii_lowercase_def)

lemma lowercase_digits: "to_ascii_lowercase (show_nat n) = show_nat n"
proof -
  have "digit_val c \<noteq> None \<Longrightarrow> of_char c < (65 :: nat)" for c by (auto simp: digit_val_def Let_def split: if_splits)
  then show ?thesis
    using show_nat_digits [of _ n] unfolding to_ascii_lowercase_def by (intro map_idI) (fastforce simp: Let_def)
qed

lemma lowercase_socket_addr: "to_ascii_lowercase (show_socket_addr_v4 a) = show_socket_addr_v4 a"
proof -
  have "to_ascii_lowercase ''.'' = ''.''" "to_ascii_lowercase '':'' = '':''" by code_simp+
  then show ?thesis
    by (cases a rule: prod.exhaust; cases "fst a" rule: show_ipv4.cases)
      (simp add: show_socket_addr_v4_def lowercase_append lowercase_digits del: append_Cons append_Nil)
qed

lemma no_socket_addr: "digit_val c = None \<Longrightarrow> c \<noteq> CHR ''['' \<Longrightarrow> parse_socket_addr (c # s) = None"
  by (simp add: parse_socket_addr_def parse_all_def read_socket_addr_v4_def read_ipv4_addr_def read_octet_def
      read_number_def radix_10 read_socket_addr_v6_def Let_def)

lemma normalize_mapped:
  assumes "wf_ipv4 ip" "p \<le> 65535"
  shows "normalize_listen_addr (''::ffff:'' @ show_socket_addr_v4 (ip, p)) = show_socket_addr_v4 (ip, p)"
proof -
  have low: "to_ascii_lowercase (''::ffff:'' @ t) = ''::ffff:'' @ to_ascii_lowercase t" for t
    unfolding lowercase_append by code_simp
  have none: "parse_socket_addr (''::ffff:'' @ show_socket_addr_v4 (ip, p)) = None"
    by (simp add: no_socket_addr)
  show ?thesis
    unfolding normalize_listen_addr_def none low lowercase_socket_addr strip_prefix_def
    using parse_show_socket_addr_v4(1) [OF assms] by simp
qed

section \<open>The parsed command line\<close>

text \<open>What every option leaves true of the result.\<close>

definition options_ok :: "bool \<Rightarrow> parsed_command \<Rightarrow> bool" where
  "options_ok brackets pc \<longleftrightarrow> pc_log_level pc < 7 \<and> length (pc_connect_key pc) \<le> 32
    \<and> parse_ip_addr (pc_forward_listen_ip pc) \<noteq> None
    \<and> (brackets \<or> parse_socket_addr (pc_server_addr pc) \<noteq> None)"

definition has_bracket :: "string \<Rightarrow> bool" where
  "has_bracket s \<longleftrightarrow> CHR ''['' \<in> set s \<or> CHR '']'' \<in> set s"

lemma apply_option_ok:
  assumes "apply_option opt arg pc = Inr pc'" "options_ok b pc" "b \<or> \<not> has_bracket arg"
  shows "options_ok b pc'"
proof -
  have "b \<or> parse_socket_addr a \<noteq> None" if "parse_server_listen_string arg = Inr a" for a
    using listen_usable [OF _ _ that] assms(3) by (auto simp: has_bracket_def)
  then show ?thesis
    using assms(1,2)
    by (auto simp: apply_option_def options_ok_def and_then_eq_Inr split: if_splits option.splits)
qed

lemma options_ok_default: "options_ok b parsed_default"
proof -
  have "parse_ip_addr LOCAL_HOST \<noteq> None" by code_simp
  then show ?thesis
    using listen_local [of SERVER_DEFAULT_PORT]
    by (simp add: options_ok_def parsed_default_def SERVER_DEFAULT_PORT_def)
qed

lemma extract_loop_ok:
  "extract_loop opts pc = Some (Inr pc') \<Longrightarrow> options_ok b pc \<Longrightarrow> b \<or> (\<forall>o' \<in> set opts. \<not> has_bracket o') \<Longrightarrow>
    options_ok b pc'"
proof (induction opts arbitrary: pc)
  case (Cons opt opts)
  then obtain arg pc1 where arg: "(if 2 < length opt then str_slice 2 (length opt) opt
      else Some (case opts of [] \<Rightarrow> [] | n # _ \<Rightarrow> n)) = Some arg"
    "apply_option opt arg pc = Inr pc1" "extract_loop opts pc1 = Some (Inr pc')"
    by (auto split: option.split_asm sum.split_asm)
  have "b \<or> \<not> has_bracket arg"
    using arg(1) Cons.prems(3)
    by (auto simp: str_slice_def has_bracket_def split: if_splits list.splits dest: in_set_dropD in_set_takeD)
  then have "options_ok b pc1" using apply_option_ok arg(2) Cons.prems(2) by blast
  then show ?case using Cons.IH [OF arg(3)] Cons.prems(3) by auto
qed simp

lemma parse_command_parts:
  assumes "parse_command args = Some (Inr pc)" "p = split_opt_and_cmd (tl args)"
  obtains pc0 c where "extract_global_params (pd_options p) = Some (Inr pc0)"
    "pc = pc0\<lparr>pc_command := c, pc_parameters := pd_parameters p\<rparr>"
    "c = pd_command p \<or> 2 \<le> length (pd_parameters p) \<and> pd_parameters p ! 0 = ''-''"
proof (cases "extract_global_params (pd_options p)")
  case None
  then show thesis using assms by (simp add: parse_command_def Let_def)
next
  case (Some r)
  show thesis
  proof (cases r)
    case (Inl e)
    then show thesis using assms Some by (simp add: parse_command_def Let_def)
  next
    case (Inr pc0)
    let ?c = "if pd_command p = Some UnityExecute \<and> 2 \<le> length (pd_parameters p) \<and> pd_parameters p ! 0 = ''-''
      then Some UnityExecuteEx else pd_command p"
    have "pc = pc0\<lparr>pc_command := ?c, pc_parameters := pd_parameters p\<rparr>"
      using assms Some Inr by (cases pc0) (auto simp: parse_command_def Let_def)
    then show thesis using that [of pc0 ?c] Some Inr by auto
  qed
qed

text \<open>The command and the parameters are those of the specification: the rule for \<open>shell -\<close> never applies.\<close>

lemma parse_command_spec:
  assumes "plain_words (tl args)" "parse_command args = Some (Inr pc)"
  shows "pc_command pc = pd_command (split_spec [] (tl args))"
    and "pc_parameters pc = pd_parameters (split_spec [] (tl args))"
proof -
  let ?p = "split_spec [] (tl args)"
  have dash: "2 \<le> length (pd_parameters ?p) \<Longrightarrow> pd_parameters ?p ! 0 \<noteq> ''-''"
    using split_spec_no_dash [of "[]" "tl args"] by (cases "pd_parameters ?p") auto
  from parse_command_parts [OF assms(2) split_opt_and_cmd_spec [OF assms(1), symmetric]]
  obtain pc0 c where "pc = pc0\<lparr>pc_command := c, pc_parameters := pd_parameters ?p\<rparr>"
    "c = pd_command ?p \<or> 2 \<le> length (pd_parameters ?p) \<and> pd_parameters ?p ! 0 = ''-''" by metis
  then show "pc_command pc = pd_command ?p" "pc_parameters pc = pd_parameters ?p" using dash by auto
qed

lemma parse_command_ok:
  assumes "parse_command args = Some (Inr pc)"
  shows "options_ok (\<exists>a \<in> set args. has_bracket a) pc"
proof -
  let ?p = "split_opt_and_cmd (tl args)" and ?b = "\<exists>a \<in> set args. has_bracket a"
  obtain pc0 c where pc0: "extract_loop (pd_options ?p) parsed_default = Some (Inr pc0)"
    "pc = pc0\<lparr>pc_command := c, pc_parameters := pd_parameters ?p\<rparr>"
    using parse_command_parts [OF assms refl] unfolding extract_global_params_def by metis
  have "set (pd_options ?p) \<subseteq> set args"
    by (cases args) (auto simp: split_opt_and_cmd_def Let_def split: prod.splits dest: in_set_takeD)
  then have "?b \<or> (\<forall>o' \<in> set (pd_options ?p). \<not> has_bracket o')" by auto
  then have "options_ok ?b pc0" by (rule extract_loop_ok [OF pc0(1) options_ok_default])
  then show ?thesis using pc0(2) by (simp add: options_ok_def)
qed

end
