(* ===== verification/Rust_Fs.thy ===== *)
theory Rust_Fs
  imports Rust_Io Rust_Text
begin

text \<open>
  The file system and process interface of the standard library, as far as the daemon uses it:
  \<open>File::create\<close>, \<open>File::open\<close>, \<open>write_all\<close>, \<open>read\<close>, \<open>fs::metadata\<close>, \<open>Path::file_name\<close> and
  \<open>Command::output\<close>. Files are byte lists under their path; an open file is an index into a table of
  paths and positions. What the operating system decides is part of the state: which paths cannot
  be opened, how the coming reads and writes come out, what the coming commands print.
\<close>

section \<open>Files\<close>

datatype read_outcome = ReadMax nat | ReadError string

record fs =
  fs_files :: "string \<Rightarrow> bytes option"
  fs_handles :: "(string \<times> nat) list"
  fs_deny :: "string \<Rightarrow> string option"
  fs_writes :: "(nat \<times> string) option list"
  fs_reads :: "read_outcome list"

definition file_create :: "string \<Rightarrow> (fs, nat) io" where
  "file_create path f =
    (case fs_deny f path of
       Some m \<Rightarrow> (Inl (Error OtherKind m), f)
     | None \<Rightarrow> (Inr (length (fs_handles f)),
         f\<lparr>fs_files := (fs_files f)(path \<mapsto> []), fs_handles := fs_handles f @ [(path, 0)]\<rparr>))"

definition no_such_file :: io_error where
  "no_such_file = Error NotFound ''No such file or directory (os error 2)''"

definition file_open :: "string \<Rightarrow> (fs, nat) io" where
  "file_open path f =
    (case fs_deny f path of
       Some m \<Rightarrow> (Inl (Error OtherKind m), f)
     | None \<Rightarrow>
         (case fs_files f path of
            None \<Rightarrow> (Inl no_such_file, f)
          | Some _ \<Rightarrow> (Inr (length (fs_handles f)), f\<lparr>fs_handles := fs_handles f @ [(path, 0)]\<rparr>)))"

definition file_len :: "string \<Rightarrow> (fs, nat) io" where
  "file_len path f =
    (case fs_deny f path of
       Some m \<Rightarrow> (Inl (Error OtherKind m), f)
     | None \<Rightarrow>
         (case fs_files f path of None \<Rightarrow> (Inl no_such_file, f) | Some c \<Rightarrow> (Inr (length c), f)))"

text \<open>Writing at a position overwrites what is there and extends the file, with zeros for a gap.\<close>

definition write_at :: "nat \<Rightarrow> bytes \<Rightarrow> bytes \<Rightarrow> bytes" where
  "write_at pos data c = take pos c @ replicate (pos - length c) 0 @ data @ drop (pos + length data) c"

definition contents :: "fs \<Rightarrow> string \<Rightarrow> bytes" where
  "contents f path = (case fs_files f path of None \<Rightarrow> [] | Some c \<Rightarrow> c)"

definition file_put :: "nat \<Rightarrow> bytes \<Rightarrow> fs \<Rightarrow> fs" where
  "file_put h data f =
    (case fs_handles f ! h of (path, pos) \<Rightarrow>
       f\<lparr>fs_files := (fs_files f)(path \<mapsto> write_at pos data (contents f path)),
         fs_handles := (fs_handles f)[h := (path, pos + length data)]\<rparr>)"

definition bad_descriptor :: io_error where
  "bad_descriptor = Error OtherKind ''Bad file descriptor (os error 9)''"

definition file_write_all :: "nat \<Rightarrow> bytes \<Rightarrow> (fs, unit) io" where
  "file_write_all h data f =
    (if length (fs_handles f) \<le> h then (Inl bad_descriptor, f) else
     case fs_writes f of
       Some (k, m) # ws \<Rightarrow> (Inl (Error OtherKind m), (file_put h (take k data) f)\<lparr>fs_writes := ws\<rparr>)
     | ws \<Rightarrow> (Inr (), (file_put h data f)\<lparr>fs_writes := tl ws\<rparr>))"

text \<open>
  \<open>read\<close> into a buffer of \<open>cap\<close> bytes: \<open>ReadMax k\<close> limits the coming read to \<open>k + 1\<close> bytes; an empty
  result is the end of the file.
\<close>

definition file_read :: "nat \<Rightarrow> nat \<Rightarrow> (fs, bytes) io" where
  "file_read h cap f =
    (if length (fs_handles f) \<le> h then (Inl bad_descriptor, f) else
     case fs_handles f ! h of (path, pos) \<Rightarrow>
       let get = (\<lambda>n. take n (drop pos (contents f path)));
           after = (\<lambda>n. f\<lparr>fs_handles := (fs_handles f)[h := (path, pos + length (get n))], fs_reads := tl (fs_reads f)\<rparr>)
       in case fs_reads f of
            ReadError m # _ \<Rightarrow> (Inl (Error OtherKind m), f\<lparr>fs_reads := tl (fs_reads f)\<rparr>)
          | ReadMax k # _ \<Rightarrow> (Inr (get (min cap (Suc k))), after (min cap (Suc k)))
          | [] \<Rightarrow> (Inr (get cap), after cap))"

definition file_remove :: "string \<Rightarrow> (fs, unit) io" where
  "file_remove path f =
    (case fs_deny f path of
       Some m \<Rightarrow> (Inl (Error OtherKind m), f)
     | None \<Rightarrow>
         (case fs_files f path of
            None \<Rightarrow> (Inl no_such_file, f)
          | Some _ \<Rightarrow> (Inr (), f\<lparr>fs_files := (fs_files f)(path := None)\<rparr>)))"

section \<open>Paths\<close>

text \<open>
  \<open>Path::file_name\<close>: the last component; empty components and \<open>.\<close> are not components, and a path
  that ends in \<open>..\<close> or has no component has no file name.
\<close>

definition path_file_name :: "string \<Rightarrow> string option" where
  "path_file_name p =
    (let comps = filter (\<lambda>c. c \<noteq> [] \<and> c \<noteq> ''.'') (split_on CHR ''/'' p)
     in if comps = [] \<or> last comps = ''..'' then None else Some (last comps))"

text \<open>\<open>Path::extension\<close>: what follows the last dot of the file name, unless nothing precedes that dot.\<close>

definition path_extension :: "string \<Rightarrow> string option" where
  "path_extension p =
    (case Option.bind (path_file_name p) (rsplit_once CHR ''.'') of
       None \<Rightarrow> None
     | Some (before, after) \<Rightarrow> if before = [] then None else Some after)"

text \<open>\<open>fs::remove_dir_all\<close>: the files below a directory.\<close>

definition remove_dir_all :: "string \<Rightarrow> (fs, unit) io" where
  "remove_dir_all dir f =
    (case fs_deny f dir of
       Some m \<Rightarrow> (Inl (Error OtherKind m), f)
     | None \<Rightarrow> (Inr (), f\<lparr>fs_files := (\<lambda>p. if prefix (dir @ ''/'') p then None else fs_files f p)\<rparr>))"

lemma path_file_name_safe:
  assumes "path_file_name p = Some n"
  shows "CHR ''/'' \<notin> set n \<and> n \<noteq> [] \<and> n \<noteq> ''.'' \<and> n \<noteq> ''..''"
proof -
  let ?comps = "filter (\<lambda>c. c \<noteq> [] \<and> c \<noteq> ''.'') (split_on CHR ''/'' p)"
  have n: "?comps \<noteq> []" "n = last ?comps" "n \<noteq> ''..''"
    using assms by (auto simp: path_file_name_def Let_def split: if_splits)
  then have "n \<in> set ?comps" using last_in_set [OF n(1)] by (simp only:)
  then show ?thesis using n(3) by (auto dest: split_on_parts)
qed

section \<open>Commands\<close>

text \<open>The outcome of \<open>Command::output\<close>: standard output, standard error and success, or an error.\<close>

datatype proc_result = ProcOutput bytes bytes bool | ProcFailed string

section \<open>Laws\<close>

lemma write_at_end: "write_at (length c) data c = c @ data"
  by (simp add: write_at_def)

lemma length_file_handles [simp]: "length (fs_handles (file_put h data f)) = length (fs_handles f)"
  by (simp add: file_put_def split: prod.splits)

text \<open>Writing through a handle that stands at the end of its file appends.\<close>

lemma file_put_append:
  assumes "h < length (fs_handles f)" "fs_handles f ! h = (path, length (contents f path))"
  shows "contents (file_put h data f) path = contents f path @ data"
    and "fs_handles (file_put h data f) ! h = (path, length (contents f path @ data))"
    and "p \<noteq> path \<Longrightarrow> fs_files (file_put h data f) p = fs_files f p"
  using assms by (simp_all add: file_put_def contents_def write_at_end [simplified])

text \<open>How many bytes a handle has still to read; a read that delivers something makes it smaller.\<close>

definition remaining :: "nat \<Rightarrow> fs \<Rightarrow> bytes" where
  "remaining h f = (case fs_handles f ! h of (path, pos) \<Rightarrow> drop pos (contents f path))"

lemma file_read_ok:
  assumes "file_read h cap f = (Inr got, f')" "0 < cap"
  shows "remaining h f = got @ remaining h f' \<and> (got = [] \<longleftrightarrow> remaining h f = [])
    \<and> length got \<le> cap \<and> fs_files f' = fs_files f \<and> length (fs_handles f') = length (fs_handles f)"
proof -
  obtain path pos where h: "fs_handles f ! h = (path, pos)" "h < length (fs_handles f)"
    using assms by (cases "fs_handles f ! h") (auto simp: file_read_def split: if_splits)
  define n where "n = (case fs_reads f of ReadMax k # _ \<Rightarrow> min cap (Suc k) | _ \<Rightarrow> cap)"
  have n: "0 < n" "n \<le> cap" "got = take n (drop pos (contents f path))"
    "f' = f\<lparr>fs_handles := (fs_handles f)[h := (path, pos + length got)], fs_reads := tl (fs_reads f)\<rparr>"
    using assms h by (auto simp: n_def file_read_def Let_def split: list.splits read_outcome.splits)
  have rest: "drop (pos + length got) (contents f path) = drop n (drop pos (contents f path))"
    unfolding n(3) by (cases "n \<le> length (drop pos (contents f path))") (auto simp: add.commute)
  have "contents f' path = contents f path" by (simp add: n(4) contents_def)
  then have "remaining h f' = drop n (drop pos (contents f path))"
    using h rest by (simp add: remaining_def n(4))
  moreover have "remaining h f = drop pos (contents f path)" using h by (simp add: remaining_def)
  ultimately have "remaining h f = got @ remaining h f'" using n(3) by (simp del: drop_drop)
  moreover have "got = [] \<longleftrightarrow> remaining h f = []" using h n(1,3) by (auto simp: remaining_def)
  ultimately show ?thesis using n by auto
qed

lemma file_read_no_error:
  assumes "h < length (fs_handles f)" "\<forall>m. ReadError m \<notin> set (fs_reads f)"
  shows "\<exists>got f'. file_read h cap f = (Inr got, f') \<and> (\<forall>m. ReadError m \<notin> set (fs_reads f'))"
proof -
  obtain path pos where h: "fs_handles f ! h = (path, pos)" by (cases "fs_handles f ! h")
  show ?thesis
  proof (cases "fs_reads f")
    case (Cons o1 os)
    then obtain k where "o1 = ReadMax k" using assms(2) by (cases o1) auto
    then show ?thesis using assms h Cons by (simp add: file_read_def Let_def)
  qed (use assms h in \<open>simp add: file_read_def Let_def\<close>)
qed

end
