(* ===== verification/Host_Auth.thy ===== *)
theory Host_Auth
  imports Rust_Fs Config
begin

text \<open>
  The key files of the host (\<open>hdc/src/auth.rs\<close>): where they are, loading them or generating them on
  first use, and the three uses of the key: the text sent to a device, the answer to a challenge, the
  decryption of a session key. The packages for RSA, PEM and Base64 are a record of functions; a key
  is the byte string that stands for it. The main lemma says that keys are generated once.
\<close>

section \<open>Packages and environment\<close>

record rsa_crate =
  rsa_generate :: "string + bytes"
  rsa_public_of :: "bytes \<Rightarrow> bytes"
  to_pkcs1_pem :: "bytes \<Rightarrow> string + string"
  from_pkcs1_pem :: "string \<Rightarrow> string + bytes"
  from_pkcs8_pem :: "string \<Rightarrow> string + bytes"
  to_public_key_pem :: "bytes \<Rightarrow> string + string"
  from_public_key_pem :: "string \<Rightarrow> string + bytes"
  rsa_sign_pss :: "bytes \<Rightarrow> bytes \<Rightarrow> bytes"
  rsa_decrypt_oaep :: "bytes \<Rightarrow> bytes \<Rightarrow> string + bytes"
  b64_encode :: "bytes \<Rightarrow> string"
  b64_decode :: "string \<Rightarrow> string + bytes"

record host_env =
  he_home :: "string option"
  he_userprofile :: "string option"
  he_gethostname :: "bytes option"
  he_encrypt_channel :: "string option"
  he_heartbeat :: "string option"
  he_rsa :: rsa_crate

text \<open>\<open>map_err\<close> on a message of a package.\<close>

definition map_msg :: "error_kind \<Rightarrow> string \<Rightarrow> string + 'a \<Rightarrow> 'a io_result" where
  "map_msg k text r = (case r of Inl m \<Rightarrow> Inl (Error k (text @ m)) | Inr x \<Rightarrow> Inr x)"

lemma map_msg_Inr [simp]: "map_msg k text (Inr x) = Inr x"
  by (simp add: map_msg_def)

section \<open>Files\<close>

text \<open>\<open>PathBuf::join\<close> with a relative path.\<close>

definition path_join :: "string \<Rightarrow> string \<Rightarrow> string" where
  "path_join base rel =
    (if prefix ''/'' rel then rel else if base = [] \<or> last base = CHR ''/'' then base @ rel else base @ ''/'' @ rel)"

definition path_parent :: "string \<Rightarrow> string" where
  "path_parent p = (case rsplit_once CHR ''/'' p of None \<Rightarrow> [] | Some (d, _) \<Rightarrow> if d = [] then ''/'' else d)"

definition path_exists :: "string \<Rightarrow> fs \<Rightarrow> bool" where
  "path_exists p f = (fs_deny f p = None \<and> fs_files f p \<noteq> None)"

definition read_to_string :: "string \<Rightarrow> (fs, string) io" where
  "read_to_string p f =
    (case fs_deny f p of
       Some m \<Rightarrow> (Inl (Error OtherKind m), f)
     | None \<Rightarrow>
         (case fs_files f p of
            None \<Rightarrow> (Inl no_such_file, f)
          | Some c \<Rightarrow>
              (if valid_utf8 c then Inr (of_bytes c)
               else Inl (Error InvalidData ''stream did not contain valid UTF-8''), f)))"

definition fs_write :: "string \<Rightarrow> bytes \<Rightarrow> (fs, unit) io" where
  "fs_write p data = io_bind (file_create p) (\<lambda>h. file_write_all h data)"

definition create_dir_all :: "string \<Rightarrow> (fs, unit) io" where
  "create_dir_all p f = (case fs_deny f p of Some m \<Rightarrow> (Inl (Error OtherKind m), f) | None \<Rightarrow> (Inr (), f))"

section \<open>Keys\<close>

definition get_user_key_dir :: "host_env \<Rightarrow> string io_result" where
  "get_user_key_dir env =
    (case he_home env of
       Some home \<Rightarrow> Inr (path_join home RSA_PRIKEY_PATH)
     | None \<Rightarrow>
         (case he_userprofile env of
            Some home \<Rightarrow> Inr (path_join home RSA_PRIKEY_PATH)
          | None \<Rightarrow> Inl (Error NotFound ''cannot determine home directory'')))"

definition get_private_key_path :: "host_env \<Rightarrow> string io_result" where
  "get_private_key_path env = and_then (get_user_key_dir env) (\<lambda>d. Inr (path_join d RSA_PRIKEY_NAME))"

definition get_public_key_path :: "host_env \<Rightarrow> string io_result" where
  "get_public_key_path env = and_then (get_user_key_dir env) (\<lambda>d. Inr (path_join d (RSA_PRIKEY_NAME @ ''.pub'')))"

text \<open>The name that \<open>gethostname\<close> leaves in its buffer of 256 bytes.\<close>

definition get_hostname :: "host_env \<Rightarrow> string" where
  "get_hostname env =
    (case he_gethostname env of
       None \<Rightarrow> ''unknown''
     | Some buf \<Rightarrow> from_utf8_lossy (takeWhile (\<lambda>b. b \<noteq> 0) (take 256 buf)))"

definition generate_key_pair :: "rsa_crate \<Rightarrow> string \<Rightarrow> string \<Rightarrow> (fs, bytes \<times> bytes) io" where
  "generate_key_pair R pri_path pub_path =
    io_bind (io_lift (map_msg OtherKind ''RSA key generation failed: '' (rsa_generate R))) (\<lambda>private_key.
    let public_key = rsa_public_of R private_key in
    io_bind (create_dir_all (path_parent pri_path)) (\<lambda>_.
    io_bind (io_lift (map_msg OtherKind ''PEM encode private key failed: '' (to_pkcs1_pem R private_key))) (\<lambda>pri_pem.
    io_bind (fs_write pri_path (as_bytes pri_pem)) (\<lambda>_.
    io_bind (io_lift (map_msg OtherKind ''PEM encode public key failed: '' (to_public_key_pem R public_key))) (\<lambda>pub_pem.
    io_bind (fs_write pub_path (as_bytes pub_pem)) (\<lambda>_.
    io_return (private_key, public_key)))))))"

definition parse_private_key :: "rsa_crate \<Rightarrow> string \<Rightarrow> string + bytes" where
  "parse_private_key R pem = (case from_pkcs1_pem R pem of Inr k \<Rightarrow> Inr k | Inl _ \<Rightarrow> from_pkcs8_pem R pem)"

definition load_or_generate_keys :: "host_env \<Rightarrow> (fs, bytes \<times> bytes) io" where
  "load_or_generate_keys env =
    io_bind (io_lift (get_private_key_path env)) (\<lambda>pri_path.
    io_bind (io_lift (get_public_key_path env)) (\<lambda>pub_path f.
    if path_exists pri_path f \<and> path_exists pub_path f then
      io_bind (read_to_string pri_path) (\<lambda>pri_pem.
      io_bind (read_to_string pub_path) (\<lambda>pub_pem.
      io_bind (io_lift (map_msg InvalidData ''Failed to load private key: '' (parse_private_key (he_rsa env) pri_pem)))
        (\<lambda>private_key.
      io_bind (io_lift (map_msg InvalidData ''Failed to load public key: '' (from_public_key_pem (he_rsa env) pub_pem)))
        (\<lambda>public_key. io_return (private_key, public_key))))) f
    else generate_key_pair (he_rsa env) pri_path pub_path f))"

definition get_public_key_info :: "host_env \<Rightarrow> (fs, string) io" where
  "get_public_key_info env =
    io_bind (load_or_generate_keys env) (\<lambda>(_, public_key).
    io_bind (io_lift (map_msg OtherKind ''PEM encode public key failed: '' (to_public_key_pem (he_rsa env) public_key)))
      (\<lambda>pub_pem. io_return (get_hostname env @ [HDC_HOST_DAEMON_BUF_SEPARATOR] @ pub_pem)))"

definition rsa_sign_challenge :: "host_env \<Rightarrow> string \<Rightarrow> (fs, string) io" where
  "rsa_sign_challenge env challenge =
    io_bind (load_or_generate_keys env) (\<lambda>(private_key, _).
    io_return (b64_encode (he_rsa env) (rsa_sign_pss (he_rsa env) private_key (as_bytes challenge))))"

definition decrypt_psk :: "host_env \<Rightarrow> bytes \<Rightarrow> (fs, bytes) io" where
  "decrypt_psk env encrypted =
    io_bind (load_or_generate_keys env) (\<lambda>(private_key, _).
    io_lift (map_msg InvalidData ''RSA decrypt PSK failed: '' (rsa_decrypt_oaep (he_rsa env) private_key encrypted)))"

section \<open>Keys are generated once\<close>

text \<open>The key files are in place: both readable and holding a pair of keys.\<close>

definition keys_stored :: "host_env \<Rightarrow> bytes \<Rightarrow> bytes \<Rightarrow> fs \<Rightarrow> bool" where
  "keys_stored env pri pub f \<longleftrightarrow>
    (\<exists>p q pem pub_pem. get_private_key_path env = Inr p \<and> get_public_key_path env = Inr q
      \<and> fs_deny f p = None \<and> fs_deny f q = None \<and> wf_str pem \<and> wf_str pub_pem
      \<and> fs_files f p = Some (as_bytes pem) \<and> fs_files f q = Some (as_bytes pub_pem)
      \<and> parse_private_key (he_rsa env) pem = Inr pri \<and> from_public_key_pem (he_rsa env) pub_pem = Inr pub)"

lemma load_stored: "keys_stored env pri pub f \<Longrightarrow> load_or_generate_keys env f = (Inr (pri, pub), f)"
  by (auto simp: keys_stored_def load_or_generate_keys_def path_exists_def read_to_string_def io_bind_def wf_str_def)

lemma path_join_last: "path_join d (x # n) = path_join d (y # m) \<Longrightarrow> x \<noteq> CHR ''/'' \<Longrightarrow> y \<noteq> CHR ''/'' \<Longrightarrow> x # n = y # m"
  by (auto simp: path_join_def split: if_splits)

lemma key_paths_differ:
  assumes "get_private_key_path env = Inr p" "get_public_key_path env = Inr q"
  shows "p \<noteq> q"
proof
  assume "p = q"
  then obtain d where "path_join d (''hdckey'' @ ''.pub'') = path_join d ''hdckey''"
    using assms by (auto simp: get_private_key_path_def get_public_key_path_def and_then_eq_Inr RSA_PRIKEY_NAME_def)
  from path_join_last [OF this [unfolded append_Cons]] show False by simp
qed

lemma write_at_new: "write_at 0 data [] = data"
  by (simp add: write_at_def)

lemma fs_write_ok:
  assumes "fs_deny f p = None" "fs_writes f = []"
  obtains f' where "fs_write p data f = (Inr (), f')" "fs_files f' = (fs_files f)(p \<mapsto> data)"
    "fs_deny f' = fs_deny f" "fs_writes f' = []"
  using assms
  by (auto simp: fs_write_def io_bind_def file_create_def file_write_all_def file_put_def contents_def write_at_new)

lemma generate_stores:
  assumes paths: "get_private_key_path env = Inr p" "get_public_key_path env = Inr q"
    and fs: "\<And>x. fs_deny f x = None" "fs_writes f = []" "\<not> (path_exists p f \<and> path_exists q f)"
    and gen: "rsa_generate (he_rsa env) = Inr pri" "rsa_public_of (he_rsa env) pri = pub"
      "to_pkcs1_pem (he_rsa env) pri = Inr pem" "to_public_key_pem (he_rsa env) pub = Inr pub_pem"
    and pem: "wf_str pem" "wf_str pub_pem" "from_pkcs1_pem (he_rsa env) pem = Inr pri"
      "from_public_key_pem (he_rsa env) pub_pem = Inr pub"
  obtains f' where "load_or_generate_keys env f = (Inr (pri, pub), f')" "keys_stored env pri pub f'"
proof -
  obtain f1 where f1: "fs_write p (as_bytes pem) f = (Inr (), f1)" "fs_files f1 = (fs_files f)(p \<mapsto> as_bytes pem)"
    "fs_deny f1 = fs_deny f" "fs_writes f1 = []"
    using fs_write_ok [of f p "as_bytes pem"] fs(1,2) by metis
  obtain f2 where f2: "fs_write q (as_bytes pub_pem) f1 = (Inr (), f2)"
    "fs_files f2 = (fs_files f1)(q \<mapsto> as_bytes pub_pem)" "fs_deny f2 = fs_deny f1"
    using fs_write_ok [of f1 q "as_bytes pub_pem"] fs(1) f1(3,4) by metis
  have "load_or_generate_keys env f = (Inr (pri, pub), f2)"
    using paths fs gen f1(1) f2(1)
    by (auto simp: load_or_generate_keys_def generate_key_pair_def io_bind_def create_dir_all_def Let_def)
  moreover have "keys_stored env pri pub f2"
    using paths pem fs(1) f1(2,3) f2(2,3) key_paths_differ [OF paths]
    by (auto simp: keys_stored_def parse_private_key_def)
  ultimately show thesis by (rule that)
qed

end
