(* ===== verification/Encrypt.thy ===== *)
theory Encrypt
  imports Hdc_Prelude
begin

text \<open>
  The pre-shared-key framing of \<open>crates/hdc-protocol/src/encrypt.rs\<close>. AES-128-GCM comes from
  a third-party crate and is a parameter: the record \<open>aead\<close> has its two operations, which
  return \<open>Inl\<close> with the error's debug text or \<open>Inr\<close> with the result. \<open>aead_correct\<close> is what the
  code relies on: for a 16-byte key and a 12-byte nonce, encrypting a plaintext of less than
  \<open>2 ^ 32\<close> bytes succeeds, makes it 16 bytes longer, and decrypting gives the plaintext back.
\<close>

section \<open>Definitions\<close>

record aead =
  aead_encrypt :: "bytes \<Rightarrow> bytes \<Rightarrow> bytes \<Rightarrow> string + bytes"
  aead_decrypt :: "bytes \<Rightarrow> bytes \<Rightarrow> bytes \<Rightarrow> string + bytes"

definition KEY_LEN :: nat where "KEY_LEN = 16"
definition NONCE_LEN :: nat where "NONCE_LEN = 12"
definition TAG_LEN :: nat where "TAG_LEN = 16"

definition aead_correct :: "aead \<Rightarrow> bool" where
  "aead_correct A \<longleftrightarrow>
    (\<forall>k n p. length k = KEY_LEN \<longrightarrow> length n = NONCE_LEN \<longrightarrow> length p < 2 ^ 32 \<longrightarrow>
       (\<exists>c. aead_encrypt A k n p = Inr c \<and> length c = length p + TAG_LEN
          \<and> aead_decrypt A k n c = Inr p))"

record psk_cipher =
  send_key :: bytes
  recv_key :: bytes
  send_counter :: u64
  recv_counter :: u64

definition psk_new :: "bytes \<Rightarrow> bool \<Rightarrow> psk_cipher" where
  "psk_new psk is_host =
    (let first = take KEY_LEN psk; second = take KEY_LEN (drop KEY_LEN psk) in
     if is_host
     then \<lparr>send_key = first, recv_key = second, send_counter = 0, recv_counter = 0\<rparr>
     else \<lparr>send_key = second, recv_key = first, send_counter = 0, recv_counter = 0\<rparr>)"

definition counter_to_nonce :: "u64 \<Rightarrow> bytes" where
  "counter_to_nonce counter = replicate 4 0 @ to_be 8 counter"

text \<open>\<open>Aes128Gcm::new_from_slice\<close> fails exactly on a key of another length.\<close>

definition aes_key :: "bytes \<Rightarrow> bytes io_result" where
  "aes_key k = (if length k = KEY_LEN then Inr k
     else Inl (Error OtherKind ''AES key init: InvalidLength''))"

definition psk_encrypt :: "aead \<Rightarrow> psk_cipher \<Rightarrow> bytes \<Rightarrow> bytes io_result \<times> psk_cipher" where
  "psk_encrypt A c plaintext =
    (case aes_key (send_key c) of
       Inl e \<Rightarrow> (Inl e, c)
     | Inr k \<Rightarrow>
         (case aead_encrypt A k (counter_to_nonce (send_counter c)) plaintext of
            Inl e \<Rightarrow> (Inl (Error OtherKind (''AES-GCM encrypt: '' @ e)), c)
          | Inr ct \<Rightarrow> (Inr (to_be 8 (send_counter c) @ ct), c\<lparr>send_counter := send_counter c + 1\<rparr>)))"

definition psk_decrypt :: "aead \<Rightarrow> psk_cipher \<Rightarrow> bytes \<Rightarrow> bytes io_result \<times> psk_cipher" where
  "psk_decrypt A c data =
    (if length data < 8 + TAG_LEN then (Inl (Error InvalidData ''encrypted frame too short''), c)
     else
       let counter = from_be (take 8 data) in
       case aes_key (recv_key c) of
         Inl e \<Rightarrow> (Inl e, c)
       | Inr k \<Rightarrow>
           (case aead_decrypt A k (counter_to_nonce counter) (drop 8 data) of
              Inl e \<Rightarrow> (Inl (Error InvalidData (''AES-GCM decrypt: '' @ e)), c)
            | Inr p \<Rightarrow> (Inr p, c\<lparr>recv_counter := counter + 1\<rparr>)))"

text \<open>A sequence of frames sent, or received, one after the other.\<close>

fun encrypt_all :: "aead \<Rightarrow> psk_cipher \<Rightarrow> bytes list \<Rightarrow> bytes list io_result \<times> psk_cipher" where
  "encrypt_all A c [] = (Inr [], c)"
| "encrypt_all A c (p # ps) =
    (case psk_encrypt A c p of
       (Inl e, c') \<Rightarrow> (Inl e, c')
     | (Inr f, c') \<Rightarrow>
         (case encrypt_all A c' ps of
            (Inl e, c'') \<Rightarrow> (Inl e, c'')
          | (Inr fs, c'') \<Rightarrow> (Inr (f # fs), c'')))"

fun decrypt_all :: "aead \<Rightarrow> psk_cipher \<Rightarrow> bytes list \<Rightarrow> bytes list io_result \<times> psk_cipher" where
  "decrypt_all A c [] = (Inr [], c)"
| "decrypt_all A c (f # fs) =
    (case psk_decrypt A c f of
       (Inl e, c') \<Rightarrow> (Inl e, c')
     | (Inr p, c') \<Rightarrow>
         (case decrypt_all A c' fs of
            (Inl e, c'') \<Rightarrow> (Inl e, c'')
          | (Inr ps, c'') \<Rightarrow> (Inr (p # ps), c'')))"

section \<open>Keys and nonces\<close>

text \<open>Two ciphers are peers when each sends under the key the other receives under.\<close>

definition psk_peers :: "psk_cipher \<Rightarrow> psk_cipher \<Rightarrow> bool" where
  "psk_peers a b \<longleftrightarrow> send_key a = recv_key b \<and> recv_key a = send_key b
    \<and> length (send_key a) = KEY_LEN \<and> length (recv_key a) = KEY_LEN"

lemma psk_peers_sym: "psk_peers a b \<Longrightarrow> psk_peers b a"
  by (auto simp: psk_peers_def)

lemma psk_new_peers: "length psk = 32 \<Longrightarrow> psk_peers (psk_new psk h) (psk_new psk (\<not> h))"
  by (simp add: psk_peers_def psk_new_def Let_def KEY_LEN_def)

lemma length_counter_to_nonce [simp]: "length (counter_to_nonce n) = NONCE_LEN"
  by (simp add: counter_to_nonce_def NONCE_LEN_def)

lemma counter_to_nonce_inject [simp]: "counter_to_nonce m = counter_to_nonce n \<longleftrightarrow> m = n"
  by (metis append_same_eq counter_to_nonce_def from_to_be_u64 same_append_eq)

section \<open>One frame\<close>

lemma psk_encrypt_ok:
  assumes "aead_correct A" "length (send_key c) = KEY_LEN" "length p < 2 ^ 32"
  obtains ct where
    "psk_encrypt A c p = (Inr (to_be 8 (send_counter c) @ ct), c\<lparr>send_counter := send_counter c + 1\<rparr>)"
    "length ct = length p + TAG_LEN"
    "aead_decrypt A (send_key c) (counter_to_nonce (send_counter c)) ct = Inr p"
  using assms unfolding aead_correct_def
  by (metis (no_types, lifting) aes_key_def length_counter_to_nonce old.sum.simps(6) psk_encrypt_def)

lemma psk_frame:
  assumes "aead_correct A" "psk_peers a b" "length p < 2 ^ 32"
  obtains f where
    "psk_encrypt A a p = (Inr f, a\<lparr>send_counter := send_counter a + 1\<rparr>)"
    "psk_decrypt A b f = (Inr p, b\<lparr>recv_counter := send_counter a + 1\<rparr>)"
    "length f = length p + 24"
    "take 8 f = to_be 8 (send_counter a)"
proof -
  have "length (send_key a) = KEY_LEN" using assms(2) by (auto simp: psk_peers_def)
  from psk_encrypt_ok [OF assms(1) this assms(3)] obtain ct where
    ct: "psk_encrypt A a p
      = (Inr (to_be 8 (send_counter a) @ ct), a\<lparr>send_counter := send_counter a + 1\<rparr>)"
    "length ct = length p + TAG_LEN"
    "aead_decrypt A (send_key a) (counter_to_nonce (send_counter a)) ct = Inr p" .
  moreover have "psk_decrypt A b (to_be 8 (send_counter a) @ ct)
      = (Inr p, b\<lparr>recv_counter := send_counter a + 1\<rparr>)"
    using ct assms(2) by (auto simp: psk_decrypt_def psk_peers_def aes_key_def Let_def)
  ultimately show thesis
    by (intro that [of "to_be 8 (send_counter a) @ ct"]) (simp_all add: TAG_LEN_def)
qed

section \<open>Whole conversations\<close>

lemma decrypt_encrypt_all:
  assumes "aead_correct A" "\<forall>p \<in> set ps. length p < 2 ^ 32"
  shows "psk_peers a b \<Longrightarrow> \<exists>fs a' b'. encrypt_all A a ps = (Inr fs, a')
    \<and> decrypt_all A b fs = (Inr ps, b') \<and> psk_peers a' b'
    \<and> send_counter a' = send_counter a + of_nat (length ps)
    \<and> map (take 8) fs = map (\<lambda>i. to_be 8 (send_counter a + of_nat i)) [0..<length ps]"
  using assms(2)
proof (induction ps arbitrary: a b)
  case Nil
  then show ?case by auto
next
  case (Cons p ps)
  let ?a = "a\<lparr>send_counter := send_counter a + 1\<rparr>" and ?b = "b\<lparr>recv_counter := send_counter a + 1\<rparr>"
  from Cons.prems have p: "length p < 2 ^ 32" and ps: "\<forall>p \<in> set ps. length p < 2 ^ 32" by auto
  obtain f where f: "psk_encrypt A a p = (Inr f, ?a)" "psk_decrypt A b f = (Inr p, ?b)"
    "take 8 f = to_be 8 (send_counter a)"
    using psk_frame [OF assms(1) Cons.prems(1) p] by metis
  have "psk_peers ?a ?b" using Cons.prems(1) by (auto simp: psk_peers_def)
  from Cons.IH [OF this ps] obtain fs a' b' where
    "encrypt_all A ?a ps = (Inr fs, a')" "decrypt_all A ?b fs = (Inr ps, b')" "psk_peers a' b'"
    "send_counter a' = send_counter a + 1 + of_nat (length ps)"
    "map (take 8) fs = map (\<lambda>i. to_be 8 (send_counter a + 1 + of_nat i)) [0..<length ps]"
    by auto
  moreover have "[0..<length (p # ps)] = 0 # map Suc [0..<length ps]"
    by (simp add: upt_conv_Cons map_Suc_upt del: upt_Suc)
  ultimately show ?case
    using f by (intro exI [of _ "f # fs"] exI [of _ a'] exI [of _ b'])
      (simp add: ac_simps comp_def del: upt_Suc)
qed

lemma counters_distinct:
  "n \<le> 2 ^ 64 \<Longrightarrow> distinct (map (\<lambda>i. c + of_nat i :: u64) [0..<n])"
  by (auto simp: distinct_map inj_on_def word_of_nat_eq_iff take_bit_nat_eq_self)

text \<open>Whatever the cipher does, the \<open>i\<close>-th frame carries the \<open>i\<close>-th counter value.\<close>

lemma psk_encrypt_counter:
  "psk_encrypt A c p = (Inr f, c') \<Longrightarrow>
    take 8 f = to_be 8 (send_counter c) \<and> send_counter c' = send_counter c + 1"
  by (auto simp: psk_encrypt_def split: sum.splits)

lemma encrypt_all_counters:
  "encrypt_all A c ps = (Inr fs, c') \<Longrightarrow>
    map (\<lambda>f. from_be (take 8 f)) fs = map (\<lambda>i. send_counter c + of_nat i :: u64) [0..<length ps]"
proof (induction ps arbitrary: c fs)
  case Nil
  then show ?case by simp
next
  case (Cons p ps)
  then obtain f c1 gs where *: "psk_encrypt A c p = (Inr f, c1)" "encrypt_all A c1 ps = (Inr gs, c')"
    "fs = f # gs"
    by (auto split: prod.splits sum.splits)
  have "[0..<length (p # ps)] = 0 # map Suc [0..<length ps]"
    by (simp add: upt_conv_Cons map_Suc_upt del: upt_Suc)
  then show ?case
    using Cons.IH [OF *(2)] psk_encrypt_counter [OF *(1)] *(3)
    by (simp add: ac_simps comp_def del: upt_Suc)
qed

lemma encrypt_all_nonces_distinct:
  assumes "encrypt_all A c ps = (Inr fs, c')" "length ps \<le> 2 ^ 64"
  shows "distinct (map (\<lambda>f. counter_to_nonce (from_be (take 8 f))) fs)"
proof -
  have "distinct (map (\<lambda>f. from_be (take 8 f) :: u64) fs)"
    using encrypt_all_counters [OF assms(1)] counters_distinct [OF assms(2)] by simp
  then have "distinct (map counter_to_nonce (map (\<lambda>f. from_be (take 8 f)) fs))"
    by (subst distinct_map) (simp add: inj_on_def)
  then show ?thesis by (simp add: comp_def)
qed

text \<open>
  The receive counter is written and never read: the outcome of a decryption does not depend on
  it, so a frame that was accepted once is accepted again.
\<close>

lemma psk_decrypt_counter:
  "fst (psk_decrypt A (c\<lparr>recv_counter := n\<rparr>) f) = fst (psk_decrypt A c f)"
  by (simp add: psk_decrypt_def Let_def split: sum.splits)

lemma psk_decrypt_replay:
  assumes "psk_decrypt A c f = (Inr p, c')"
  shows "fst (psk_decrypt A c' f) = Inr p"
proof -
  have "c' = c\<lparr>recv_counter := from_be (take 8 f) + 1\<rparr>"
    using assms by (auto simp: psk_decrypt_def Let_def split: sum.splits if_splits)
  then show ?thesis using assms psk_decrypt_counter by (metis fst_conv)
qed

section \<open>What a cipher keeps\<close>

lemma psk_encrypt_keys:
  "send_key (snd (psk_encrypt A c p)) = send_key c" "recv_key (snd (psk_encrypt A c p)) = recv_key c"
  by (auto simp: psk_encrypt_def split: sum.splits)

lemma psk_encrypt_recv:
  "psk_encrypt A (c\<lparr>recv_counter := n\<rparr>) p
    = (fst (psk_encrypt A c p), (snd (psk_encrypt A c p))\<lparr>recv_counter := n\<rparr>)"
  by (simp add: psk_encrypt_def split: sum.splits)

lemma psk_decrypt_frame: "\<exists>n. snd (psk_decrypt A c f) = c\<lparr>recv_counter := n\<rparr>"
proof -
  have "\<exists>n. c = c\<lparr>recv_counter := n\<rparr>" by (rule exI [of _ "recv_counter c"]) simp
  then show ?thesis by (auto simp: psk_decrypt_def Let_def split: sum.splits)
qed

end
