(* ===== verification/Tcp_Transport.thy ===== *)
theory Tcp_Transport
  imports Packet Encrypt Rust_Io
begin

text \<open>
  The TCP transport of both ends: \<open>hdc/src/transfer/tcp.rs\<close> (host), \<open>hdcd/src/transfer/tcp.rs\<close>
  (daemon, with the table of session ciphers), and the frame readers of \<open>hdc/src/server.rs\<close>.
  The lemmas show that a message sent by one end is read back by the other however the network
  cuts the stream into segments, in the clear and encrypted, one at a time and in sequence.
\<close>

section \<open>Host transport\<close>

definition read_frame :: "nat \<Rightarrow> (tcp_in, bytes) io" where
  "read_frame expected_size =
    (if expected_size = 0 then io_return []
     else fill_loop (\<lambda>e. Error OtherKind (''read tcp failed: '' @ err_message e))
            (Error ConnectionAborted ''peer shutdown'') [] expected_size)"

text \<open>The size check that the receivers apply to a payload head.\<close>

definition check_sizes :: "payload_head \<Rightarrow> (nat \<times> nat) io_result" where
  "check_sizes head =
    (let hsz = unat (ph_head_size head); dsz = unat (ph_data_size head) in
     if hsz + dsz = 0 \<or> HDC_BUF_MAX_SIZE < hsz + dsz
     then Inl (Error InvalidData ''Packet size incorrect'') else Inr (hsz, dsz))"

definition host_unpack_task_message :: "(tcp_in, task_message) io" where
  "host_unpack_task_message =
    io_bind (read_frame HEAD_SIZE) (\<lambda>data.
    io_bind (io_lift (unpack_payload_head data)) (\<lambda>payload_head.
    io_bind (io_lift (check_sizes payload_head)) (\<lambda>(hsz, dsz).
    io_bind (read_frame hsz) (\<lambda>data.
    io_bind (io_lift (unpack_payload_protect data)) (\<lambda>payload_protect.
    io_bind (io_lift (command_of payload_protect)) (\<lambda>command.
    io_bind (read_frame dsz) (\<lambda>payload.
    io_return \<lparr>tm_channel_id = pp_channel_id payload_protect, tm_command = command,
      tm_payload = payload\<rparr>)))))))"

definition recv_channel_message :: "(tcp_in, bytes) io" where
  "recv_channel_message =
    io_bind (read_frame 4) (\<lambda>data. read_frame (unat (from_be data :: u32)))"

definition send_channel_message :: "bytes \<Rightarrow> (tcp_out, unit) io" where
  "send_channel_message data =
    io_bind (tcp_write_all (to_be 4 (of_nat (length data) :: u32))) (\<lambda>_. tcp_write_all data)"

section \<open>Frame readers of the server\<close>

text \<open>The server's own copy of \<open>recv_channel_message\<close> uses \<open>read_exact\<close>.\<close>

definition server_recv_channel_message :: "(tcp_in, bytes) io" where
  "server_recv_channel_message =
    io_bind (tcp_read_exact 4) (\<lambda>len_buf. tcp_read_exact (unat (from_be len_buf :: u32)))"

text \<open>Unlike the other receivers this one has no size check.\<close>

definition recv_raw_hdc_frame :: "(tcp_in, bytes) io" where
  "recv_raw_hdc_frame =
    io_bind (read_frame HEAD_SIZE) (\<lambda>head.
    io_bind (io_lift (unpack_payload_head head)) (\<lambda>payload_head.
    io_bind (read_frame (unat (ph_head_size payload_head))) (\<lambda>protect.
    io_bind (read_frame (unat (ph_data_size payload_head))) (\<lambda>payload.
    io_return (head @ protect @ payload)))))"

text \<open>A state component: run an operation on the reader, or on the cipher, of a pair.\<close>

definition on_fst :: "('a, 'r) io \<Rightarrow> ('a \<times> 'b, 'r) io" where
  "on_fst m s = (case m (fst s) of (r, a') \<Rightarrow> (r, (a', snd s)))"

definition recv_tcp_frame :: "aead \<Rightarrow> (tcp_in \<times> psk_cipher option, bytes) io" where
  "recv_tcp_frame A s =
    (case snd s of
       Some cipher \<Rightarrow>
         io_bind (on_fst (read_frame 4)) (\<lambda>len_bytes.
         io_bind (on_fst (read_frame (unat (from_be len_bytes :: u32)))) (\<lambda>ct s'.
           case psk_decrypt A cipher ct of (r, cipher') \<Rightarrow> (r, (fst s', Some cipher')))) s
     | None \<Rightarrow> on_fst recv_raw_hdc_frame s)"

section \<open>Daemon transport\<close>

text \<open>
  \<open>SESSION_CIPHERS\<close>, the connection's reader and its writer. The cipher of a session is shared
  by the two directions; its counters are updated in the table.
\<close>

record link =
  link_ciphers :: "u32 \<Rightarrow> psk_cipher option"
  link_in :: tcp_in
  link_out :: tcp_out

definition set_session_cipher :: "u32 \<Rightarrow> psk_cipher \<Rightarrow> link \<Rightarrow> link" where
  "set_session_cipher session_id cipher l = l\<lparr>link_ciphers := (link_ciphers l)(session_id \<mapsto> cipher)\<rparr>"

definition remove_session_cipher :: "u32 \<Rightarrow> link \<Rightarrow> link" where
  "remove_session_cipher session_id l = l\<lparr>link_ciphers := (link_ciphers l)(session_id := None)\<rparr>"

definition get_session_cipher :: "u32 \<Rightarrow> link \<Rightarrow> psk_cipher option" where
  "get_session_cipher session_id l = link_ciphers l session_id"

definition on_in :: "(tcp_in, 'r) io \<Rightarrow> (link, 'r) io" where
  "on_in m l = (case m (link_in l) of (r, i) \<Rightarrow> (r, l\<lparr>link_in := i\<rparr>))"

definition on_out :: "(tcp_out, 'r) io \<Rightarrow> (link, 'r) io" where
  "on_out m l = (case m (link_out l) of (r, out) \<Rightarrow> (r, l\<lparr>link_out := out\<rparr>))"

definition recv_raw_frame :: "(tcp_in, bytes) io" where
  "recv_raw_frame =
    io_bind (read_frame HEAD_SIZE) (\<lambda>head.
    io_bind (io_lift (unpack_payload_head head)) (\<lambda>payload_head.
    io_bind (io_lift (check_sizes payload_head)) (\<lambda>(hsz, dsz).
    io_bind (read_frame hsz) (\<lambda>protect.
    io_bind (read_frame dsz) (\<lambda>payload.
    io_return (head @ protect @ payload))))))"

definition daemon_unpack_task_message :: "aead \<Rightarrow> u32 \<Rightarrow> (link, task_message) io" where
  "daemon_unpack_task_message A session_id l =
    io_bind
      (case get_session_cipher session_id l of
         Some cipher \<Rightarrow>
           io_bind (on_in (read_frame 4)) (\<lambda>len_bytes.
           io_bind (on_in (read_frame (unat (from_be len_bytes :: u32)))) (\<lambda>ct l'.
             case psk_decrypt A cipher ct of (r, cipher') \<Rightarrow> (r, set_session_cipher session_id cipher' l')))
       | None \<Rightarrow> on_in recv_raw_frame)
      (\<lambda>frame. io_lift (unpack_task_message frame)) l"

definition daemon_send_message :: "aead \<Rightarrow> u32 \<Rightarrow> task_message \<Rightarrow> (link, unit) io" where
  "daemon_send_message A session_id msg l =
    (let data = concat_pack msg in
     case get_session_cipher session_id l of
       Some cipher \<Rightarrow>
         (case psk_encrypt A cipher data of
            (Inl e, cipher') \<Rightarrow> (Inl e, set_session_cipher session_id cipher' l)
          | (Inr ct, cipher') \<Rightarrow>
              io_bind (on_out (tcp_write_all (to_be 4 (of_nat (length ct) :: u32))))
                (\<lambda>_. on_out (tcp_write_all ct)) (set_session_cipher session_id cipher' l))
     | None \<Rightarrow> on_out (tcp_write_all data) l)"

section \<open>Reading frames\<close>

text \<open>How \<open>read_frame\<close> ends when the stream is too short.\<close>

lemma read_frame_short:
  assumes "in_ok s" "length (in_contents s) < n"
  shows "fst (read_frame n s) = Inl (case in_end s of
      Eof \<Rightarrow> Error ConnectionAborted ''peer shutdown''
    | ReadFailed m \<Rightarrow> Error OtherKind (''read tcp failed: '' @ m))"
  using fill_loop_short [of s "[]" n] assms
  by (cases "in_end s") (simp_all add: read_frame_def)

interpretation frame_source: byte_source read_frame in_contents in_ok
proof
  fix s xs ys assume "in_ok s" "in_contents s = xs @ ys"
  then show "\<exists>s'. read_frame (length xs) s = (Inr xs, s') \<and> in_contents s' = ys \<and> in_ok s'"
    using fill_loop_exact [of s xs ys "length xs" "[]"] by (simp add: read_frame_def)
next
  fix s n assume "in_ok s" "length (in_contents s) < n"
  then show "\<exists>e s'. read_frame n s = (Inl e, s')"
    using read_frame_short [of s n] by (metis prod.collapse)
qed

text \<open>The three parts of a packet, read one after the other.\<close>

lemma check_sizes_packet:
  assumes "wf_task_message msg"
  shows "check_sizes (packet_head msg)
    = Inr (length (serialize_payload_protect (packet_protect msg)), length (tm_payload msg))"
  using assms packet_head_sizes [OF assms] packet_protect_length [of msg]
  by (auto simp: check_sizes_def Let_def wf_task_message_def HDC_BUF_MAX_SIZE_def)

lemma read_packet_parts:
  assumes "in_ok s" "in_contents s = concat_pack msg @ ys"
  obtains s1 s2 s3 where
    "read_frame HEAD_SIZE s = (Inr (serialize_payload_head (packet_head msg)), s1)"
    "read_frame (length (serialize_payload_protect (packet_protect msg))) s1
      = (Inr (serialize_payload_protect (packet_protect msg)), s2)"
    "read_frame (length (tm_payload msg)) s2 = (Inr (tm_payload msg), s3)"
    "in_contents s3 = ys" "in_ok s3"
proof -
  have "in_contents s = serialize_payload_head (packet_head msg)
      @ serialize_payload_protect (packet_protect msg) @ tm_payload msg @ ys"
    using assms(2) by (simp add: concat_pack_parts)
  from frame_source.get_exact [OF assms(1) this] obtain s1 where
    s1: "read_frame HEAD_SIZE s = (Inr (serialize_payload_head (packet_head msg)), s1)"
    "in_contents s1 = serialize_payload_protect (packet_protect msg) @ tm_payload msg @ ys" "in_ok s1"
    by (auto simp: HEAD_SIZE_def)
  from frame_source.get_exact [OF s1(3,2)] obtain s2 where
    s2: "read_frame (length (serialize_payload_protect (packet_protect msg))) s1
      = (Inr (serialize_payload_protect (packet_protect msg)), s2)"
    "in_contents s2 = tm_payload msg @ ys" "in_ok s2"
    by auto
  from frame_source.get_exact [OF s2(3,2)] s1 s2 show thesis
    using that by blast
qed

lemma unpack_payload_head_exact:
  "unpack_payload_head (serialize_payload_head (packet_head msg)) = Inr (packet_head msg)"
  using unpack_payload_head_packet [of msg "[]"] by simp

lemmas packet_eval = io_bind_def unpack_payload_head_exact check_sizes_packet
  unpack_payload_protect_packet packet_head_sizes

lemma host_unpack_message:
  assumes "wf_task_message msg" "in_ok s" "in_contents s = concat_pack msg @ ys"
  shows "\<exists>s'. host_unpack_task_message s = (Inr msg, s') \<and> in_contents s' = ys \<and> in_ok s'"
proof -
  obtain s1 s2 s3 where parts:
    "read_frame HEAD_SIZE s = (Inr (serialize_payload_head (packet_head msg)), s1)"
    "read_frame (length (serialize_payload_protect (packet_protect msg))) s1
      = (Inr (serialize_payload_protect (packet_protect msg)), s2)"
    "read_frame (length (tm_payload msg)) s2 = (Inr (tm_payload msg), s3)"
    "in_contents s3 = ys" "in_ok s3"
    using read_packet_parts [OF assms(2,3)] .
  then show ?thesis
    using assms(1) by (simp add: host_unpack_task_message_def packet_eval)
qed

lemma recv_raw_frame_packet:
  assumes "wf_task_message msg" "in_ok s" "in_contents s = concat_pack msg @ ys"
  shows "\<exists>s'. recv_raw_frame s = (Inr (concat_pack msg), s') \<and> in_contents s' = ys \<and> in_ok s'"
    and "\<exists>s'. recv_raw_hdc_frame s = (Inr (concat_pack msg), s') \<and> in_contents s' = ys \<and> in_ok s'"
proof -
  obtain s1 s2 s3 where parts:
    "read_frame HEAD_SIZE s = (Inr (serialize_payload_head (packet_head msg)), s1)"
    "read_frame (length (serialize_payload_protect (packet_protect msg))) s1
      = (Inr (serialize_payload_protect (packet_protect msg)), s2)"
    "read_frame (length (tm_payload msg)) s2 = (Inr (tm_payload msg), s3)"
    "in_contents s3 = ys" "in_ok s3"
    using read_packet_parts [OF assms(2,3)] .
  then show "\<exists>s'. recv_raw_frame s = (Inr (concat_pack msg), s') \<and> in_contents s' = ys \<and> in_ok s'"
    using assms(1) by (simp add: recv_raw_frame_def packet_eval concat_pack_parts)
  from parts show "\<exists>s'. recv_raw_hdc_frame s = (Inr (concat_pack msg), s') \<and> in_contents s' = ys \<and> in_ok s'"
    using assms(1) by (simp add: recv_raw_hdc_frame_def packet_eval concat_pack_parts)
qed

section \<open>Channel messages\<close>

definition channel_frame :: "bytes \<Rightarrow> bytes" where
  "channel_frame data = to_be 4 (of_nat (length data) :: u32) @ data"

lemma send_channel_message_ok:
  assumes "send_channel_message data w = (Inr u, w')"
  shows "out_bytes w' = out_bytes w @ channel_frame data"
  using assms
  by (auto simp: send_channel_message_def io_bind_eq_Inr channel_frame_def
      dest!: tcp_write_all_ok)

lemma recv_channel_frame:
  assumes "in_ok s" "length data < 2 ^ 32" "in_contents s = channel_frame data @ ys"
  shows "\<exists>s'. recv_channel_message s = (Inr data, s') \<and> in_contents s' = ys \<and> in_ok s'"
    and "\<exists>s'. server_recv_channel_message s = (Inr data, s') \<and> in_contents s' = ys \<and> in_ok s'"
  unfolding recv_channel_message_def server_recv_channel_message_def
  using frame_source.get_prefixed [OF assms(1,2), of ys] exact_source.get_prefixed [OF assms(1,2), of ys]
    assms(3) by (simp_all add: channel_frame_def)

section \<open>Encrypted frames\<close>

lemma daemon_recv_clear:
  assumes "get_session_cipher sid l = None" "wf_task_message msg"
    and "in_ok (link_in l)" "in_contents (link_in l) = concat_pack msg @ ys"
  shows "\<exists>l'. daemon_unpack_task_message A sid l = (Inr msg, l')
    \<and> in_contents (link_in l') = ys \<and> in_ok (link_in l') \<and> link_ciphers l' = link_ciphers l"
proof -
  obtain s' where "recv_raw_frame (link_in l) = (Inr (concat_pack msg), s')"
    "in_contents s' = ys" "in_ok s'"
    using recv_raw_frame_packet(1) [OF assms(2-4)] by blast
  moreover have "unpack_task_message (concat_pack msg) = Inr msg"
    by (rule packet_codec.round_trip [OF assms(2)])
  ultimately show ?thesis
    using assms(1) by (simp add: daemon_unpack_task_message_def on_in_def io_bind_def)
qed

text \<open>What the sender writes under a cipher: the length-prefixed encrypted packet.\<close>

lemma daemon_recv_encrypted:
  assumes "get_session_cipher sid l = Some c" "psk_decrypt A c ct = (Inr (concat_pack msg), c')"
    and "wf_task_message msg" "length ct < 2 ^ 32"
    and "in_ok (link_in l)" "in_contents (link_in l) = channel_frame ct @ ys"
  shows "\<exists>l'. daemon_unpack_task_message A sid l = (Inr msg, l')
    \<and> in_contents (link_in l') = ys \<and> in_ok (link_in l') \<and> get_session_cipher sid l' = Some c'"
proof -
  obtain s1 where s1: "read_frame 4 (link_in l) = (Inr (to_be 4 (of_nat (length ct) :: u32)), s1)"
    "in_contents s1 = ct @ ys" "in_ok s1"
    using frame_source.get_exact [OF assms(5), of "to_be 4 (of_nat (length ct) :: u32)" "ct @ ys"]
      assms(6) by (auto simp: channel_frame_def)
  obtain s2 where s2: "read_frame (length ct) s1 = (Inr ct, s2)" "in_contents s2 = ys" "in_ok s2"
    using frame_source.get_exact [OF s1(3,2)] by blast
  have "unat (of_nat (length ct) :: u32) = length ct"
    using assms(4) by (simp add: unat_of_nat)
  moreover have "unpack_task_message (concat_pack msg) = Inr msg"
    by (rule packet_codec.round_trip [OF assms(3)])
  ultimately show ?thesis
    using assms(1,2) s1 s2
    by (simp add: daemon_unpack_task_message_def on_in_def io_bind_def set_session_cipher_def
        get_session_cipher_def)
qed

lemma daemon_send_clear:
  assumes "get_session_cipher sid l = None" "daemon_send_message A sid msg l = (Inr u, l')"
  shows "out_bytes (link_out l') = out_bytes (link_out l) @ concat_pack msg"
  using assms by (auto simp: daemon_send_message_def on_out_def Let_def
      split: prod.splits dest!: tcp_write_all_ok)

lemma daemon_send_encrypted:
  assumes "get_session_cipher sid l = Some c" "daemon_send_message A sid msg l = (Inr u, l')"
  obtains ct c' where "psk_encrypt A c (concat_pack msg) = (Inr ct, c')"
    "out_bytes (link_out l') = out_bytes (link_out l) @ channel_frame ct"
    "get_session_cipher sid l' = Some c'"
  using assms
  by (auto simp: daemon_send_message_def on_out_def Let_def io_bind_eq_Inr channel_frame_def
      set_session_cipher_def get_session_cipher_def
      split: prod.splits sum.splits dest!: tcp_write_all_ok intro!: that)

lemma host_recv_encrypted:
  assumes "psk_decrypt A c ct = (Inr data, c')" "length ct < 2 ^ 32"
    and "in_ok i" "in_contents i = channel_frame ct @ ys"
  shows "\<exists>i'. recv_tcp_frame A (i, Some c) = (Inr data, (i', Some c'))
    \<and> in_contents i' = ys \<and> in_ok i'"
proof -
  obtain s1 where s1: "read_frame 4 i = (Inr (to_be 4 (of_nat (length ct) :: u32)), s1)"
    "in_contents s1 = ct @ ys" "in_ok s1"
    using frame_source.get_exact [OF assms(3), of "to_be 4 (of_nat (length ct) :: u32)" "ct @ ys"]
      assms(4) by (auto simp: channel_frame_def)
  obtain s2 where s2: "read_frame (length ct) s1 = (Inr ct, s2)" "in_contents s2 = ys" "in_ok s2"
    using frame_source.get_exact [OF s1(3,2)] by blast
  have "unat (of_nat (length ct) :: u32) = length ct"
    using assms(2) by (simp add: unat_of_nat)
  then show ?thesis
    using assms(1) s1 s2 by (simp add: recv_tcp_frame_def on_fst_def io_bind_def)
qed

section \<open>Progress\<close>

text \<open>A frame that was read was taken off the connection.\<close>

lemma fill_loop_consumes:
  "fill_loop wrap eof data n s = (Inr x, s') \<Longrightarrow>
    length (in_contents s) = length (in_contents s') + (n - length data)"
proof (induction wrap eof data n s rule: fill_loop.induct)
  case (1 wrap eof data n s)
  show ?case
  proof (cases "length data < n")
    case True
    obtain r s1 where read: "tcp_read (n - length data) s = (r, s1)" by (cases "tcp_read (n - length data) s")
    then obtain got where got: "r = Inr got" "got \<noteq> []"
      "fill_loop wrap eof (data @ got) n s1 = (Inr x, s')"
      using "1.prems" True by (cases r) (auto simp: fill_loop.simps [of wrap eof data] split: if_splits)
    have "length (in_contents s) = length got + length (in_contents s1)" "length got \<le> n - length data"
      using read got(1,2)
      by (auto simp: tcp_read_def in_contents_def split: list.splits tcp_end.splits if_splits)
    then show ?thesis
      using "1.IH" [OF True read [symmetric] got(1,2,3)] by simp
  next
    case False
    then show ?thesis using "1.prems" by (simp add: fill_loop.simps [of wrap eof data])
  qed
qed

lemma read_frame_consumes:
  "read_frame n s = (Inr x, s') \<Longrightarrow> length (in_contents s) = length (in_contents s') + n"
  by (auto simp: read_frame_def split: if_splits dest: fill_loop_consumes)

lemma recv_raw_frame_consumes:
  "recv_raw_frame s = (Inr x, s') \<Longrightarrow> length (in_contents s') < length (in_contents s)"
  by (auto simp: recv_raw_frame_def io_bind_eq_Inr io_lift_def HEAD_SIZE_def split: prod.splits dest!: read_frame_consumes)

end
