(* ===== verification/Rust_Map.thy ===== *)
theory Rust_Map
  imports Main
begin

text \<open>
  \<open>HashMap\<close> where the program iterates over it. A table is the association list of its entries in
  the order in which an iteration meets them; since theorems speak about every list, they hold for
  every order. The locale \<open>key_table\<close> is the interface that the clients of a table use.
\<close>

section \<open>Operations\<close>

definition hm_insert :: "'k \<Rightarrow> 'v \<Rightarrow> ('k \<times> 'v) list \<Rightarrow> ('k \<times> 'v) list" where
  "hm_insert k v m = (k, v) # filter (\<lambda>p. fst p \<noteq> k) m"

definition hm_remove :: "'k \<Rightarrow> ('k \<times> 'v) list \<Rightarrow> ('k \<times> 'v) list" where
  "hm_remove k m = filter (\<lambda>p. fst p \<noteq> k) m"

definition hm_retain :: "('k \<Rightarrow> 'v \<Rightarrow> bool) \<Rightarrow> ('k \<times> 'v) list \<Rightarrow> ('k \<times> 'v) list" where
  "hm_retain P m = filter (\<lambda>(k, v). P k v) m"

text \<open>\<open>get_mut\<close> followed by an assignment.\<close>

definition hm_modify :: "'k \<Rightarrow> ('v \<Rightarrow> 'v) \<Rightarrow> ('k \<times> 'v) list \<Rightarrow> ('k \<times> 'v) list" where
  "hm_modify k f m = map (\<lambda>(j, v). (j, if j = k then f v else v)) m"

definition hm_ok :: "('k \<times> 'v) list \<Rightarrow> bool" where
  "hm_ok m \<longleftrightarrow> distinct (map fst m)"

section \<open>Interface\<close>

locale key_table =
  fixes get :: "'t \<Rightarrow> 'k \<Rightarrow> 'v option"
    and insert :: "'k \<Rightarrow> 'v \<Rightarrow> 't \<Rightarrow> 't"
    and remove :: "'k \<Rightarrow> 't \<Rightarrow> 't"
    and ok :: "'t \<Rightarrow> bool"
  assumes get_insert: "get (insert k v t) j = (if j = k then Some v else get t j)"
    and get_remove: "get (remove k t) j = (if j = k then None else get t j)"
    and ok_insert: "ok t \<Longrightarrow> ok (insert k v t)"
    and ok_remove: "ok t \<Longrightarrow> ok (remove k t)"
begin

text \<open>A key that was inserted and removed again is as if it had never been there.\<close>

lemma remove_insert: "get (remove k (insert k v t)) = get (remove k t)"
  by (rule ext) (simp add: get_insert get_remove)

text \<open>After any list of insertions a lookup gives the last one of its key.\<close>

lemma get_fold_insert:
  "get (fold (\<lambda>(k, v). insert k v) kvs t) j
    = (case map_of (rev kvs) j of None \<Rightarrow> get t j | Some v \<Rightarrow> Some v)"
  by (induction kvs arbitrary: t) (auto simp: get_insert split: option.splits)

lemma ok_fold_insert: "ok t \<Longrightarrow> ok (fold (\<lambda>(k, v). insert k v) kvs t)"
  by (induction kvs arbitrary: t) (auto simp: ok_insert)

text \<open>After any list of removals exactly the keys of the list are gone.\<close>

lemma get_fold_remove: "get (fold remove ks t) j = (if j \<in> set ks then None else get t j)"
  by (induction ks arbitrary: t) (auto simp: get_remove)

end

section \<open>Laws\<close>

lemma map_of_filter_key: "map_of (filter (\<lambda>p. fst p \<noteq> k) m) j = (if j = k then None else map_of m j)"
  by (induction m) auto

lemma hm_ok_filter [intro]: "hm_ok m \<Longrightarrow> hm_ok (filter P m)"
  by (simp add: hm_ok_def distinct_map_filter)

interpretation hm: key_table map_of hm_insert hm_remove hm_ok
  by unfold_locales
    (auto simp: hm_insert_def hm_remove_def map_of_filter_key hm_ok_def distinct_map_filter)

declare hm.get_insert [simp] hm.get_remove [simp]

text \<open>A table given by its lookup function.\<close>

interpretation fm: key_table "\<lambda>m. m" "\<lambda>k v m. m(k \<mapsto> v)" "\<lambda>k m. m(k := None)" "\<lambda>_. True"
  by unfold_locales auto

lemma hm_get_retain:
  assumes "hm_ok m"
  shows "map_of (hm_retain P m) k
    = (case map_of m k of None \<Rightarrow> None | Some v \<Rightarrow> if P k v then Some v else None)"
  using assms
proof (induction m)
  case (Cons p m)
  obtain j v where p: "p = (j, v)" by (cases p)
  have "map_of (filter (\<lambda>(k, v). P k v) m) j = None"
    using Cons.prems p by (force simp: hm_ok_def map_of_eq_None_iff)
  then show ?case
    using Cons p by (auto simp: hm_retain_def hm_ok_def)
qed (simp add: hm_retain_def)

lemma hm_get_modify: "map_of (hm_modify k f m) j = (if j = k then map_option f (map_of m j) else map_of m j)"
  by (induction m) (auto simp: hm_modify_def)

lemma keys_hm_modify [simp]: "map fst (hm_modify k f m) = map fst m"
  by (simp add: hm_modify_def case_prod_beta)

lemma hm_ok_ops [intro]:
  "hm_ok m \<Longrightarrow> hm_ok (hm_insert k v m)" "hm_ok m \<Longrightarrow> hm_ok (hm_remove k m)"
  "hm_ok m \<Longrightarrow> hm_ok (hm_retain P m)" "hm_ok m \<Longrightarrow> hm_ok (hm_modify k f m)"
  using hm.ok_insert hm.ok_remove by (auto simp: hm_retain_def hm_ok_def distinct_map_filter case_prod_beta)

lemma hm_ok_Nil [simp]: "hm_ok []"
  by (simp add: hm_ok_def)

lemma length_hm_retain: "length (hm_retain P m) = length m \<longleftrightarrow> (\<forall>(k, v) \<in> set m. P k v)"
  unfolding hm_retain_def using length_filter_less [of _ m] by (metis filter_True nat_less_le)

end
