(* ===== verification/Server_Maps.thy ===== *)
theory Server_Maps
  imports Tcp_Transport Rust_Map Rust_Str
begin

text \<open>
  The tables of the host server (\<open>hdc/src/server.rs\<close>): the devices it knows (\<open>ConnectMap\<close>), the TCP
  writers of sessions and client channels (\<open>TcpMap\<close>), and the queues of USB sessions and of waiting
  tasks (\<open>UsbMap\<close>). Tables that the code iterates over are association lists; the others are maps.
  A client sees a closed channel as the end of its stream: \<open>closed_channels\<close> keeps what had been
  written to it.
\<close>

section \<open>Devices\<close>

record daemon_info =
  di_session_id :: u32
  di_conn_type :: connect_type
  di_conn_status :: conn_status
  di_dev_name :: string
  di_version :: string

type_synonym connect_map = "(string \<times> daemon_info) list"

definition cm_put :: "string \<Rightarrow> daemon_info \<Rightarrow> connect_map \<Rightarrow> connect_map" where
  "cm_put connect_key info m = hm_insert connect_key info m"

definition cm_remove :: "string \<Rightarrow> connect_map \<Rightarrow> connect_map" where
  "cm_remove connect_key m = hm_remove connect_key m"

definition cm_contains_key :: "string \<Rightarrow> connect_map \<Rightarrow> bool" where
  "cm_contains_key connect_key m = (map_of m connect_key \<noteq> None)"

definition cm_update_status :: "string \<Rightarrow> conn_status \<Rightarrow> connect_map \<Rightarrow> connect_map" where
  "cm_update_status connect_key status m = hm_modify connect_key (\<lambda>info. info\<lparr>di_conn_status := status\<rparr>) m"

definition is_connected :: "string \<times> daemon_info \<Rightarrow> bool" where
  "is_connected e = (di_conn_status (snd e) = Connected)"

definition cm_get_session_id :: "string \<Rightarrow> connect_map \<Rightarrow> u32 option" where
  "cm_get_session_id connect_key m =
    (if connect_key = ''any'' then
       (case find is_connected m of
          Some e \<Rightarrow> Some (di_session_id (snd e))
        | None \<Rightarrow> if length m = 1 then Some (di_session_id (snd (hd m))) else None)
     else map_option di_session_id (map_of m connect_key))"

definition cm_get_connect_key :: "u32 \<Rightarrow> connect_map \<Rightarrow> string option" where
  "cm_get_connect_key session_id m = map_option fst (find (\<lambda>e. di_session_id (snd e) = session_id) m)"

fun conn_type_name :: "connect_type \<Rightarrow> string" where
  "conn_type_name Tcp = ''TCP''"
| "conn_type_name (Usb _) = ''USB''"
| "conn_type_name Uart = ''UART''"
| "conn_type_name Bt = ''BT''"
| "conn_type_name (HostUsb _) = ''HOSTUSB''"
| "conn_type_name Bridge = ''BRIDGE''"

fun status_name :: "conn_status \<Rightarrow> string" where
  "status_name Ready = ''Ready''"
| "status_name Connected = ''Connected''"
| "status_name Offline = ''Offline''"
| "status_name Unauthorized = ''Unauthorized''"

definition TAB :: char where "TAB = CHR 0x09"

definition device_line :: "string \<times> daemon_info \<Rightarrow> string" where
  "device_line e =
    (case e of (key, info) \<Rightarrow>
       key @ [TAB, TAB] @ conn_type_name (di_conn_type info) @ [TAB] @ status_name (di_conn_status info) @ [TAB]
       @ (if di_dev_name info = [] then ''unknown...'' else di_dev_name info))"

definition cm_get_list :: "bool \<Rightarrow> connect_map \<Rightarrow> string list" where
  "cm_get_list is_full m = (if is_full then map device_line m else map fst (filter is_connected m))"

definition cm_get_first_connected_key :: "connect_map \<Rightarrow> string option" where
  "cm_get_first_connected_key m = map_option fst (find is_connected m)"

definition resolve_connect_key :: "connect_map \<Rightarrow> string \<Rightarrow> string io_result" where
  "resolve_connect_key m connect_key =
    (if connect_key = ''any'' then
       (case filter (contains_str ''Connected'') (cm_get_list True m) of
          [] \<Rightarrow> Inl (Error NotFound ''No device connected'')
        | [line] \<Rightarrow> Inr (hd (split_on TAB line))
        | connected \<Rightarrow> Inl (Error NotFound
            (''Multiple devices connected, please specify target with -t option:'' @ [CHR 0x0A]
             @ join [CHR 0x0A] connected)))
     else Inr connect_key)"

definition resolve_session_id :: "connect_map \<Rightarrow> string \<Rightarrow> u32 io_result" where
  "resolve_session_id m connect_key =
    and_then (resolve_connect_key m connect_key) (\<lambda>actual_key.
    case cm_get_session_id actual_key m of
      Some sid \<Rightarrow> Inr sid
    | None \<Rightarrow> Inl (Error NotFound (''Device '' @ actual_key @ '' is not connected'')))"

definition get_default_connect_key :: "connect_map \<Rightarrow> string option" where
  "get_default_connect_key m =
    (case find (\<lambda>parts. 3 \<le> length parts \<and> parts ! 2 = ''Connected'')
            (map (\<lambda>entry. filter (\<lambda>s. s \<noteq> []) (split_on TAB entry)) (cm_get_list True m)) of
       Some parts \<Rightarrow> Some (parts ! 0)
     | None \<Rightarrow> (case cm_get_list False m of [] \<Rightarrow> None | k # _ \<Rightarrow> Some k))"

section \<open>TCP writers\<close>

record tcp_map =
  session_writers :: "u32 \<Rightarrow> tcp_out option"
  session_ciphers :: "u32 \<Rightarrow> psk_cipher option"
  channel_writers :: "u32 \<Rightarrow> tcp_out option"
  channel_sessions :: "(u32 \<times> u32) list"
  keep_alive_channels :: "u32 list"
  closed_channels :: "(u32 \<times> tcp_out) list"

definition tcp_start_session :: "u32 \<Rightarrow> tcp_out \<Rightarrow> tcp_map \<Rightarrow> tcp_map" where
  "tcp_start_session sid wr t = t\<lparr>session_writers := (session_writers t)(sid \<mapsto> wr)\<rparr>"

definition tcp_start_channel :: "u32 \<Rightarrow> tcp_out \<Rightarrow> tcp_map \<Rightarrow> tcp_map" where
  "tcp_start_channel cid wr t = t\<lparr>channel_writers := (channel_writers t)(cid \<mapsto> wr)\<rparr>"

definition tcp_end_session :: "u32 \<Rightarrow> tcp_map \<Rightarrow> tcp_map" where
  "tcp_end_session sid t = t\<lparr>session_writers := (session_writers t)(sid := None)\<rparr>"

text \<open>Taking a channel's writer out and shutting it down.\<close>

definition shut_channel :: "u32 \<Rightarrow> tcp_map \<Rightarrow> tcp_map" where
  "shut_channel cid t =
    (case channel_writers t cid of
       None \<Rightarrow> t
     | Some wr \<Rightarrow> t\<lparr>channel_writers := (channel_writers t)(cid := None), closed_channels := (cid, wr) # closed_channels t\<rparr>)"

definition tcp_end_channel :: "u32 \<Rightarrow> tcp_map \<Rightarrow> tcp_map" where
  "tcp_end_channel cid t = shut_channel cid (t\<lparr>keep_alive_channels := removeAll cid (keep_alive_channels t)\<rparr>)"

definition tcp_set_keep_alive :: "u32 \<Rightarrow> tcp_map \<Rightarrow> tcp_map" where
  "tcp_set_keep_alive channel_id t = t\<lparr>keep_alive_channels := List.insert channel_id (keep_alive_channels t)\<rparr>"

definition tcp_is_keep_alive :: "u32 \<Rightarrow> tcp_map \<Rightarrow> bool" where
  "tcp_is_keep_alive channel_id t = (channel_id \<in> set (keep_alive_channels t))"

definition write_session :: "u32 \<Rightarrow> bytes \<Rightarrow> (tcp_map, unit) io" where
  "write_session sid data t =
    (case session_writers t sid of
       None \<Rightarrow> (Inl (Error NotFound ''session not found''), t)
     | Some wr \<Rightarrow> (case tcp_write_all data wr of
         (r, wr') \<Rightarrow> (r, t\<lparr>session_writers := (session_writers t)(sid \<mapsto> wr')\<rparr>)))"

definition tcp_send_to_session :: "aead \<Rightarrow> u32 \<Rightarrow> bytes \<Rightarrow> (tcp_map, unit) io" where
  "tcp_send_to_session A session_id data t =
    (case session_writers t session_id of
       None \<Rightarrow> (Inl (Error NotFound ''session not found''), t)
     | Some _ \<Rightarrow>
         (case session_ciphers t session_id of
            None \<Rightarrow> write_session session_id data t
          | Some cipher \<Rightarrow>
              (case psk_encrypt A cipher data of (r, cipher') \<Rightarrow>
               io_bind (io_lift r) (\<lambda>ct.
               io_bind (write_session session_id (to_be 4 (of_nat (length ct) :: u32))) (\<lambda>_.
               write_session session_id ct))
               (t\<lparr>session_ciphers := (session_ciphers t)(session_id \<mapsto> cipher')\<rparr>))))"

definition tcp_set_session_cipher :: "u32 \<Rightarrow> psk_cipher \<Rightarrow> tcp_map \<Rightarrow> tcp_map" where
  "tcp_set_session_cipher session_id cipher t = t\<lparr>session_ciphers := (session_ciphers t)(session_id \<mapsto> cipher)\<rparr>"

definition tcp_get_session_cipher :: "u32 \<Rightarrow> tcp_map \<Rightarrow> psk_cipher option" where
  "tcp_get_session_cipher session_id t = session_ciphers t session_id"

definition tcp_send_channel_message :: "u32 \<Rightarrow> bytes \<Rightarrow> (tcp_map, unit) io" where
  "tcp_send_channel_message channel_id data t =
    (case channel_writers t channel_id of
       None \<Rightarrow> (Inl (Error NotFound ''channel not found''), t)
     | Some wr \<Rightarrow>
         (case io_bind (tcp_write_all (to_be 4 (of_nat (length data) :: u32))) (\<lambda>_. tcp_write_all data) wr of
            (r, wr') \<Rightarrow> (r, t\<lparr>channel_writers := (channel_writers t)(channel_id \<mapsto> wr')\<rparr>)))"

definition tcp_take_channel_writer :: "u32 \<Rightarrow> tcp_map \<Rightarrow> tcp_out option \<times> tcp_map" where
  "tcp_take_channel_writer channel_id t =
    (channel_writers t channel_id,
     t\<lparr>channel_sessions := hm_remove channel_id (channel_sessions t),
       channel_writers := (channel_writers t)(channel_id := None)\<rparr>)"

definition tcp_associate_channel_with_session :: "u32 \<Rightarrow> u32 \<Rightarrow> tcp_map \<Rightarrow> tcp_map" where
  "tcp_associate_channel_with_session channel_id session_id t =
    t\<lparr>channel_sessions := hm_insert channel_id session_id (channel_sessions t)\<rparr>"

definition tcp_close_session_channels :: "u32 \<Rightarrow> tcp_map \<Rightarrow> tcp_map" where
  "tcp_close_session_channels session_id t =
    fold (\<lambda>channel_id t. shut_channel channel_id (t\<lparr>channel_sessions := hm_remove channel_id (channel_sessions t)\<rparr>))
      (map fst (filter (\<lambda>e. snd e = session_id) (channel_sessions t))) t"

section \<open>USB queues\<close>

text \<open>An unbounded queue: what was sent, and whether the receiver is still there.\<close>

record 'a mpsc =
  mq_items :: "'a list"
  mq_open :: bool

definition mpsc_send :: "'a \<Rightarrow> 'a mpsc \<Rightarrow> ('a mpsc) option" where
  "mpsc_send x q = (if mq_open q then Some (q\<lparr>mq_items := mq_items q @ [x]\<rparr>) else None)"

record usb_map =
  session_senders :: "u32 \<Rightarrow> bytes mpsc option"
  response_channels :: "((u32 \<times> u32) \<times> task_message mpsc) list"

definition usb_start_session :: "u32 \<Rightarrow> bytes mpsc \<Rightarrow> usb_map \<Rightarrow> usb_map" where
  "usb_start_session sid tx u = u\<lparr>session_senders := (session_senders u)(sid \<mapsto> tx)\<rparr>"

definition usb_end_session :: "u32 \<Rightarrow> usb_map \<Rightarrow> usb_map" where
  "usb_end_session sid u = u\<lparr>session_senders := (session_senders u)(sid := None)\<rparr>"

definition usb_end_session_with_cleanup :: "u32 \<Rightarrow> usb_map \<Rightarrow> usb_map" where
  "usb_end_session_with_cleanup session_id u =
    u\<lparr>session_senders := (session_senders u)(session_id := None),
      response_channels := hm_retain (\<lambda>(sid, _) _. sid \<noteq> session_id) (response_channels u)\<rparr>"

definition usb_send_to_session :: "u32 \<Rightarrow> bytes \<Rightarrow> (usb_map, unit) io" where
  "usb_send_to_session session_id data u =
    (case session_senders u session_id of
       None \<Rightarrow> (Inl (Error NotFound ''usb session not found''), u)
     | Some tx \<Rightarrow>
         (case mpsc_send data tx of
            None \<Rightarrow> (Inl (Error BrokenPipe ''usb session closed''), u)
          | Some tx' \<Rightarrow> (Inr (), u\<lparr>session_senders := (session_senders u)(session_id \<mapsto> tx')\<rparr>)))"

definition usb_register_response_channel :: "u32 \<Rightarrow> u32 \<Rightarrow> task_message mpsc \<Rightarrow> usb_map \<Rightarrow> usb_map" where
  "usb_register_response_channel session_id channel_id tx u =
    u\<lparr>response_channels := hm_insert (session_id, channel_id) tx (response_channels u)\<rparr>"

definition usb_unregister_response_channel :: "u32 \<Rightarrow> u32 \<Rightarrow> usb_map \<Rightarrow> usb_map" where
  "usb_unregister_response_channel session_id channel_id u =
    u\<lparr>response_channels := hm_remove (session_id, channel_id) (response_channels u)\<rparr>"

definition usb_route_response :: "u32 \<Rightarrow> u32 \<Rightarrow> task_message \<Rightarrow> usb_map \<Rightarrow> bool \<times> usb_map" where
  "usb_route_response session_id channel_id task u =
    (case map_of (response_channels u) (session_id, channel_id) of
       None \<Rightarrow> (False, u)
     | Some tx \<Rightarrow>
         (True, case mpsc_send task tx of
            None \<Rightarrow> u
          | Some tx' \<Rightarrow> u\<lparr>response_channels := hm_modify (session_id, channel_id) (\<lambda>_. tx') (response_channels u)\<rparr>))"

section \<open>Finding the device\<close>

text \<open>The device table is a key table; its clients rely on the laws of that interface.\<close>

interpretation devices: key_table map_of cm_put cm_remove hm_ok
  by unfold_locales (auto simp: cm_put_def cm_remove_def)

lemma prefix_around: "c \<notin> set p \<Longrightarrow> prefix p (a @ c # b) \<longleftrightarrow> prefix p a"
proof (induction p arbitrary: a)
  case (Cons x p)
  then have "x \<noteq> c" by (metis list.set_intros(1))
  then show ?case using Cons by (cases a) simp_all
qed simp

lemma sublist_around: "c \<notin> set p \<Longrightarrow> sublist p (a @ c # b) \<longleftrightarrow> sublist p a \<or> sublist p b"
proof (induction a)
  case Nil
  then show ?case
    using prefix_around [of c p "[]" b] by (cases "p = []") (simp_all add: sublist_Cons_right)
next
  case (Cons x a)
  then show ?case
    using prefix_around [of c p "x # a" b] by (simp add: sublist_Cons_right)
qed
definition plain_device :: "string \<times> daemon_info \<Rightarrow> bool" where
  "plain_device e \<longleftrightarrow> TAB \<notin> set (fst e) \<and> \<not> sublist ''Connected'' (fst e)
    \<and> \<not> sublist ''Connected'' (di_dev_name (snd e))"

lemma status_contains: "contains_str ''Connected'' (status_name s) \<longleftrightarrow> s = Connected"
  by (cases s) simp_all

lemma type_contains: "\<not> contains_str ''Connected'' (conn_type_name t)"
  by (cases t) simp_all

lemma line_contains:
  assumes "plain_device e"
  shows "contains_str ''Connected'' (device_line e) \<longleftrightarrow> is_connected e"
proof (cases e)
  case (Pair key info)
  have tab: "TAB \<notin> set ''Connected''" by code_simp
  have no: "\<not> contains_str ''Connected'' ''unknown...''" "\<not> contains_str ''Connected'' []" by code_simp+
  have "device_line e = key @ TAB # [] @ TAB # conn_type_name (di_conn_type info) @ TAB
      # status_name (di_conn_status info) @ TAB # (if di_dev_name info = [] then ''unknown...'' else di_dev_name info)"
    by (simp add: device_line_def Pair)
  then show ?thesis
    using assms status_contains [of "di_conn_status info"] type_contains [of "di_conn_type info"] no
    by (simp only: contains_str_iff sublist_around [OF tab])
      (auto simp: plain_device_def is_connected_def Pair)
qed

lemma line_key: "TAB \<notin> set (fst e) \<Longrightarrow> hd (split_on TAB (device_line e)) = fst e"
  by (cases e) (simp add: device_line_def split_on_append)

lemma resolve_any:
  assumes "\<forall>e \<in> set m. plain_device e"
  shows "resolve_connect_key m ''any'' =
    (case filter is_connected m of
       [] \<Rightarrow> Inl (Error NotFound ''No device connected'')
     | [e] \<Rightarrow> Inr (fst e)
     | es \<Rightarrow> Inl (Error NotFound
         (''Multiple devices connected, please specify target with -t option:'' @ [CHR 0x0A]
          @ join [CHR 0x0A] (map device_line es))))"
proof -
  have "filter (contains_str ''Connected'') (map device_line m) = map device_line (filter is_connected m)"
    unfolding filter_map comp_def using assms line_contains by (intro arg_cong [where f = "map device_line"] filter_cong) auto
  moreover have "hd (split_on TAB (device_line e)) = fst e" if "filter is_connected m = [e]" for e
  proof -
    have "e \<in> set (filter is_connected m)" using that by simp
    then have "e \<in> set m" by simp
    then show ?thesis using assms line_key by (auto simp: plain_device_def)
  qed
  ultimately show ?thesis
    by (auto simp: resolve_connect_key_def cm_get_list_def split: list.splits)
qed

lemma find_filter: "filter P xs = [x] \<Longrightarrow> find P xs = Some x"
  by (induction xs) (auto split: if_splits)

lemma resolve_session_any:
  assumes "\<forall>e \<in> set m. plain_device e" "hm_ok m" "filter is_connected m = [(key, info)]"
  shows "resolve_session_id m ''any'' = Inr (di_session_id info)"
proof -
  have "(key, info) \<in> set (filter is_connected m)" using assms(3) by simp
  then have get: "map_of m key = Some info" using assms(2) by (simp add: hm_ok_def)
  have "key \<noteq> ''any'' \<or> find is_connected m = Some (key, info)" using find_filter assms(3) by metis
  then show ?thesis
    using get assms(3) resolve_any [OF assms(1)]
    by (simp add: resolve_session_id_def cm_get_session_id_def)
qed

section \<open>Channels of a session\<close>

lemma shut_channel_parts [simp]:
  "channel_writers (shut_channel c t) = (channel_writers t)(c := None)"
  "channel_sessions (shut_channel c t) = channel_sessions t"
  "session_writers (shut_channel c t) = session_writers t"
  "session_ciphers (shut_channel c t) = session_ciphers t"
  "keep_alive_channels (shut_channel c t) = keep_alive_channels t"
  by (auto simp: shut_channel_def split: option.splits)

lemma close_channels_fold:
  fixes cs t
  defines "t' \<equiv> fold (\<lambda>c t. shut_channel c (t\<lparr>channel_sessions := hm_remove c (channel_sessions t)\<rparr>)) cs t"
  shows "channel_writers t' k = (if k \<in> set cs then None else channel_writers t k)"
    and "map_of (channel_sessions t') k = (if k \<in> set cs then None else map_of (channel_sessions t) k)"
    and "session_writers t' = session_writers t" "session_ciphers t' = session_ciphers t"
    and "keep_alive_channels t' = keep_alive_channels t"
  unfolding t'_def by (induction cs arbitrary: t) auto

lemma session_channels:
  assumes "hm_ok cs"
  shows "k \<in> set (map fst (filter (\<lambda>e. snd e = sid) cs)) \<longleftrightarrow> map_of cs k = Some sid"
  using assms by (force simp: hm_ok_def dest: map_of_SomeD)

lemma close_session_channels_exact:
  assumes "hm_ok (channel_sessions t)" "t' = tcp_close_session_channels sid t"
  shows "channel_writers t' k = (if map_of (channel_sessions t) k = Some sid then None else channel_writers t k)"
    and "map_of (channel_sessions t') k
      = (if map_of (channel_sessions t) k = Some sid then None else map_of (channel_sessions t) k)"
    and "session_writers t' = session_writers t" "session_ciphers t' = session_ciphers t"
    and "keep_alive_channels t' = keep_alive_channels t"
  unfolding assms(2) tcp_close_session_channels_def
  using session_channels [OF assms(1)] by (simp_all add: close_channels_fold)

section \<open>Sending to a session\<close>

text \<open>What reaches the peer of a session: the data, or its encrypted frame.\<close>

definition session_frame :: "aead \<Rightarrow> psk_cipher option \<Rightarrow> bytes \<Rightarrow> (bytes \<times> psk_cipher option) option" where
  "session_frame A c data =
    (case c of
       None \<Rightarrow> Some (data, None)
     | Some cipher \<Rightarrow> (case psk_encrypt A cipher data of
         (Inr ct, cipher') \<Rightarrow> Some (channel_frame ct, Some cipher') | (Inl _, _) \<Rightarrow> None))"

lemma tcp_send_to_session_up:
  assumes "session_writers t sid = Some wr" "out_faults wr = []"
    and "session_frame A (session_ciphers t sid) data = Some (bs, c')"
  shows "tcp_send_to_session A sid data t = (Inr (),
    t\<lparr>session_writers := (session_writers t)(sid \<mapsto> wr\<lparr>out_bytes := out_bytes wr @ bs\<rparr>),
      session_ciphers := (session_ciphers t)(sid := c')\<rparr>)"
  using assms
  by (cases wr; cases t)
    (auto simp: tcp_send_to_session_def session_frame_def write_session_def tcp_write_all_def io_bind_def
      channel_frame_def fun_upd_idem split: option.splits prod.splits sum.splits)

text \<open>A message to a registered task goes to its queue and nowhere else.\<close>

lemma route_response_exact:
  assumes "usb_route_response sid cid task u = (routed, u')"
  shows "routed \<longleftrightarrow> map_of (response_channels u) (sid, cid) \<noteq> None"
    and "k \<noteq> (sid, cid) \<Longrightarrow> map_of (response_channels u') k = map_of (response_channels u) k"
    and "map_of (response_channels u) (sid, cid) = Some q \<Longrightarrow> mq_open q \<Longrightarrow>
      map_of (response_channels u') (sid, cid) = Some (q\<lparr>mq_items := mq_items q @ [task]\<rparr>)"
    and "session_senders u' = session_senders u"
  using assms
  by (auto simp: usb_route_response_def mpsc_send_def hm_get_modify split: option.splits if_splits)

lemma cleanup_exact:
  assumes "hm_ok (response_channels u)"
  shows "map_of (response_channels (usb_end_session_with_cleanup sid u)) k
    = (if fst k = sid then None else map_of (response_channels u) k)"
  using assms by (auto simp: usb_end_session_with_cleanup_def hm_get_retain split: option.splits prod.splits)

end
