(* ===== verification/Server_Core.thy ===== *)
theory Server_Core
  imports Server_Maps Host_Auth
begin

text \<open>
  The state of the host server and the small operations that its handlers share: answering on a client
  channel, sending to a session over TCP or USB, the handshake of a client channel, the list of port
  forwards (\<open>hdc/src/server.rs\<close>).
\<close>

section \<open>State\<close>

datatype forward_direction = Forward | Reverse

record forward_entry =
  fe_channel_id :: u32
  fe_session_id :: u32
  fe_connect_key :: string
  fe_direction :: forward_direction
  fe_task_string :: string
  fe_abort_handle :: "nat option"

record server =
  sv_aead :: aead
  sv_connect :: connect_map
  sv_tcp :: tcp_map
  sv_usb :: usb_map
  sv_forward :: "(string \<times> forward_entry) list"
  sv_fs :: fs
  sv_aborted :: "nat list"

definition on_tcp :: "(tcp_map, 'r) io \<Rightarrow> (server, 'r) io" where
  "on_tcp m s = (case m (sv_tcp s) of (r, t) \<Rightarrow> (r, s\<lparr>sv_tcp := t\<rparr>))"

definition on_usb :: "(usb_map, 'r) io \<Rightarrow> (server, 'r) io" where
  "on_usb m s = (case m (sv_usb s) of (r, u) \<Rightarrow> (r, s\<lparr>sv_usb := u\<rparr>))"

definition on_host_fs :: "(fs, 'r) io \<Rightarrow> (server, 'r) io" where
  "on_host_fs m s = (case m (sv_fs s) of (r, f) \<Rightarrow> (r, s\<lparr>sv_fs := f\<rparr>))"

definition map_tcp :: "(tcp_map \<Rightarrow> tcp_map) \<Rightarrow> (server, unit) io" where
  "map_tcp f s = (Inr (), s\<lparr>sv_tcp := f (sv_tcp s)\<rparr>)"

definition map_usb :: "(usb_map \<Rightarrow> usb_map) \<Rightarrow> (server, unit) io" where
  "map_usb f s = (Inr (), s\<lparr>sv_usb := f (sv_usb s)\<rparr>)"

definition map_connect :: "(connect_map \<Rightarrow> connect_map) \<Rightarrow> (server, unit) io" where
  "map_connect f s = (Inr (), s\<lparr>sv_connect := f (sv_connect s)\<rparr>)"

text \<open>An operation of the server beside another part of the state.\<close>

definition on_sv :: "(server, 'r) io \<Rightarrow> ('x \<times> server, 'r) io" where
  "on_sv m s = (case m (snd s) of (r, v) \<Rightarrow> (r, (fst s, v)))"

text \<open>
  A task of the server waits for messages of the daemon on a queue. What its coming receives give is a
  list of events: a message, the end of the queue, or the end of the time the task waits. When the
  list is used up nothing more arrives.
\<close>

datatype rx_event = Received task_message | QueueClosed | Elapsed

definition rx_recv :: "(rx_event list \<times> server, rx_event) io" where
  "rx_recv x = (case x of ([], s) \<Rightarrow> (Inr Elapsed, ([], s)) | (ev # evs, s) \<Rightarrow> (Inr ev, (evs, s)))"

text \<open>\<open>let _ = operation\<close>: the result does not matter.\<close>

definition io_ignore :: "('s, 'a) io \<Rightarrow> ('s, unit) io" where
  "io_ignore m s = (Inr (), snd (m s))"

definition io_read :: "('s \<Rightarrow> 'a) \<Rightarrow> ('s, 'a) io" where
  "io_read f s = (Inr (f s), s)"

lemma io_ignore_read [simp]: "io_ignore m s = (Inr (), snd (m s))" "io_read f s = (Inr (f s), s)"
  by (simp_all add: io_ignore_def io_read_def)

lemma map_parts [simp]:
  "map_tcp g s = (Inr (), s\<lparr>sv_tcp := g (sv_tcp s)\<rparr>)" "map_usb h s = (Inr (), s\<lparr>sv_usb := h (sv_usb s)\<rparr>)"
  "map_connect k s = (Inr (), s\<lparr>sv_connect := k (sv_connect s)\<rparr>)"
  by (simp_all add: map_tcp_def map_usb_def map_connect_def)

lemma keeps_ignore: "keeps f m \<Longrightarrow> keeps f (io_ignore m)"
  by (simp add: keeps_def)

lemma commutes_ignore: "commutes g m \<Longrightarrow> commutes g (io_ignore m)"
  by (simp add: commutes_def)

section \<open>Channels and sessions\<close>

definition answer :: "u32 \<Rightarrow> bytes \<Rightarrow> (server, unit) io" where
  "answer channel_id data = on_tcp (tcp_send_channel_message channel_id data)"

definition CRLF :: string where "CRLF = [CHR 0x0D, CHR 0x0A]"

text \<open>A line of text, and the report of an error.\<close>

definition answer_line :: "u32 \<Rightarrow> string \<Rightarrow> (server, unit) io" where
  "answer_line channel_id text = answer channel_id (as_bytes (text @ CRLF))"

definition answer_fail :: "u32 \<Rightarrow> io_error \<Rightarrow> (server, unit) io" where
  "answer_fail channel_id e = answer_line channel_id (''[Fail]'' @ err_message e)"

definition maybe_end_channel :: "u32 \<Rightarrow> (server, unit) io" where
  "maybe_end_channel channel_id s =
    (Inr (), if tcp_is_keep_alive channel_id (sv_tcp s) then s
             else s\<lparr>sv_tcp := tcp_end_channel channel_id (sv_tcp s)\<rparr>)"

definition tcp_session_send :: "u32 \<Rightarrow> bytes \<Rightarrow> (server, unit) io" where
  "tcp_session_send session_id data s = on_tcp (tcp_send_to_session (sv_aead s) session_id data) s"

definition send_to_session :: "u32 \<Rightarrow> bytes \<Rightarrow> (server, unit) io" where
  "send_to_session session_id data =
    io_match (tcp_session_send session_id data)
      (\<lambda>_. on_usb (usb_send_to_session session_id data))
      io_return"

definition task_msg :: "u32 \<Rightarrow> hdc_command \<Rightarrow> bytes \<Rightarrow> task_message" where
  "task_msg channel_id cmd payload = \<lparr>tm_channel_id = channel_id, tm_command = cmd, tm_payload = payload\<rparr>"

definition send_task :: "u32 \<Rightarrow> task_message \<Rightarrow> (server, unit) io" where
  "send_task session_id msg = send_to_session session_id (concat_pack msg)"

text \<open>
  The client's answer to the server's hello. \<open>None\<close> is the panic of slicing a message that is too short.
\<close>

definition unpack_channel_handshake :: "bytes \<Rightarrow> string io_result option" where
  "unpack_channel_handshake recv =
    (if length recv < length HANDSHAKE_MESSAGE then None
     else if \<not> valid_utf8 (take (length HANDSHAKE_MESSAGE) recv)
     then Some (Inl (Error InvalidData ''not utf-8 chars''))
     else if of_bytes (take (length HANDSHAKE_MESSAGE) recv) \<noteq> HANDSHAKE_MESSAGE
     then Some (Inl (Error InvalidData ''Recv server-hello failed''))
     else if length recv < BANNER_SIZE then None
     else let key_buf = drop BANNER_SIZE recv;
              trimmed = (if \<exists>c \<in> set key_buf. c \<noteq> 0 then dropWhile (\<lambda>c. c = 0) key_buf else key_buf);
              key = takeWhile (\<lambda>c. c \<noteq> 0) trimmed
          in Some (if valid_utf8 key then Inr (of_bytes key)
                   else Inl (Error InvalidData ''unpack connect key failed'')))"

text \<open>The server's hello on a new client channel.\<close>

definition channel_hello :: "u32 \<Rightarrow> bytes" where
  "channel_hello channel_id =
    as_bytes HANDSHAKE_MESSAGE @ replicate (BANNER_SIZE - length HANDSHAKE_MESSAGE) 0
    @ to_le 4 channel_id @ replicate (KEY_MAX_SIZE - 4) 0"

section \<open>Port forwards\<close>

definition direction_text :: "forward_direction \<Rightarrow> string" where
  "direction_text d = (case d of Forward \<Rightarrow> ''[Forward]'' | Reverse \<Rightarrow> ''[Reverse]'')"

definition key_matches :: "string \<Rightarrow> forward_entry \<Rightarrow> bool" where
  "key_matches connect_key_filter e \<longleftrightarrow>
    connect_key_filter = [] \<or> connect_key_filter = ''any'' \<or> fe_connect_key e = connect_key_filter"

definition build_forward_list :: "string \<Rightarrow> (string \<times> forward_entry) list \<Rightarrow> string" where
  "build_forward_list connect_key_filter fm =
    join CRLF (map (\<lambda>(_, e). fe_connect_key e @ ''    '' @ fe_task_string e @ ''    '' @ direction_text (fe_direction e))
      (filter (\<lambda>(_, e). key_matches connect_key_filter e) fm))"

definition forward_close_msg :: "u32 \<Rightarrow> task_message" where
  "forward_close_msg channel_id = \<lparr>tm_channel_id = channel_id, tm_command = KernelChannelClose, tm_payload = [0]\<rparr>"

text \<open>Removing one entry: its listener is stopped and the daemon is told.\<close>

definition drop_forward :: "string \<Rightarrow> forward_entry \<Rightarrow> (server, unit) io" where
  "drop_forward key e =
    io_bind (\<lambda>s. (Inr (), s\<lparr>sv_forward := hm_remove key (sv_forward s),
        sv_aborted := sv_aborted s @ (case fe_abort_handle e of None \<Rightarrow> [] | Some h \<Rightarrow> [h])\<rparr>)) (\<lambda>_.
    io_ignore (send_to_session (fe_session_id e) (concat_pack (forward_close_msg (fe_channel_id e)))))"

fun drop_forwards :: "string list \<Rightarrow> nat \<Rightarrow> (server, nat) io" where
  "drop_forwards [] removed = io_return removed"
| "drop_forwards (key # keys) removed =
    io_bind (io_read (\<lambda>s. map_of (sv_forward s) key)) (\<lambda>entry.
    case entry of
      None \<Rightarrow> drop_forwards keys removed
    | Some e \<Rightarrow> io_bind (drop_forward key e) (\<lambda>_. drop_forwards keys (Suc removed)))"

definition spec_matches :: "string \<Rightarrow> string \<Rightarrow> bool" where
  "spec_matches spec key \<longleftrightarrow> key = spec \<or> suffix ('' '' @ spec) key \<or> prefix (spec @ '' '') key"

definition find_forward :: "string \<Rightarrow> string \<Rightarrow> (string \<times> forward_entry) list \<Rightarrow> string option" where
  "find_forward connect_key_filter spec fm =
    (if map_of fm spec \<noteq> None then Some spec
     else map_option fst (find (\<lambda>(key, e). spec_matches spec key \<and> key_matches connect_key_filter e) fm))"

definition remove_forward_entry :: "string \<Rightarrow> string \<Rightarrow> (server, string) io" where
  "remove_forward_entry connect_key_filter spec s =
    (if spec = [] then
       io_bind (drop_forwards (map fst (filter (\<lambda>(_, e). key_matches connect_key_filter e) (sv_forward s))) 0) (\<lambda>removed.
       io_return (''Remove forward ruler success, removed '' @ show_nat removed @ '' rulers'')) s
     else
       case Option.bind (find_forward connect_key_filter spec (sv_forward s))
              (\<lambda>key. map_option (\<lambda>e. (key, e)) (map_of (sv_forward s) key)) of
         Some (key, e) \<Rightarrow>
           io_bind (drop_forward key e) (\<lambda>_. io_return (''Remove forward ruler success, ruler:'' @ key)) s
       | None \<Rightarrow> (Inl (Error NotFound (''Remove forward ruler failed, ruler is not exist '' @ spec)), s))"

section \<open>What a client receives\<close>

definition channel_up :: "u32 \<Rightarrow> server \<Rightarrow> bool" where
  "channel_up ch s \<longleftrightarrow> (\<exists>wr. channel_writers (sv_tcp s) ch = Some wr \<and> out_faults wr = [])"

text \<open>All bytes sent on a channel, also when it is closed now.\<close>

definition channel_sent :: "u32 \<Rightarrow> server \<Rightarrow> bytes" where
  "channel_sent ch s =
    (case channel_writers (sv_tcp s) ch of
       Some wr \<Rightarrow> out_bytes wr
     | None \<Rightarrow> (case map_of (closed_channels (sv_tcp s)) ch of Some wr \<Rightarrow> out_bytes wr | None \<Rightarrow> []))"

definition answered :: "u32 \<Rightarrow> bytes \<Rightarrow> server \<Rightarrow> server" where
  "answered ch data s = s\<lparr>sv_tcp := (sv_tcp s)\<lparr>channel_writers := (channel_writers (sv_tcp s))(ch :=
     map_option (\<lambda>wr. wr\<lparr>out_bytes := out_bytes wr @ channel_frame data\<rparr>) (channel_writers (sv_tcp s) ch))\<rparr>\<rparr>"

definition channel_ended :: "u32 \<Rightarrow> server \<Rightarrow> server" where
  "channel_ended ch s = snd (maybe_end_channel ch s)"

lemma answer_up:
  assumes "channel_up ch s"
  shows "answer ch data s = (Inr (), answered ch data s)"
proof -
  obtain b where "channel_writers (sv_tcp s) ch = Some \<lparr>out_bytes = b, out_faults = []\<rparr>"
    using assms by (metis channel_up_def tcp_out.surjective old.unit.exhaust)
  then show ?thesis
    by (simp add: answer_def on_tcp_def tcp_send_channel_message_def io_bind_def tcp_write_all_def
        answered_def channel_frame_def)
qed

lemma answered_fields [simp]:
  "sv_fs (answered ch data s) = sv_fs s" "sv_connect (answered ch data s) = sv_connect s"
  "sv_usb (answered ch data s) = sv_usb s" "sv_aead (answered ch data s) = sv_aead s"
  "sv_forward (answered ch data s) = sv_forward s"
  "session_writers (sv_tcp (answered ch data s)) = session_writers (sv_tcp s)"
  "session_ciphers (sv_tcp (answered ch data s)) = session_ciphers (sv_tcp s)"
  "channel_up ch (answered ch data s) = channel_up ch s"
  "channel_up ch s \<Longrightarrow> channel_sent ch (answered ch data s) = channel_sent ch s @ channel_frame data"
  by (auto simp: answered_def channel_up_def channel_sent_def)

lemma channel_ended_fields [simp]:
  "sv_fs (channel_ended ch s) = sv_fs s" "sv_connect (channel_ended ch s) = sv_connect s"
  "sv_usb (channel_ended ch s) = sv_usb s" "sv_aead (channel_ended ch s) = sv_aead s"
  "sv_forward (channel_ended ch s) = sv_forward s"
  "session_writers (sv_tcp (channel_ended ch s)) = session_writers (sv_tcp s)"
  "session_ciphers (sv_tcp (channel_ended ch s)) = session_ciphers (sv_tcp s)"
  "channel_sent ch (channel_ended ch s) = channel_sent ch s"
  by (auto simp: channel_ended_def maybe_end_channel_def tcp_end_channel_def shut_channel_def channel_sent_def
      split: option.splits)

lemma maybe_end_channel_ended: "maybe_end_channel ch s = (Inr (), channel_ended ch s)"
  by (simp add: channel_ended_def maybe_end_channel_def)

lemma channel_updates [simp]:
  "channel_up ch (s\<lparr>sv_fs := f\<rparr>) = channel_up ch s" "channel_sent ch (s\<lparr>sv_fs := f\<rparr>) = channel_sent ch s"
  "channel_up ch (s\<lparr>sv_usb := u\<rparr>) = channel_up ch s" "channel_sent ch (s\<lparr>sv_usb := u\<rparr>) = channel_sent ch s"
  by (simp_all add: channel_up_def channel_sent_def split: option.splits)

end
