(* ===== verification/Client.thy ===== *)
theory Client
  imports Cmd_Parser Host_Auth Server_Core
begin

text \<open>
  The command line client (\<open>hdc/src/client.rs\<close>), the part of \<open>hdc/src/main.rs\<close> that runs it, and the
  starting and stopping of the server process (\<open>server_fork\<close> and \<open>server_kill\<close> of
  \<open>hdc/src/server.rs\<close>), as built on a platform other than Windows. The process is a state with what it
  has printed, its files, the processes it has started and the outcomes of the coming connection
  attempts. Printing does not fail.
\<close>

section \<open>The process\<close>

text \<open>What arrives while an interactive shell is bridged, in the order of arrival.\<close>

datatype console_event = FromServer bytes | ServerEnd | FromStdin bytes | StdinEnd

record process =
  pr_out :: string
  pr_err :: string
  pr_fs :: fs
  pr_cwd :: "string io_result"
  pr_exe :: "string io_result"
  pr_spawned :: "string list list"
  pr_connects :: "(tcp_in \<times> tcp_out) io_result list"
  pr_console :: "console_event list"

datatype outcome = Finished "unit io_result" | Panicked | Exited

definition print_out :: "string \<Rightarrow> process \<Rightarrow> process" where
  "print_out t p = p\<lparr>pr_out := pr_out p @ t\<rparr>"

definition println_out :: "string \<Rightarrow> process \<Rightarrow> process" where
  "println_out t = print_out (t @ [CHR 0x0A])"

definition print_err :: "string \<Rightarrow> process \<Rightarrow> process" where
  "print_err t p = p\<lparr>pr_err := pr_err p @ t\<rparr>"

text \<open>\<open>TcpStream::connect\<close>: the next outcome; a refusal when there is none.\<close>

definition tcp_connect :: "string \<Rightarrow> (process, tcp_in \<times> tcp_out) io" where
  "tcp_connect addr p =
    (case pr_connects p of
       [] \<Rightarrow> (Inl (Error OtherKind ''Connection refused (os error 111)''), p)
     | r # rs \<Rightarrow> (r, p\<lparr>pr_connects := rs\<rparr>))"

section \<open>The server process\<close>

definition server_fork_args :: "string \<Rightarrow> nat \<Rightarrow> string \<Rightarrow> string list" where
  "server_fork_args addr log_level forward_listen_ip =
    [''-b'', ''-m'', ''-l'', show_nat log_level, ''-s'', addr]
    @ (if forward_listen_ip \<noteq> ''127.0.0.1'' \<and> forward_listen_ip \<noteq> [] then [''-e'', forward_listen_ip] else [])"

text \<open>A failed start is only logged, so the list of started processes has the attempts.\<close>

definition server_fork :: "string \<Rightarrow> nat \<Rightarrow> string \<Rightarrow> process \<Rightarrow> process" where
  "server_fork addr log_level forward_listen_ip p =
    (case pr_exe p of
       Inl _ \<Rightarrow> p
     | Inr exe \<Rightarrow> p\<lparr>pr_spawned := pr_spawned p @ [exe # server_fork_args addr log_level forward_listen_ip]\<rparr>)"

text \<open>Only the Windows build looks for processes.\<close>

definition get_process_pids :: "u32 list" where
  "get_process_pids = []"

definition kill_command :: "u32 \<Rightarrow> string list" where
  "kill_command pid = [''kill'', ''-9'', show_nat (unat pid)]"

definition server_kill :: "u32 \<Rightarrow> process \<Rightarrow> process" where
  "server_kill own p = println_out ''Kill server finish''
    (p\<lparr>pr_spawned := pr_spawned p @ map kill_command (filter (\<lambda>pid. pid \<noteq> own) get_process_pids)\<rparr>)"

section \<open>The connection\<close>

record client =
  cl_command :: hdc_command
  cl_params :: "string list"
  cl_connect_key :: string
  cl_wr :: "tcp_out option"
  cl_rd :: "tcp_in option"
  cl_process :: process

definition on_process :: "(process \<Rightarrow> process) \<Rightarrow> client \<Rightarrow> client" where
  "on_process f c = c\<lparr>cl_process := f (cl_process c)\<rparr>"

definition client_new :: "parsed_command \<Rightarrow> process \<Rightarrow> client io_result \<times> process" where
  "client_new parsed_cmd p =
    (case pc_command parsed_cmd of
       None \<Rightarrow> (Inl (Error InvalidInput ''command is None''), p)
     | Some command \<Rightarrow>
         (case tcp_connect (pc_server_addr parsed_cmd) p of
            (Inl e, p1) \<Rightarrow> (Inl (Error OtherKind (''Connect to server failed: '' @ err_message e)), p1)
          | (Inr (rd, wr), p1) \<Rightarrow>
              (Inr \<lparr>cl_command = command, cl_params = pc_parameters parsed_cmd,
                 cl_connect_key = auto_connect_key (pc_connect_key parsed_cmd) command,
                 cl_wr = Some wr, cl_rd = Some rd, cl_process = p1\<rparr>, p1)))"

text \<open>A failed send is only logged.\<close>

definition client_send :: "bytes \<Rightarrow> client \<Rightarrow> client" where
  "client_send buf c =
    (case cl_wr c of
       None \<Rightarrow> c
     | Some wr \<Rightarrow> c\<lparr>cl_wr := Some (snd (tcp_write_all (to_be 4 (of_nat (length buf) :: u32) @ buf) wr))\<rparr>)"

definition read_exact_bytes :: "nat \<Rightarrow> (client, bytes) io" where
  "read_exact_bytes n c =
    (case cl_rd c of
       None \<Rightarrow> (Inl (Error OtherKind ''stream closed''), c)
     | Some rd \<Rightarrow>
         (case fill_loop (\<lambda>e. e) (Error ConnectionAborted ''peer closed'') [] n rd of
            (r, rd') \<Rightarrow> (r, c\<lparr>cl_rd := Some rd'\<rparr>)))"

definition client_recv :: "(client, bytes) io" where
  "client_recv = io_bind (read_exact_bytes 4) (\<lambda>len_bytes. read_exact_bytes (unat (from_be len_bytes :: u32)))"

definition handshake_reply :: "string \<Rightarrow> bytes" where
  "handshake_reply connect_key =
    as_bytes HANDSHAKE_MESSAGE @ replicate (BANNER_SIZE - length HANDSHAKE_MESSAGE) 0
    @ as_bytes connect_key @ replicate (KEY_MAX_SIZE - length connect_key) 0"

text \<open>It panics on a hello that is too short, and on a key that does not fit into its field.\<close>

definition handshake :: "client \<Rightarrow> outcome \<times> client" where
  "handshake c =
    (case client_recv c of
       (Inl e, c1) \<Rightarrow> (Finished (Inl e), c1)
     | (Inr recv, c1) \<Rightarrow>
         if length recv < length HANDSHAKE_MESSAGE then (Panicked, c1)
         else (case utf8_error 0 (take (length HANDSHAKE_MESSAGE) recv) of
                 Some e \<Rightarrow> (Finished (Inl (Error InvalidData (''handshake from_utf8 error: '' @ utf8_error_text e))), c1)
               | None \<Rightarrow>
                   if of_bytes (take (length HANDSHAKE_MESSAGE) recv) \<noteq> HANDSHAKE_MESSAGE
                   then (Finished (Inl (Error InvalidData ''Recv server-hello failed'')), c1)
                   else if KEY_MAX_SIZE < length (cl_connect_key c1) then (Panicked, c1)
                   else (Finished (Inr ()), client_send (handshake_reply (cl_connect_key c1)) c1)))"

definition send_params :: "client \<Rightarrow> client" where
  "send_params c = client_send (as_bytes (join '' '' (cl_params c))) c"

section \<open>Reading ends\<close>

definition unread :: "client \<Rightarrow> nat" where
  "unread c = (case cl_rd c of None \<Rightarrow> 0 | Some rd \<Rightarrow> length (in_contents rd))"

lemma tcp_read_contents: "tcp_read cap s = (Inr got, s') \<Longrightarrow> in_contents s = got @ in_contents s'"
  by (auto simp: tcp_read_def in_contents_def split: list.splits if_splits tcp_end.splits)

lemma fill_loop_contents:
  "fill_loop wrap eof data n s = (Inr d, s') \<Longrightarrow> length data \<le> n \<Longrightarrow>
    \<exists>x. d = data @ x \<and> in_contents s = x @ in_contents s' \<and> length d = n"
proof (induction wrap eof data n s rule: fill_loop.induct)
  case (1 wrap eof data n s)
  show ?case
  proof (cases "length data < n")
    case False
    then show ?thesis using 1(2,3) by (simp add: fill_loop.simps [of wrap eof data n s])
  next
    case True
    then obtain got s1 where got: "tcp_read (n - length data) s = (Inr got, s1)" "got \<noteq> []"
      "fill_loop wrap eof (data @ got) n s1 = (Inr d, s')"
      using 1(2) by (auto simp: fill_loop.simps [of wrap eof data n s] split: prod.splits sum.splits if_splits)
    have "length got \<le> n - length data"
      using got(1) by (auto simp: tcp_read_def split: list.splits if_splits tcp_end.splits)
    then have "length (data @ got) \<le> n" using True by simp
    then obtain x where "d = (data @ got) @ x" "in_contents s1 = x @ in_contents s'" "length d = n"
      using 1(1) [OF True got(1) [symmetric] refl got(2) got(3)] by blast
    then show ?thesis using tcp_read_contents [OF got(1)] by simp
  qed
qed

lemma read_exact_shrinks:
  assumes "read_exact_bytes n c = (Inr d, c1)"
  shows "unread c = n + unread c1"
proof -
  obtain rd rd' where "cl_rd c = Some rd" "fill_loop (\<lambda>e. e) (Error ConnectionAborted ''peer closed'') [] n rd = (Inr d, rd')"
    "cl_rd c1 = Some rd'"
    using assms by (auto simp: read_exact_bytes_def split: option.splits prod.splits)
  then show ?thesis using fill_loop_contents [of _ _ "[]" n rd d rd'] by (auto simp: unread_def)
qed

lemma recv_shrinks: "client_recv c = (Inr d, c1) \<Longrightarrow> unread c1 < unread c"
  by (auto simp: client_recv_def io_bind_eq_Inr dest!: read_exact_shrinks)

lemma unread_kept [simp]:
  "unread (on_process f c) = unread c" "unread (client_send buf c) = unread c" "unread (send_params c) = unread c"
  by (simp_all add: unread_def on_process_def client_send_def send_params_def split: option.splits)

section \<open>The loops that receive\<close>

definition hex_byte :: "u8 \<Rightarrow> string" where
  "hex_byte b = [''0123456789abcdef'' ! (unat b div 16), ''0123456789abcdef'' ! (unat b mod 16)]"

definition show_recv :: "bytes \<Rightarrow> process \<Rightarrow> process" where
  "show_recv recv =
    (if valid_utf8 recv then print_out (of_bytes recv)
     else print_err (''[binary data: ['' @ join '', '' (map hex_byte recv) @ '']]''))"

function loop_recv :: "(client, unit) io" where
  "loop_recv c =
    (case client_recv c of
       (Inr recv, c1) \<Rightarrow> loop_recv (on_process (show_recv recv) c1)
     | (Inl e, c1) \<Rightarrow> if err_kind e = ConnectionAborted then (Inr (), c1) else (Inl e, c1))"
  by pat_completeness auto
termination
  by (relation "measure unread") (auto dest: recv_shrinks [OF sym])

declare loop_recv.simps [simp del]

function general_loop :: "(client, unit) io" where
  "general_loop c =
    (case client_recv c of
       (Inl e, c1) \<Rightarrow> (Inl e, c1)
     | (Inr recv, c1) \<Rightarrow>
         (case utf8_error 0 recv of
            None \<Rightarrow> general_loop (on_process (print_out (of_bytes recv)) c1)
          | Some err \<Rightarrow> (Inl (Error InvalidData (''recv data to str failed: '' @ utf8_error_text err)), c1)))"
  by pat_completeness auto
termination
  by (relation "measure unread") (auto dest: recv_shrinks [OF sym])

declare general_loop.simps [simp del]

function uninstall_loop :: "(client, unit) io" where
  "uninstall_loop c =
    (case client_recv c of
       (Inl e, c1) \<Rightarrow> (Inl e, c1)
     | (Inr recv, c1) \<Rightarrow>
         (case utf8_error 0 recv of
            None \<Rightarrow> uninstall_loop (on_process (println_out (of_bytes recv)) c1)
          | Some err \<Rightarrow> (Inl (Error InvalidData (utf8_error_text err)), c1)))"
  by pat_completeness auto
termination
  by (relation "measure unread") (auto dest: recv_shrinks [OF sym])

declare uninstall_loop.simps [simp del]

definition on_client_fs :: "(fs, 'a) io \<Rightarrow> (client, 'a) io" where
  "on_client_fs m c = (case m (pr_fs (cl_process c)) of (r, f) \<Rightarrow> (r, on_process (\<lambda>p. p\<lparr>pr_fs := f\<rparr>) c))"

lemma unread_fs: "on_client_fs m c = (r, c') \<Longrightarrow> unread c' = unread c"
  by (auto simp: on_client_fs_def split: prod.splits)

function report_loop :: "nat \<Rightarrow> (client, unit) io" where
  "report_loop file c =
    (case client_recv c of
       (Inl e, c1) \<Rightarrow> (Inl e, c1)
     | (Inr recv, c1) \<Rightarrow>
         (case on_client_fs (file_write_all file recv) c1 of
            (Inl e, c2) \<Rightarrow> (Inl e, c2)
          | (Inr _, c2) \<Rightarrow> report_loop file c2))"
  by pat_completeness auto
termination
  by (relation "measure (\<lambda>(_, c). unread c)") (auto dest!: recv_shrinks [OF sym] unread_fs [OF sym])

declare report_loop.simps [simp del]

definition no_target_text :: string where
  "no_target_text = ''[Fail]No any connected target'' @ CRLF"

text \<open>Waiting for a device; the process exits when an answer is not that there is none.\<close>

function loop_recv_waitfor :: "client \<Rightarrow> outcome \<times> client" where
  "loop_recv_waitfor c =
    (case client_recv c of
       (Inl e, c1) \<Rightarrow> (Finished (Inl e), c1)
     | (Inr recv, c1) \<Rightarrow>
         if cl_command c1 \<noteq> KernelWaitFor then loop_recv_waitfor c1
         else if \<not> valid_utf8 recv then (Panicked, c1)
         else if of_bytes recv = no_target_text then loop_recv_waitfor (send_params c1)
         else (Exited, c1))"
  by pat_completeness auto
termination
  by (relation "measure unread") (auto dest: recv_shrinks [OF sym])

declare loop_recv_waitfor.simps [simp del]

section \<open>The interactive shell\<close>

text \<open>The messages that are complete, and the bytes of the incomplete one.\<close>

definition take_message :: "bytes \<Rightarrow> (bytes \<times> bytes) option" where
  "take_message b =
    (let n = unat (from_be (take 4 b) :: u32) in
     if length b < 4 \<or> length b - 4 < n then None else Some (take n (drop 4 b), drop (4 + n) b))"

function take_messages :: "bytes \<Rightarrow> bytes list \<times> bytes" where
  "take_messages b =
    (case take_message b of
       None \<Rightarrow> ([], b)
     | Some (m, rest) \<Rightarrow> (case take_messages rest of (ms, r) \<Rightarrow> (m # ms, r)))"
  by pat_completeness auto
termination
  by (relation "measure length") (auto simp: take_message_def Let_def split: if_splits)

declare take_messages.simps [simp del]

text \<open>
  The loop between the server and the terminal. The future that reads a message is dropped when the
  terminal has input, and with it the bytes it has already taken off the connection. The connection
  ends at the end of the list.
\<close>

fun shell_loop :: "bytes \<Rightarrow> console_event list \<Rightarrow> tcp_out \<Rightarrow> process \<Rightarrow> unit io_result \<times> (tcp_out \<times> process)" where
  "shell_loop buf [] wr p = (Inr (), (wr, p))"
| "shell_loop buf (ServerEnd # evs) wr p = (Inr (), (wr, p))"
| "shell_loop buf (FromServer b # evs) wr p =
    (case take_messages (buf @ b) of (ms, rest) \<Rightarrow>
     shell_loop rest evs wr (print_out (of_bytes (concat ms)) p))"
| "shell_loop buf (StdinEnd # evs) wr p = shell_loop buf evs wr p"
| "shell_loop buf (FromStdin d # evs) wr p =
    (case tcp_write_all (to_be 4 (of_nat (length d) :: u32) @ d) wr of
       (Inl _, wr1) \<Rightarrow> (Inr (), (wr1, p))
     | (Inr _, wr1) \<Rightarrow> shell_loop [] evs wr1 p)"

definition interactive_shell_loop :: "tcp_out \<Rightarrow> process \<Rightarrow> unit io_result \<times> (tcp_out \<times> process)" where
  "interactive_shell_loop wr p = shell_loop [] (pr_console p) wr p"

section \<open>The tasks\<close>

definition finishes :: "(client, unit) io \<Rightarrow> client \<Rightarrow> outcome \<times> client" where
  "finishes m c = (case m c of (r, c') \<Rightarrow> (Finished r, c'))"

definition fails :: "io_error \<Rightarrow> client \<Rightarrow> outcome \<times> client" where
  "fails e c = (Finished (Inl e), c)"

text \<open>The parameters as they are, then what the server prints.\<close>

definition unity_task :: "client \<Rightarrow> outcome \<times> client" where
  "unity_task c = finishes loop_recv (send_params c)"

definition wait_task :: "client \<Rightarrow> outcome \<times> client" where
  "wait_task c = loop_recv_waitfor (send_params c)"

definition unity_root_run_task :: "client \<Rightarrow> outcome \<times> client" where
  "unity_root_run_task c =
    unity_task (if 2 \<le> length (cl_params c) \<and> prefix ''-r'' (cl_params c ! 1)
                then c\<lparr>cl_params := (cl_params c)[1 := ''r'']\<rparr> else c)"

definition shell_task :: "client \<Rightarrow> outcome \<times> client" where
  "shell_task c =
    (if length (cl_params c) = 1 then
       (let c1 = client_send (as_bytes ''shell'' @ [0]) c in
        case (cl_rd c1, cl_wr c1) of
          (None, _) \<Rightarrow> fails (Error OtherKind ''stream closed'') c1
        | (Some _, None) \<Rightarrow> fails (Error OtherKind ''stream closed'') (c1\<lparr>cl_rd := None\<rparr>)
        | (Some _, Some wr) \<Rightarrow>
            (case interactive_shell_loop wr (cl_process c1) of (r, (_, p)) \<Rightarrow>
             (Finished r, c1\<lparr>cl_rd := None, cl_wr := None, cl_process := p\<rparr>)))
     else unity_task c)"

definition forward_task :: "client \<Rightarrow> outcome \<times> client" where
  "forward_task c =
    (if cl_command c \<in> {ForwardRemove, ForwardRportRemove} \<and> length (cl_params c) < 2
       \<or> cl_command c \<in> {ForwardInit, ForwardRportInit} \<and> length (cl_params c) < 3
     then fails (Error InvalidInput ''Too few arguments.'') c
     else unity_task c)"

definition general_task :: "client \<Rightarrow> outcome \<times> client" where
  "general_task c = finishes general_loop (send_params c)"

definition bug_report_task :: "client \<Rightarrow> outcome \<times> client" where
  "bug_report_task c =
    (if length (cl_params c) \<le> 1 then general_task c
     else finishes (io_bind (on_client_fs (file_create (cl_params c ! 1))) report_loop) (send_params c))"

text \<open>\<open>Vec::insert\<close> of \<open>-cwd\<close> and the current directory; it panics beyond the end.\<close>

definition insert_cwd :: "nat \<Rightarrow> string \<Rightarrow> string list \<Rightarrow> string list option" where
  "insert_cwd n cwd params =
    (if length params < n then None else Some (take n params @ [''-cwd'', cwd @ ''/''] @ drop n params))"

definition send_with_cwd :: "nat \<Rightarrow> client \<Rightarrow> outcome \<times> client" where
  "send_with_cwd n c =
    (case pr_cwd (cl_process c) of
       Inl e \<Rightarrow> fails e c
     | Inr cwd \<Rightarrow>
         (case insert_cwd n cwd (cl_params c) of
            None \<Rightarrow> (Panicked, c)
          | Some params \<Rightarrow> finishes loop_recv (client_send (as_bytes (join '' '' params)) c)))"

definition client_file_send_task :: "client \<Rightarrow> outcome \<times> client" where
  "client_file_send_task c = (if cl_command c = FileInit then send_with_cwd 2 c else unity_task c)"

definition app_install_task :: "client \<Rightarrow> outcome \<times> client" where
  "app_install_task = send_with_cwd 1"

definition app_uninstall_task :: "client \<Rightarrow> outcome \<times> client" where
  "app_uninstall_task c = finishes uninstall_loop (send_params c)"

definition app_sideload_task :: "client \<Rightarrow> outcome \<times> client" where
  "app_sideload_task = send_with_cwd 1"

definition check_server_task :: "(client, unit) io" where
  "check_server_task c =
    io_bind client_recv (\<lambda>recv c1.
      if length recv < 2 then (Inl (Error InvalidData ''recv failed''), c1)
      else if ucast (from_le (take 2 recv) :: u16) \<noteq> as_u32 KernelCheckServer then (Inl (Error InvalidData ''recv cmd error''), c1)
      else (case utf8_error 0 (drop 2 recv) of
              Some err \<Rightarrow> (Inl (Error InvalidData (''from_utf8 failed: '' @ utf8_error_text err)), c1)
            | None \<Rightarrow> (Inr (), on_process (println_out
                (''client '' @ get_version @ '', server '' @ of_bytes (drop 2 recv))) c1)))
      (send_params c)"

definition version_task :: "(client, unit) io" where
  "version_task c =
    io_bind client_recv (\<lambda>recv c1.
      case utf8_error 0 recv of
        Some err \<Rightarrow> (Inl (Error InvalidData (''from_utf8 failed: '' @ utf8_error_text err)), c1)
      | None \<Rightarrow> (Inr (), on_process (println_out (of_bytes recv)) c1))
      (send_params c)"

definition execute_command :: "client \<Rightarrow> outcome \<times> client" where
  "execute_command c =
    (let cmd = cl_command c in
     if cmd \<in> {KernelTargetList, KernelTargetConnect, UnityHilog, KernelTargetDiscover, KernelCheckDevice,
         KernelEnableKeepalive} then general_task c
     else if cmd \<in> {FileInit, FileCheck, FileRecvInit} then client_file_send_task c
     else if cmd = AppInit then app_install_task c
     else if cmd = AppUninstall then app_uninstall_task c
     else if cmd \<in> {UnityRunmode, UnityReboot, UnityRemount} then
       (if cmd = UnityRunmode \<and> length (cl_params c) < 2 then fails (Error OtherKind ''Error input parameter'') c
        else unity_task c)
     else if cmd = KernelTargetReconnect then unity_task c
     else if cmd = UnityRootrun then unity_root_run_task c
     else if cmd \<in> {UnityExecute, UnityExecuteEx} then shell_task c
     else if cmd = KernelWaitFor then wait_task c
     else if cmd = UnityBugreportInit then bug_report_task c
     else if cmd = AppSideload then app_sideload_task c
     else if cmd \<in> {FlashdUpdateInit, FlashdFlashInit, FlashdErase, FlashdFormat} then unity_task c
     else if cmd \<in> {ForwardInit, ForwardRportInit, ForwardList, ForwardRportList, ForwardRemove, ForwardRportRemove}
     then forward_task c
     else if cmd \<in> {JdwpList, JdwpTrack} then unity_task c
     else if cmd = KernelCheckServer then finishes check_server_task c
     else if cmd = ClientVersion then finishes version_task c
     else if cmd = KernelHelp then (Finished (Inr ()), on_process (println_out usage) c)
     else if cmd = SpawnSub then unity_task c
     else fails (Error OtherKind (''unknown command: '' @ show_nat (unat (as_u32 cmd)))) c)"

section \<open>Running the client\<close>

text \<open>A process with what the client has done to it; the connection is closed.\<close>

definition and_process :: "outcome \<times> client \<Rightarrow> outcome \<times> process" where
  "and_process x = (fst x, cl_process (snd x))"

definition generate_keys_command :: "host_env \<Rightarrow> process \<Rightarrow> process" where
  "generate_keys_command env p =
    (case load_or_generate_keys env (pr_fs p) of
       (Inr _, f) \<Rightarrow> println_out ''RSA key generated successfully'' (p\<lparr>pr_fs := f\<rparr>)
     | (Inl e, f) \<Rightarrow> print_err (''Failed to generate RSA key: '' @ err_message e @ [CHR 0x0A]) (p\<lparr>pr_fs := f\<rparr>))"

definition fork_for :: "parsed_command \<Rightarrow> process \<Rightarrow> process" where
  "fork_for pc = server_fork (pc_server_addr pc) (pc_log_level pc) (pc_forward_listen_ip pc)"

text \<open>The first connection only finds out whether a server is there, and is closed again.\<close>

definition ensure_server :: "parsed_command \<Rightarrow> process \<Rightarrow> process" where
  "ensure_server pc p =
    (if pc_launch_server pc then
       (case tcp_connect (pc_server_addr pc) p of (Inl _, p1) \<Rightarrow> fork_for pc p1 | (Inr _, p1) \<Rightarrow> p1)
     else p)"

definition talk_to_server :: "parsed_command \<Rightarrow> process \<Rightarrow> outcome \<times> process" where
  "talk_to_server pc p =
    (case client_new pc p of
       (Inl e, p1) \<Rightarrow> (Finished (Inl e), p1)
     | (Inr c, _) \<Rightarrow>
         (case handshake c of
            (Finished (Inr _), c1) \<Rightarrow> and_process (execute_command c1)
          | x \<Rightarrow> and_process x))"

definition run_client_mode :: "host_env \<Rightarrow> u32 \<Rightarrow> parsed_command \<Rightarrow> process \<Rightarrow> outcome \<times> process" where
  "run_client_mode env own pc p =
    (let restart = ''-r'' \<in> set (pc_parameters pc) in
     if pc_command pc = Some KernelServerStart then
       (Finished (Inr ()), fork_for pc (if restart then server_kill own p else p))
     else if pc_command pc = Some KernelServerKill then
       (Finished (Inr ()), if restart then fork_for pc (server_kill own p) else server_kill own p)
     else if pc_command pc = Some KernelHelp then (Finished (Inr ()), println_out usage p)
     else if pc_command pc = Some ClientKeyGenerate then (Finished (Inr ()), generate_keys_command env p)
     else talk_to_server pc (ensure_server pc p))"

text \<open>\<open>main\<close>, up to the server mode.\<close>

datatype main_end = MainReturned | MainPanicked | MainExited | MainServes parsed_command

definition hdc_main :: "host_env \<Rightarrow> u32 \<Rightarrow> string list \<Rightarrow> process \<Rightarrow> main_end \<times> process" where
  "hdc_main env own args p =
    (case parse_command args of
       None \<Rightarrow> (MainPanicked, p)
     | Some (Inl e) \<Rightarrow>
         (MainReturned,
          if err_kind e = OtherKind then println_out (err_message e) p
          else print_err (''Parse error: '' @ err_message e @ [CHR 0x0A]) p)
     | Some (Inr pc) \<Rightarrow>
         if pc_run_in_server pc then (MainServes pc, p)
         else if pc_command pc = None then
           (MainReturned, println_out usage (println_out ''Unknown operation command...'' p))
         else (case run_client_mode env own pc p of
                 (Finished (Inr _), p1) \<Rightarrow> (MainReturned, p1)
               | (Finished (Inl e), p1) \<Rightarrow>
                   (MainReturned, if err_kind e = OtherKind then println_out (''[Fail]'' @ err_message e) p1 else p1)
               | (Panicked, p1) \<Rightarrow> (MainPanicked, p1)
               | (Exited, p1) \<Rightarrow> (MainExited, p1)))"

section \<open>Messages from the server\<close>

lemma tcp_read_end: "tcp_read k s = (r, s') \<Longrightarrow> in_end s' = in_end s"
  by (auto simp: tcp_read_def split: list.splits tcp_end.splits if_splits)

lemma fill_loop_end: "fill_loop wrap eof data n s = (Inr d, s') \<Longrightarrow> in_end s' = in_end s"
proof (induction wrap eof data n s rule: fill_loop.induct)
  case (1 wrap eof data n s)
  show ?case
  proof (cases "length data < n")
    case False
    then show ?thesis using 1(2) by (simp add: fill_loop.simps [of wrap eof data n s])
  next
    case True
    then obtain got s1 where got: "tcp_read (n - length data) s = (Inr got, s1)" "got \<noteq> []"
      "fill_loop wrap eof (data @ got) n s1 = (Inr d, s')"
      using 1(2) by (auto simp: fill_loop.simps [of wrap eof data n s] split: prod.splits sum.splits if_splits)
    then show ?thesis using 1(1) [OF True got(1) [symmetric] refl got(2,3)] tcp_read_end [OF got(1)] by simp
  qed
qed

lemma client_read_source:
  assumes "cl_rd c = Some rd" "in_ok rd" "in_contents rd = xs @ ys"
  shows "\<exists>rd'. read_exact_bytes (length xs) c = (Inr xs, c\<lparr>cl_rd := Some rd'\<rparr>) \<and> in_contents rd' = ys \<and> in_ok rd'
    \<and> in_end rd' = in_end rd"
proof -
  obtain rd' where "fill_loop (\<lambda>e. e) (Error ConnectionAborted ''peer closed'') [] (length xs) rd = (Inr xs, rd')"
    "in_contents rd' = ys" "in_ok rd'"
    using fill_loop_exact [OF assms(2,3), of "length xs" "[]"] by auto
  moreover from this(1) have "in_end rd' = in_end rd" by (rule fill_loop_end)
  ultimately show ?thesis using assms(1) by (intro exI [of _ rd']) (simp add: read_exact_bytes_def)
qed

lemma client_recv_frame:
  assumes "cl_rd c = Some rd" "in_ok rd" "length m < 2 ^ 32" "in_contents rd = channel_frame m @ ys"
  shows "\<exists>rd'. client_recv c = (Inr m, c\<lparr>cl_rd := Some rd'\<rparr>) \<and> in_contents rd' = ys \<and> in_ok rd' \<and> in_end rd' = in_end rd"
proof -
  obtain rd1 where r1: "read_exact_bytes 4 c = (Inr (to_be 4 (of_nat (length m) :: u32)), c\<lparr>cl_rd := Some rd1\<rparr>)"
    "in_contents rd1 = m @ ys" "in_ok rd1" "in_end rd1 = in_end rd"
    using client_read_source [OF assms(1,2), of "to_be 4 (of_nat (length m) :: u32)" "m @ ys"] assms(4)
    by (auto simp: channel_frame_def)
  obtain rd2 where "read_exact_bytes (length m) (c\<lparr>cl_rd := Some rd1\<rparr>) = (Inr m, c\<lparr>cl_rd := Some rd2\<rparr>)"
    "in_contents rd2 = ys" "in_ok rd2" "in_end rd2 = in_end rd1"
    using client_read_source [of "c\<lparr>cl_rd := Some rd1\<rparr>" rd1 m ys] r1 by auto
  moreover have "unat (from_be (to_be 4 (of_nat (length m) :: u32)) :: u32) = length m"
    using assms(3) by (simp add: unat_of_nat)
  ultimately show ?thesis using r1 by (intro exI [of _ rd2]) (simp add: client_recv_def io_bind_Inr)
qed

lemma client_recv_end:
  assumes "cl_rd c = Some rd" "in_ok rd" "in_contents rd = []" "in_end rd = Eof"
  shows "\<exists>c1. client_recv c = (Inl (Error ConnectionAborted ''peer closed''), c1) \<and> cl_process c1 = cl_process c
    \<and> cl_wr c1 = cl_wr c"
proof -
  have "fst (fill_loop (\<lambda>e. e) (Error ConnectionAborted ''peer closed'') [] 4 rd) = Inl (Error ConnectionAborted ''peer closed'')"
    using fill_loop_short [of rd "[]" 4 "\<lambda>e. e" "Error ConnectionAborted ''peer closed''"] assms by simp
  then show ?thesis
    using assms(1) by (auto simp: client_recv_def io_bind_def read_exact_bytes_def split: prod.splits)
qed

section \<open>The handshake with the server\<close>

lemma banner_length: "length (as_bytes HANDSHAKE_MESSAGE) = 8" "length HANDSHAKE_MESSAGE = 8" "BANNER_SIZE = 12" "KEY_MAX_SIZE = 32"
  by (simp_all add: HANDSHAKE_MESSAGE_def BANNER_SIZE_def KEY_MAX_SIZE_def)

lemma hello_prefix:
  "take 8 (as_bytes HANDSHAKE_MESSAGE @ xs) = as_bytes HANDSHAKE_MESSAGE"
  "utf8_error 0 (as_bytes HANDSHAKE_MESSAGE) = None" "of_bytes (as_bytes HANDSHAKE_MESSAGE) = HANDSHAKE_MESSAGE"
  by (simp add: banner_length) (code_simp, simp)

lemma key_field:
  fixes k :: bytes
  assumes "0 \<notin> set k"
  shows "takeWhile (\<lambda>c. c \<noteq> 0) (if \<exists>c \<in> set (k @ replicate n 0). c \<noteq> 0 then dropWhile (\<lambda>c. c = 0) (k @ replicate n 0)
    else k @ replicate n 0) = k"
proof (cases k)
  case Nil
  then show ?thesis by (cases n) auto
next
  case (Cons b bs)
  then have "takeWhile (\<lambda>c. c \<noteq> 0) (k @ replicate n 0) = k" using assms by (cases n) (auto simp: takeWhile_append)
  then show ?thesis using Cons assms by (auto split: if_splits)
qed

lemma reply_unpacked:
  assumes "wf_str key" "CHR 0x00 \<notin> set key" "length key \<le> KEY_MAX_SIZE"
  shows "unpack_channel_handshake (handshake_reply key) = Some (Inr key)"
proof -
  have "0 \<notin> set (as_bytes key)"
  proof
    assume "0 \<in> set (as_bytes key)"
    then have "char_of_byte 0 \<in> char_of_byte ` set (as_bytes key)" by (rule imageI)
    then have "char_of_byte 0 \<in> set (of_bytes (as_bytes key))" by (simp only: of_bytes_def set_map)
    moreover have "char_of_byte 0 = CHR 0x00" by code_simp
    ultimately show False using assms(2) by simp
  qed
  then have field: "takeWhile (\<lambda>c. c \<noteq> 0) (if \<exists>c \<in> set b. c \<noteq> 0 then dropWhile (\<lambda>c. c = 0) b else b) = as_bytes key"
    if "b = as_bytes key @ replicate (32 - length key) 0" for b
    using key_field that by blast
  have parts: "drop 12 (handshake_reply key) = as_bytes key @ replicate (32 - length key) 0"
    "take 8 (handshake_reply key) = as_bytes HANDSHAKE_MESSAGE" "12 \<le> length (handshake_reply key)"
    by (simp_all add: handshake_reply_def banner_length)
  show ?thesis
    using field [OF parts(1)] parts(2,3) hello_prefix(2,3) assms(1)
    unfolding unpack_channel_handshake_def banner_length Let_def
    by (simp add: valid_utf8_def wf_str_def)
qed

lemma handshake_ok:
  assumes "cl_rd c = Some rd" "in_ok rd" "in_contents rd = channel_frame (channel_hello ch) @ ys"
    and "cl_wr c = Some wr" "out_faults wr = []" "length (cl_connect_key c) \<le> KEY_MAX_SIZE"
  shows "\<exists>rd' wr'. handshake c = (Finished (Inr ()), c\<lparr>cl_rd := Some rd', cl_wr := Some wr'\<rparr>)
    \<and> in_contents rd' = ys \<and> in_ok rd' \<and> in_end rd' = in_end rd
    \<and> out_bytes wr' = out_bytes wr @ channel_frame (handshake_reply (cl_connect_key c)) \<and> out_faults wr' = []"
proof -
  have "length (channel_hello ch) < 2 ^ 32" by (simp add: channel_hello_def banner_length)
  from client_recv_frame [OF assms(1,2) this assms(3)] obtain rd' where
    rd': "client_recv c = (Inr (channel_hello ch), c\<lparr>cl_rd := Some rd'\<rparr>)" "in_contents rd' = ys" "in_ok rd'" "in_end rd' = in_end rd"
    by blast
  have "take 8 (channel_hello ch) = as_bytes HANDSHAKE_MESSAGE" "\<not> length (channel_hello ch) < 8"
    by (simp_all add: channel_hello_def hello_prefix banner_length)
  then have "handshake c = (Finished (Inr ()), client_send (handshake_reply (cl_connect_key c)) (c\<lparr>cl_rd := Some rd'\<rparr>))"
    using rd'(1) assms(6) hello_prefix(2,3) by (simp add: handshake_def banner_length)
  then show ?thesis
    using rd'(2-4) assms(4,5)
    by (intro exI [of _ rd'] exI [of _ "wr\<lparr>out_bytes := out_bytes wr @ channel_frame (handshake_reply (cl_connect_key c))\<rparr>"])
      (simp add: client_send_def tcp_write_all_def channel_frame_def)
qed

section \<open>Everything the server sends is printed\<close>

lemma loop_recv_all:
  "cl_rd c = Some rd \<Longrightarrow> in_ok rd \<Longrightarrow> in_end rd = Eof \<Longrightarrow> in_contents rd = concat (map channel_frame ms) \<Longrightarrow>
    \<forall>m \<in> set ms. length m < 2 ^ 32 \<and> valid_utf8 m \<Longrightarrow>
    \<exists>c'. loop_recv c = (Inr (), c') \<and> cl_process c' = print_out (of_bytes (concat ms)) (cl_process c) \<and> cl_wr c' = cl_wr c"
proof (induction ms arbitrary: c rd)
  case Nil
  then obtain c1 where "client_recv c = (Inl (Error ConnectionAborted ''peer closed''), c1)" "cl_process c1 = cl_process c"
    "cl_wr c1 = cl_wr c"
    using client_recv_end by fastforce
  then show ?case by (simp add: loop_recv.simps [of c] print_out_def of_bytes_def)
next
  case (Cons m ms)
  obtain rd1 where rd1: "client_recv c = (Inr m, c\<lparr>cl_rd := Some rd1\<rparr>)" "in_contents rd1 = concat (map channel_frame ms)"
    "in_ok rd1" "in_end rd1 = in_end rd"
    using client_recv_frame [OF Cons.prems(1,2), of m "concat (map channel_frame ms)"] Cons.prems(4,5) by auto
  let ?c = "on_process (show_recv m) (c\<lparr>cl_rd := Some rd1\<rparr>)"
  obtain c' where "loop_recv ?c = (Inr (), c')" "cl_process c' = print_out (of_bytes (concat ms)) (cl_process ?c)" "cl_wr c' = cl_wr ?c"
    using Cons.IH [of ?c rd1] rd1(2-4) Cons.prems(3,5) by (auto simp: on_process_def)
  then show ?case
    using rd1(1) Cons.prems(5)
    by (simp add: loop_recv.simps [of c] on_process_def show_recv_def print_out_def of_bytes_def)
qed

section \<open>The bridge between the terminal and the server\<close>

lemma take_message_frame:
  assumes "length m < 2 ^ 32"
  shows "take_message (channel_frame m @ ys) = Some (m, ys)"
  using assms by (simp add: take_message_def channel_frame_def Let_def unat_of_nat take_bit_nat_eq_self)

lemma take_messages_frames:
  "\<forall>m \<in> set ms. length m < 2 ^ 32 \<Longrightarrow> take_messages (concat (map channel_frame ms)) = (ms, [])"
proof (induction ms)
  case Nil
  show ?case by (simp add: take_messages.simps take_message_def)
next
  case (Cons m ms)
  then show ?case
    by (simp add: take_messages.simps [of "channel_frame m @ concat (map channel_frame ms)"] take_message_frame)
qed

text \<open>Whole messages from the server, in whatever groups, between inputs from the terminal.\<close>

fun whole_event :: "bytes list + bytes \<Rightarrow> console_event" where
  "whole_event (Inl ms) = FromServer (concat (map channel_frame ms))"
| "whole_event (Inr d) = FromStdin d"

definition shown :: "(bytes list + bytes) list \<Rightarrow> bytes" where
  "shown xs = concat (map (\<lambda>x. case x of Inl ms \<Rightarrow> concat ms | Inr _ \<Rightarrow> []) xs)"

definition typed :: "(bytes list + bytes) list \<Rightarrow> bytes" where
  "typed xs = concat (map (\<lambda>x. case x of Inl _ \<Rightarrow> [] | Inr d \<Rightarrow> channel_frame d) xs)"

lemma shell_loop_whole:
  "\<forall>ms. Inl ms \<in> set xs \<longrightarrow> (\<forall>m \<in> set ms. length m < 2 ^ 32) \<Longrightarrow> out_faults wr = [] \<Longrightarrow>
    shell_loop [] (map whole_event xs) wr p
      = (Inr (), (wr\<lparr>out_bytes := out_bytes wr @ typed xs\<rparr>, print_out (of_bytes (shown xs)) p))"
proof (induction xs arbitrary: wr p)
  case Nil
  then show ?case by (simp add: typed_def shown_def print_out_def of_bytes_def)
next
  case (Cons x xs)
  show ?case
  proof (cases x)
    case (Inl ms)
    have "take_messages (concat (map channel_frame ms)) = (ms, [])"
      using Cons.prems(1) Inl by (intro take_messages_frames) auto
    then show ?thesis
      using Cons.IH [of wr "print_out (of_bytes (concat ms)) p"] Cons.prems Inl
      by (simp add: typed_def shown_def print_out_def of_bytes_def)
  next
    case (Inr d)
    obtain b where wr: "wr = \<lparr>out_bytes = b, out_faults = []\<rparr>"
      using Cons.prems(2) by (metis tcp_out.surjective old.unit.exhaust)
    let ?wr = "\<lparr>out_bytes = b @ channel_frame d, out_faults = []\<rparr>"
    have "shell_loop [] (map whole_event xs) ?wr p
        = (Inr (), (?wr\<lparr>out_bytes := out_bytes ?wr @ typed xs\<rparr>, print_out (of_bytes (shown xs)) p))"
      using Cons.prems by (intro Cons.IH) auto
    then show ?thesis
      using Inr by (simp add: wr typed_def shown_def tcp_write_all_def channel_frame_def cong: sum.case_cong)
  qed
qed

text \<open>
  Input from the terminal between the length of a message and its text: the text is taken for the
  length of the next message, and nothing of it is shown.
\<close>

lemma from_be_at_least:
  assumes "length bs = 4" "hd bs \<noteq> 0"
  shows "2 ^ 24 \<le> unat (from_be bs :: u32)"
proof -
  let ?w = "from_be bs :: u32"
  have "to_be 4 ?w = bs" using to_from_be [of bs, where 'a = 32] assms(1) by simp
  moreover have "hd (to_be (Suc 3) ?w) = ucast (drop_bit (8 * 3) ?w)" by (simp only: to_be.simps list.sel)
  ultimately have "hd bs = ucast (drop_bit 24 ?w)" by simp
  then have "drop_bit 24 ?w \<noteq> 0" using assms(2) by auto
  then have "unat (drop_bit 24 ?w) \<noteq> 0" by (simp add: unsigned_eq_0_iff)
  moreover have "unat (drop_bit 24 ?w) = unat ?w div 2 ^ 24"
    using unsigned_less [of ?w, where 'a = nat]
    by (simp add: unsigned_drop_bit_eq drop_bit_nat_def take_bit_nat_eq_self)
  ultimately have "unat ?w div 2 ^ 24 \<noteq> 0" by simp
  then show ?thesis by (simp add: div_eq_0_iff)
qed

lemma shell_loop_lost:
  assumes "4 \<le> length m" "length m < 2 ^ 24" "hd m \<noteq> 0" "out_faults wr = []"
  shows "shell_loop [] [FromServer (to_be 4 (of_nat (length m) :: u32)), FromStdin d, FromServer m] wr p
    = (Inr (), (wr\<lparr>out_bytes := out_bytes wr @ channel_frame d\<rparr>, p))"
proof -
  let ?l = "to_be 4 (of_nat (length m) :: u32)"
  have "unat (of_nat (length m) :: u32) = length m" using assms(2) by (simp add: unat_of_nat take_bit_nat_eq_self)
  then have "take_message ?l = None" using assms(1) by (auto simp: take_message_def Let_def)
  then have "take_messages ?l = ([], ?l)" by (simp add: take_messages.simps [of ?l])
  moreover have "2 ^ 24 \<le> unat (from_be (take 4 m) :: u32)"
    using assms(1,3) by (intro from_be_at_least) (auto simp: hd_conv_nth)
  then have "take_message m = None" using assms(1,2) by (simp add: take_message_def Let_def)
  then have "take_messages m = ([], m)" by (simp add: take_messages.simps [of m])
  moreover obtain b where "wr = \<lparr>out_bytes = b, out_faults = []\<rparr>"
    using assms(4) by (metis tcp_out.surjective old.unit.exhaust)
  ultimately show ?thesis
    by (simp add: tcp_write_all_def channel_frame_def print_out_def of_bytes_def)
qed

section \<open>Commands from the command line\<close>

text \<open>A word of the command line without a space in it; the command words then are separate.\<close>

definition one_word :: "string \<Rightarrow> bool" where
  "one_word w \<longleftrightarrow> CHR '' '' \<notin> set w"

lemma split_spec_phrase:
  "pd_command (split_spec opts ws) = Some c \<Longrightarrow>
    \<exists>pre. ws = pre @ pd_parameters (split_spec opts ws) \<and> phrase (pd_parameters (split_spec opts ws)) = Some c
      \<and> pd_parameters (split_spec opts ws) \<noteq> []"
proof (induction ws arbitrary: opts)
  case (Cons w ws)
  show ?case
  proof (cases "phrase (w # ws)")
    case None
    then obtain pre where "ws = pre @ pd_parameters (split_spec (opts @ [w]) ws)"
      "phrase (pd_parameters (split_spec (opts @ [w]) ws)) = Some c" "pd_parameters (split_spec (opts @ [w]) ws) \<noteq> []"
      using Cons.IH [of "opts @ [w]"] Cons.prems by auto
    then show ?thesis using None by (intro exI [of _ "w # pre"]) simp
  qed (use Cons.prems in simp)
qed simp

lemma file_send_words:
  assumes "phrase ws = Some FileInit" "\<forall>w \<in> set ws. one_word w"
  shows "2 \<le> length ws"
proof (rule ccontr)
  assume short: "\<not> 2 \<le> length ws"
  have "list_all (\<lambda>(k, c). c = FileInit \<longrightarrow> CHR '' '' \<in> set k) CMD_MAP" by code_simp
  moreover have "(join '' '' (take 1 ws), FileInit) \<in> set CMD_MAP"
    using assms(1) short by (auto simp: phrase_def split: option.splits if_splits dest: map_of_SomeD)
  ultimately have "CHR '' '' \<in> set (join '' '' (take 1 ws))" by (auto simp: list_all_iff)
  then show False using assms(2) by (cases ws) (auto simp: one_word_def)
qed

lemma one_word_plain: "\<forall>w \<in> set ws. one_word w \<Longrightarrow> plain_words ws"
proof -
  assume words: "\<forall>w \<in> set ws. one_word w"
  have "list_all (\<lambda>(k, c). c \<in> set forward_manage \<longrightarrow> CHR '' '' \<in> set k) CMD_MAP" by code_simp
  then show ?thesis using words by (fastforce simp: plain_words_def one_word_def list_all_iff dest: map_of_SomeD)
qed

lemma cwd_fits:
  assumes "parse_command args = Some (Inr pc)" "\<forall>w \<in> set (tl args). one_word w"
  shows "pc_command pc = Some FileInit \<Longrightarrow> 2 \<le> length (pc_parameters pc)"
    and "pc_command pc = Some c \<Longrightarrow> 1 \<le> length (pc_parameters pc)"
proof -
  have parts: "pc_command pc = pd_command (split_spec [] (tl args))" "pc_parameters pc = pd_parameters (split_spec [] (tl args))"
    using parse_command_spec [OF one_word_plain [OF assms(2)] assms(1)] by auto
  show "pc_command pc = Some FileInit \<Longrightarrow> 2 \<le> length (pc_parameters pc)"
  proof -
    assume cmd: "pc_command pc = Some FileInit"
    then obtain pre where pre: "tl args = pre @ pc_parameters pc" "phrase (pc_parameters pc) = Some FileInit"
      using split_spec_phrase [of "[]" "tl args" FileInit] parts by auto
    then have "\<forall>w \<in> set (pc_parameters pc). one_word w" using assms(2) by auto
    then show ?thesis using file_send_words [OF pre(2)] by simp
  qed
  show "pc_command pc = Some c \<Longrightarrow> 1 \<le> length (pc_parameters pc)"
    using split_spec_phrase [of "[]" "tl args" c] parts by (auto simp: Suc_le_eq)
qed

lemma finishes_no_panic: "fst (finishes m c) \<noteq> Panicked" "fst (unity_task c) \<noteq> Panicked" "fst (general_task c) \<noteq> Panicked"
  by (simp_all add: finishes_def unity_task_def general_task_def split: prod.splits)

lemma send_with_cwd_no_panic: "n \<le> length (cl_params c) \<Longrightarrow> fst (send_with_cwd n c) \<noteq> Panicked"
  by (auto simp: send_with_cwd_def insert_cwd_def fails_def finishes_no_panic split: sum.splits)

lemma execute_no_panic:
  assumes "cl_command c \<noteq> KernelWaitFor" "cl_command c = FileInit \<Longrightarrow> 2 \<le> length (cl_params c)" "1 \<le> length (cl_params c)"
  shows "fst (execute_command c) \<noteq> Panicked"
proof -
  have "fst (shell_task c) \<noteq> Panicked"
    by (auto simp: shell_task_def fails_def finishes_no_panic Let_def split: option.splits prod.splits)
  moreover have "fst (client_file_send_task c) \<noteq> Panicked" "fst (app_install_task c) \<noteq> Panicked" "fst (app_sideload_task c) \<noteq> Panicked"
    using assms(2,3)
    by (auto simp: client_file_send_task_def app_install_task_def app_sideload_task_def send_with_cwd_no_panic finishes_no_panic)
  moreover have "fst (forward_task c) \<noteq> Panicked" "fst (unity_root_run_task c) \<noteq> Panicked" "fst (bug_report_task c) \<noteq> Panicked"
    "fst (app_uninstall_task c) \<noteq> Panicked"
    by (simp_all add: forward_task_def unity_root_run_task_def bug_report_task_def app_uninstall_task_def fails_def finishes_no_panic)
  ultimately show ?thesis
    using assms(1) by (simp add: execute_command_def Let_def fails_def finishes_no_panic)
qed

text \<open>A server that greets.\<close>

definition greets :: "tcp_in \<Rightarrow> bool" where
  "greets rd \<longleftrightarrow> in_ok rd \<and> (\<exists>ch ys. in_contents rd = channel_frame (channel_hello ch) @ ys)"

lemma connect_key_fits: "length (pc_connect_key pc) \<le> 32 \<Longrightarrow> length (auto_connect_key (pc_connect_key pc) c) \<le> KEY_MAX_SIZE"
  by (simp add: auto_connect_key_def KEY_MAX_SIZE_def)

lemma handshake_greeted:
  assumes "cl_rd c = Some rd" "greets rd" "length (cl_connect_key c) \<le> KEY_MAX_SIZE"
  shows "\<exists>c1. handshake c = (Finished (Inr ()), c1) \<and> cl_command c1 = cl_command c \<and> cl_params c1 = cl_params c"
proof -
  obtain ch ys where "in_ok rd" "in_contents rd = channel_frame (channel_hello ch) @ ys"
    using assms(2) by (auto simp: greets_def)
  moreover have "length (channel_hello ch) < 2 ^ 32" by (simp add: channel_hello_def banner_length)
  ultimately obtain rd' where "client_recv c = (Inr (channel_hello ch), c\<lparr>cl_rd := Some rd'\<rparr>)"
    using client_recv_frame [OF assms(1)] by blast
  moreover have "take 8 (channel_hello ch) = as_bytes HANDSHAKE_MESSAGE" "\<not> length (channel_hello ch) < 8"
    by (simp_all add: channel_hello_def hello_prefix banner_length)
  ultimately have "handshake c = (Finished (Inr ()), client_send (handshake_reply (cl_connect_key c)) (c\<lparr>cl_rd := Some rd'\<rparr>))"
    using assms(3) hello_prefix(2,3) by (simp add: handshake_def banner_length)
  then show ?thesis by (simp add: client_send_def split: option.splits)
qed

lemma client_no_panic:
  assumes "parse_command args = Some (Inr pc)" "\<forall>w \<in> set (tl args). one_word w" "pc_command pc \<noteq> Some KernelWaitFor"
    and "\<forall>rd wr. Inr (rd, wr) \<in> set (pr_connects p) \<longrightarrow> greets rd"
  shows "fst (run_client_mode env own pc p) \<noteq> Panicked"
proof -
  have "fst (talk_to_server pc q) \<noteq> Panicked" if q: "set (pr_connects q) \<subseteq> set (pr_connects p)" for q
  proof (cases "client_new pc q")
    case (Pair r q1)
    show ?thesis
    proof (cases r)
      case (Inl e)
      then show ?thesis using Pair by (simp add: talk_to_server_def)
    next
      case (Inr c)
      obtain cmd rd wr where c: "pc_command pc = Some cmd" "Inr (rd, wr) \<in> set (pr_connects q)" "cl_command c = cmd"
        "cl_params c = pc_parameters pc" "cl_rd c = Some rd" "cl_connect_key c = auto_connect_key (pc_connect_key pc) cmd"
        using Pair Inr by (force simp: client_new_def tcp_connect_def split: option.splits prod.splits sum.splits list.splits)
      have "greets rd" using c(2) q assms(4) by blast
      moreover have "length (cl_connect_key c) \<le> KEY_MAX_SIZE"
        using parse_command_ok [OF assms(1)] connect_key_fits [of pc cmd] c(6) by (simp add: options_ok_def)
      ultimately obtain c1 where c1: "handshake c = (Finished (Inr ()), c1)" "cl_command c1 = cmd" "cl_params c1 = pc_parameters pc"
        using handshake_greeted [OF c(5)] c(3,4) by auto
      have "fst (execute_command c1) \<noteq> Panicked"
        using c1(2,3) c(1) assms(3) cwd_fits [OF assms(1,2)] by (intro execute_no_panic) auto
      then show ?thesis using Pair Inr c1(1) by (simp add: talk_to_server_def and_process_def)
    qed
  qed
  moreover have "set (pr_connects (ensure_server pc p)) \<subseteq> set (pr_connects p)"
    by (auto simp: ensure_server_def tcp_connect_def fork_for_def server_fork_def split: list.splits sum.splits)
  ultimately show ?thesis by (simp add: run_client_mode_def Let_def)
qed

text \<open>The two command words as one argument are accepted, and the insertion of the directory panics.\<close>

lemma quoted_file_send:
  "parse_command [''hdc'', ''file send'']
    = Some (Inr (parsed_default\<lparr>pc_command := Some FileInit, pc_parameters := [''file send'']\<rparr>))"
proof -
  have "split_opt_and_cmd [''file send''] = \<lparr>pd_options = [], pd_command = Some FileInit, pd_parameters = [''file send'']\<rparr>"
    by code_simp
  then show ?thesis by (simp add: parse_command_def extract_global_params_def parsed_default_def)
qed

lemma quoted_file_send_panics:
  "cl_command c = FileInit \<Longrightarrow> cl_params c = [''file send''] \<Longrightarrow> pr_cwd (cl_process c) = Inr d \<Longrightarrow>
    execute_command c = (Panicked, c)"
  by (simp add: execute_command_def client_file_send_task_def send_with_cwd_def insert_cwd_def)

section \<open>The started server\<close>

text \<open>A text that cannot be a command word or an option.\<close>

definition address_text :: "string \<Rightarrow> bool" where
  "address_text s \<longleftrightarrow> is_ascii s \<and> (CHR '':'' \<in> set s \<or> CHR ''.'' \<in> set s) \<and> \<not> prefix ''-'' s"

definition no_command_word :: "string \<Rightarrow> bool" where
  "no_command_word w \<longleftrightarrow> list_ex (\<lambda>c. c \<in> set '':.0123456789'') w \<or> prefix ''-'' w"

lemma no_command_append: "no_command_word w \<Longrightarrow> no_command_word (w @ t)"
  by (auto simp: no_command_word_def simp del: list.set)

lemma no_command_none: "no_command_word k \<Longrightarrow> map_of CMD_MAP k = None"
proof (rule ccontr)
  assume k: "no_command_word k" "map_of CMD_MAP k \<noteq> None"
  have "list_all (\<lambda>(k, c). \<not> no_command_word k) CMD_MAP" by code_simp
  moreover obtain c where "(k, c) \<in> set CMD_MAP" using k(2) by (auto dest: map_of_SomeD)
  ultimately show False using k(1) by (auto simp: list_all_iff)
qed

lemma phrase_other:
  assumes "no_command_word w"
  shows "phrase (w # ws) = None"
proof -
  obtain t where "join '' '' (take 2 (w # ws)) = w @ t" by (cases ws) auto
  then have "map_of CMD_MAP (join '' '' (take 2 (w # ws))) = None"
    using no_command_none [OF no_command_append [OF assms]] by simp
  moreover have "map_of CMD_MAP (join '' '' (take 1 (w # ws))) = None" using no_command_none [OF assms] by simp
  ultimately show ?thesis by (simp add: phrase_def)
qed

lemma split_spec_other:
  "\<forall>w \<in> set ws. no_command_word w \<Longrightarrow>
    split_spec opts ws = \<lparr>pd_options = opts @ ws, pd_command = None, pd_parameters = []\<rparr>"
  by (induction ws arbitrary: opts) (simp_all add: phrase_other)

lemma address_no_command: "address_text s \<Longrightarrow> no_command_word s"
  by (auto simp: address_text_def no_command_word_def list_ex_iff)

lemma other_option:
  assumes "address_text s"
  shows "extract_loop (s # opts) pc = extract_loop opts pc"
proof -
  have "\<not> prefix (CHR ''-'' # p) s" for p using assms by (cases s) (auto simp: address_text_def)
  then have "apply_option s arg pc = Inr pc" for arg by (simp add: apply_option_def)
  moreover have "str_slice 2 (length s) s \<noteq> None" if "2 < length s"
    using assms that ascii_slice [of s 2 "length s"] by (simp add: address_text_def)
  ultimately show ?thesis by (auto split: option.splits)
qed

lemma level_option:
  assumes "level < 7"
  shows "extract_loop (''-l'' # show_nat level # opts) pc = extract_loop opts (pc\<lparr>pc_log_level := level\<rparr>)"
    and "no_command_word (show_nat level)"
proof -
  have show1: "show_nat level = [digit level]" using assms by (simp add: show_nat.simps)
  have "list_all (\<lambda>l. digit l \<in> set ''0123456'') [0..<7]" by code_simp
  then have "digit level \<in> set ''0123456''" using assms unfolding list_all_iff by (auto simp del: list.set)
  moreover have "parse_uint (2 ^ 64 - 1) (show_nat level) = Some level" using assms by simp
  ultimately obtain c where c: "show_nat level = [c]" "parse_uint (2 ^ 64 - 1) [c] = Some level" "c \<in> set ''0123456''"
    using show1 by metis
  have "apply_option [c] arg pc = Inr pc" for arg pc using c(3) by (auto simp: apply_option_def)
  then show "extract_loop (''-l'' # show_nat level # opts) pc = extract_loop opts (pc\<lparr>pc_log_level := level\<rparr>)"
    using c(1,2) assms by (simp add: apply_option_def)
  show "no_command_word (show_nat level)" using c(1,3) by (auto simp: no_command_word_def)
qed

lemma extract_two:
  "extract_loop ([a, b] # arg # opts) pc =
    (case apply_option [a, b] arg pc of Inl e \<Rightarrow> Some (Inl e) | Inr pc' \<Rightarrow> extract_loop (arg # opts) pc')"
  by (subst extract_loop.simps(2)) (simp del: extract_loop.simps(2))

lemma fork_args_parsed:
  assumes "level < 7" "parse_server_listen_string addr = Inr addr" "address_text addr"
    and "ip = [] \<or> address_text ip \<and> parse_ip_addr ip \<noteq> None"
  shows "parse_command (exe # server_fork_args addr level ip)
    = Some (Inr (parsed_default\<lparr>pc_run_in_server := True, pc_spawned_server := True, pc_log_level := level,
        pc_server_addr := addr, pc_forward_listen_ip := (if ip = [] then ''127.0.0.1'' else ip)\<rparr>))"
proof -
  let ?args = "server_fork_args addr level ip"
  have words: "\<forall>w \<in> set ?args. no_command_word w"
    using assms level_option(2) [OF assms(1)] address_no_command
    by (auto simp: server_fork_args_def no_command_word_def)
  then have "plain_words ?args" by (auto simp: plain_words_def no_command_none)
  then have split: "split_opt_and_cmd ?args = \<lparr>pd_options = ?args, pd_command = None, pd_parameters = []\<rparr>"
    using split_opt_and_cmd_spec split_spec_other [OF words] by simp
  have flag: "extract_loop (''-b'' # opts) pc = extract_loop opts (pc\<lparr>pc_spawned_server := True\<rparr>)"
    "extract_loop (''-m'' # opts) pc = extract_loop opts (pc\<lparr>pc_run_in_server := True\<rparr>)" for opts pc
    by (simp_all add: apply_option_def)
  have "apply_option ''-s'' addr pc = Inr (pc\<lparr>pc_server_addr := addr\<rparr>)"
    "parse_ip_addr ip \<noteq> None \<Longrightarrow> apply_option ''-e'' ip pc = Inr (pc\<lparr>pc_forward_listen_ip := ip\<rparr>)" for pc
    using assms(2) by (auto simp: apply_option_def)
  then have "extract_loop (''-s'' # addr # opts) pc = extract_loop (addr # opts) (pc\<lparr>pc_server_addr := addr\<rparr>)"
    "address_text ip \<Longrightarrow> parse_ip_addr ip \<noteq> None \<Longrightarrow>
      extract_loop (''-e'' # ip # opts) pc = extract_loop (ip # opts) (pc\<lparr>pc_forward_listen_ip := ip\<rparr>)" for opts pc
    by (simp_all only: extract_two sum.case not_False_eq_True simp_thms)
  then have opt: "extract_loop (''-s'' # addr # opts) pc = extract_loop opts (pc\<lparr>pc_server_addr := addr\<rparr>)"
    "address_text ip \<Longrightarrow> parse_ip_addr ip \<noteq> None \<Longrightarrow>
      extract_loop (''-e'' # ip # opts) pc = extract_loop opts (pc\<lparr>pc_forward_listen_ip := ip\<rparr>)" for opts pc
    by (simp_all only: other_option [OF assms(3)] other_option not_False_eq_True simp_thms)
  have "extract_global_params ?args = Some (Inr (parsed_default\<lparr>pc_run_in_server := True, pc_spawned_server := True,
      pc_log_level := level, pc_server_addr := addr, pc_forward_listen_ip := (if ip = [] then ''127.0.0.1'' else ip)\<rparr>))"
    using assms(4) level_option(1) [OF assms(1)]
    by (auto simp: extract_global_params_def server_fork_args_def flag opt parsed_default_def LOCAL_HOST_def
        simp del: extract_loop.simps(2))
  then show ?thesis by (simp add: parse_command_def split parsed_default_def)
qed

end
