(* ===== verification/Auth_Tlv.thy ===== *)
theory Auth_Tlv
  imports Rust_Text
begin

text \<open>
  The text records that host and daemon exchange in the \<open>buf\<close> field of a handshake: a 16-byte
  tag, a 16-byte decimal length, both padded with spaces, and the value. \<open>make_tlv\<close>,
  \<open>build_host_auth_buf\<close> and \<open>parse_tlv\<close> are those of \<open>hdc/src/server.rs\<close>;
  \<open>daemon_parse_tlv\<close>, \<open>build_daemon_auth_buf\<close> and the two queries those of
  \<open>hdcd/src/main.rs\<close>. A parser slices the text at fixed byte positions and panics, the outer
  \<open>None\<close>, when such a position is inside a multi-byte character. What the environment provides
  (variables, the public key text) is an argument.
\<close>

section \<open>Definitions\<close>

definition FEATURE_ENCRYPT_TCP :: string where "FEATURE_ENCRYPT_TCP = ''encrypt_tcp''"
definition FEATURE_HEARTBEAT :: string where "FEATURE_HEARTBEAT = ''heartbeat''"

definition make_tlv :: "string \<Rightarrow> string \<Rightarrow> string" where
  "make_tlv tag val = pad_right 16 tag @ pad_right 16 (show_nat (length val)) @ val"

text \<open>The largest \<open>usize\<close>.\<close>

definition usize_max :: nat where "usize_max = 2 ^ 64 - 1"

function parse_tlv_loop :: "string \<Rightarrow> (string \<Rightarrow> string option) \<Rightarrow> (string \<Rightarrow> string option) option" where
  "parse_tlv_loop remaining m =
    (if length remaining < 32 then Some m
     else case (str_slice 0 16 remaining, str_slice 16 32 remaining) of
       (Some tag, Some val_len_str) \<Rightarrow>
         (case parse_uint usize_max (trim_end val_len_str) of
            None \<Rightarrow> Some m
          | Some val_len \<Rightarrow>
              if length (drop 32 remaining) < val_len then Some m
              else case str_slice 0 val_len (drop 32 remaining) of
                None \<Rightarrow> None
              | Some val \<Rightarrow>
                  parse_tlv_loop (drop val_len (drop 32 remaining)) (m(trim_end tag \<mapsto> val)))
     | _ \<Rightarrow> None)"
  by pat_completeness auto
termination by (relation "measure (\<lambda>(r, _). length r)") auto

declare parse_tlv_loop.simps [simp del]

definition parse_tlv :: "string \<Rightarrow> (string \<Rightarrow> string option) option" where
  "parse_tlv tlv = parse_tlv_loop tlv Map.empty"

function daemon_parse_tlv_loop :: "string \<Rightarrow> (string \<Rightarrow> string option) \<Rightarrow> (string \<Rightarrow> string option) option" where
  "daemon_parse_tlv_loop remaining m =
    (if length remaining < 32 then Some m
     else case (str_slice 0 16 remaining, str_slice 16 32 remaining) of
       (Some tag, Some val_len_str) \<Rightarrow>
         (case parse_uint usize_max (trim_end val_len_str) of
            None \<Rightarrow> Some m
          | Some val_len \<Rightarrow>
              if length remaining < 32 + val_len then Some m
              else case str_slice 32 (32 + val_len) remaining of
                None \<Rightarrow> None
              | Some val \<Rightarrow>
                  daemon_parse_tlv_loop (drop (32 + val_len) remaining) (m(trim_end tag \<mapsto> val)))
     | _ \<Rightarrow> None)"
  by pat_completeness auto
termination by (relation "measure (\<lambda>(r, _). length r)") auto

declare daemon_parse_tlv_loop.simps [simp del]

definition daemon_parse_tlv :: "string \<Rightarrow> (string \<Rightarrow> string option) option" where
  "daemon_parse_tlv tlv = daemon_parse_tlv_loop tlv Map.empty"

definition host_supports_encrypt :: "string \<Rightarrow> bool option" where
  "host_supports_encrypt buf =
    map_option (\<lambda>m. case m ''supportfeatures'' of
        None \<Rightarrow> False
      | Some v \<Rightarrow> list_ex (\<lambda>f. f = FEATURE_ENCRYPT_TCP) (split_on CHR '','' v))
      (daemon_parse_tlv buf)"

definition extract_host_pubkey :: "string \<Rightarrow> string option option" where
  "extract_host_pubkey buf = map_option (\<lambda>m. m ''pubkey'') (daemon_parse_tlv buf)"

text \<open>\<open>encrypt_env\<close> is the value of \<open>OHOS_HDC_ENCRYPT_CHANNEL\<close>.\<close>

definition features :: "string option \<Rightarrow> string list" where
  "features encrypt_env =
    [FEATURE_HEARTBEAT] @ (if encrypt_env = Some ''1'' then [FEATURE_ENCRYPT_TCP] else [])"

definition build_host_auth_buf :: "string io_result \<Rightarrow> string option \<Rightarrow> string" where
  "build_host_auth_buf pubkey_info encrypt_env =
    make_tlv ''authtype'' ''1''
    @ (case pubkey_info of Inl _ \<Rightarrow> [] | Inr info \<Rightarrow> make_tlv ''pubkey'' info)
    @ make_tlv ''supportfeatures'' (join '','' (features encrypt_env))"

definition build_daemon_auth_buf :: "string option \<Rightarrow> string option \<Rightarrow> string option \<Rightarrow> string" where
  "build_daemon_auth_buf hostname_env computername_env encrypt_env =
    (let hostname = (case hostname_env of
           Some h \<Rightarrow> h
         | None \<Rightarrow> (case computername_env of Some h \<Rightarrow> h | None \<Rightarrow> ''hdcd-stub''))
     in make_tlv ''devname'' hostname
        @ make_tlv ''supportfeatures'' (join '','' (features encrypt_env)))"

section \<open>The two parsers agree\<close>

lemma is_char_boundary_drop:
  "k \<le> length s \<Longrightarrow> is_char_boundary i (drop k s) \<longleftrightarrow> is_char_boundary (k + i) s"
  by (auto simp: is_char_boundary_def)

lemma daemon_parse_tlv_loop_eq: "daemon_parse_tlv_loop r m = parse_tlv_loop r m"
proof (induction r m rule: parse_tlv_loop.induct)
  case (1 r m)
  show ?case
  proof (cases "length r < 32")
    case True
    then show ?thesis by (simp add: daemon_parse_tlv_loop.simps [of r] parse_tlv_loop.simps [of r])
  next
    case long: False
    show ?thesis
    proof (cases "str_slice 16 32 r")
      case None
      then show ?thesis
        using long by (simp add: daemon_parse_tlv_loop.simps [of r] parse_tlv_loop.simps [of r]
            split: option.splits)
    next
      case (Some v)
      then have "is_char_boundary 32 r" by (auto simp: str_slice_def split: if_splits)
      then have slice: "str_slice 32 (32 + n) r = str_slice 0 n (drop 32 r)" for n
        using long is_char_boundary_drop [of 32 r 0] is_char_boundary_drop [of 32 r n]
        by (simp add: str_slice_def)
      have less: "length r < 32 + n \<longleftrightarrow> length (drop 32 r) < n" for n using long by auto
      show ?thesis
      proof (cases "str_slice 0 16 r")
        case tag: (Some tag)
        show ?thesis
        proof (cases "parse_uint usize_max (trim_end v)")
          case n: (Some n)
          show ?thesis
          proof (cases "length (drop 32 r) < n \<or> str_slice 0 n (drop 32 r) = None")
            case True
            then show ?thesis
              using long Some tag n
              by (auto simp: daemon_parse_tlv_loop.simps [of r] parse_tlv_loop.simps [of r] slice less)
          next
            case False
            then obtain val where val: "str_slice 0 n (drop 32 r) = Some val" "\<not> length (drop 32 r) < n"
              by auto
            have drop: "drop n (drop 32 r) = drop (32 + n) r" by (simp add: add.commute)
            have "daemon_parse_tlv_loop (drop (32 + n) r) (m(trim_end tag \<mapsto> val))
                = parse_tlv_loop (drop (32 + n) r) (m(trim_end tag \<mapsto> val))"
              using "1.IH" [OF long refl tag Some n val(2,1)] unfolding drop .
            then show ?thesis
              using long Some tag n val
              by (simp add: daemon_parse_tlv_loop.simps [of r] parse_tlv_loop.simps [of r] slice less
                  drop del: drop_drop)
          qed
        qed (use long Some tag in \<open>simp add: daemon_parse_tlv_loop.simps [of r] parse_tlv_loop.simps [of r]\<close>)
      qed (use long in \<open>simp add: daemon_parse_tlv_loop.simps [of r] parse_tlv_loop.simps [of r]\<close>)
    qed
  qed
qed

section \<open>Parsing what was built\<close>

definition starts_ok :: "string \<Rightarrow> bool" where
  "starts_ok s \<longleftrightarrow> s = [] \<or> \<not> is_cont_char (hd s)"

lemma is_char_boundary_append: "starts_ok t \<Longrightarrow> is_char_boundary (length s) (s @ t)"
  by (cases t) (auto simp: is_char_boundary_def starts_ok_def)

lemma of_char_cont: "is_cont_char c \<Longrightarrow> 128 \<le> (of_char c :: nat) \<and> (of_char c :: nat) < 192"
  by (cases c) (auto simp: is_cont_char_def of_bool_def)

lemma starts_ok_wf_str: "wf_str s \<Longrightarrow> starts_ok s"
proof (cases s)
  case (Cons c cs)
  assume "wf_str s"
  then have "utf8_char_width (byte_of_char c) \<noteq> 0"
    using Cons by (auto simp: wf_str_def as_bytes_def valid_utf8_Cons utf8_step_def Let_def
        split: if_split_asm)
  moreover have "is_cont_char c \<Longrightarrow> utf8_char_width (byte_of_char c) = 0"
    using of_char_cont [of c]
    by (auto simp: utf8_char_width_def word_less_nat_alt word_le_nat_alt unat_byte_of_char)
  ultimately show ?thesis using Cons by (auto simp: starts_ok_def)
qed (simp add: starts_ok_def)

lemma starts_ok_append: "starts_ok s \<Longrightarrow> starts_ok t \<Longrightarrow> starts_ok (s @ t)"
  by (cases s) (auto simp: starts_ok_def)

lemma ends_ws_last:
  assumes "ends_ws s" shows "digit_val (last s) = None"
proof -
  obtain p where p: "p \<in> set ws_encodings" "suffix p s" using assms by (auto simp: ends_ws_def)
  then have "p \<noteq> []" "digit_val (last p) = None" by (auto simp: ws_encodings_def digit_val_def)
  then show ?thesis using p(2) by (auto simp: suffix_def)
qed

lemma not_ends_ws_show_nat: "\<not> ends_ws (show_nat n)"
  using ends_ws_last [of "show_nat n"] show_nat_digits [of "last (show_nat n)" n] by auto

lemma pad_right_ascii:
  assumes "is_ascii s" "length s \<le> 16"
  shows "length (pad_right 16 s) = 16" "is_ascii (pad_right 16 s)"
  using assms by (auto simp: pad_right_def char_count_ascii is_ascii_def list_all_iff)

lemma trim_end_pad_right: "\<not> ends_ws s \<Longrightarrow> trim_end (pad_right n s) = s"
  by (simp add: pad_right_def trim_end_pad)

definition wf_tlv :: "string \<times> string \<Rightarrow> bool" where
  "wf_tlv kv \<longleftrightarrow> is_ascii (fst kv) \<and> length (fst kv) \<le> 16 \<and> \<not> ends_ws (fst kv)
    \<and> wf_str (snd kv) \<and> length (snd kv) < 10 ^ 16"

lemma starts_ok_ascii: "is_ascii s \<Longrightarrow> starts_ok s"
  by (auto simp: starts_ok_def ascii_no_cont)

lemma ascii_boundary: "is_ascii s \<Longrightarrow> starts_ok t \<Longrightarrow> i \<le> length s \<Longrightarrow> is_char_boundary i (s @ t)"
  using is_char_boundary_append [of t s]
  by (cases "i = length s") (auto simp: is_char_boundary_def nth_append ascii_no_cont)

lemma parse_tlv_loop_make:
  assumes "wf_tlv (k, v)" "starts_ok rest"
  shows "parse_tlv_loop (make_tlv k v @ rest) m = parse_tlv_loop rest (m(k \<mapsto> v))"
proof -
  let ?n = "show_nat (length v)"
  let ?k = "pad_right 16 k" and ?l = "pad_right 16 ?n"
  have len: "length ?n \<le> 16"
    using assms(1) by (intro length_show_nat) (auto simp: wf_tlv_def)
  have k: "length ?k = 16" "is_ascii ?k"
    using pad_right_ascii [of k] assms(1) by (auto simp: wf_tlv_def)
  have l: "length ?l = 16" "is_ascii ?l"
    using pad_right_ascii [OF show_nat_ascii len] by auto
  have vr: "starts_ok (v @ rest)"
    using assms starts_ok_wf_str [of v] by (intro starts_ok_append) (auto simp: wf_tlv_def)
  have s: "make_tlv k v @ rest = (?k @ ?l) @ v @ rest" by (simp add: make_tlv_def)
  have b: "is_char_boundary i ((?k @ ?l) @ v @ rest)" if "i \<le> 32" for i
    using that k l vr by (intro ascii_boundary) (auto simp: is_ascii_def)
  have "str_slice 0 16 (make_tlv k v @ rest) = Some ?k" "str_slice 16 32 (make_tlv k v @ rest) = Some ?l"
    using b [of 0] b [of 16] b [of 32] k l unfolding s by (simp_all add: str_slice_def)
  moreover have "drop 32 (make_tlv k v @ rest) = v @ rest"
    unfolding s using k l by simp
  moreover have "str_slice 0 (length v) (v @ rest) = Some v"
    using is_char_boundary_append [OF assms(2), of v] is_char_boundary_append [OF vr, of "[]"]
    by (simp add: str_slice_def)
  moreover have "parse_uint usize_max (trim_end ?l) = Some (length v)"
    using assms(1) by (simp add: trim_end_pad_right not_ends_ws_show_nat wf_tlv_def usize_max_def)
  moreover have "trim_end ?k = k"
    using assms(1) by (simp add: trim_end_pad_right wf_tlv_def)
  moreover have "\<not> length (make_tlv k v @ rest) < 32" unfolding s using k l by simp
  ultimately show ?thesis
    by (subst parse_tlv_loop.simps) simp
qed

lemma starts_ok_make_tlv: "wf_tlv (k, v) \<Longrightarrow> starts_ok (make_tlv k v @ rest)"
  using pad_right_ascii [of k] starts_ok_ascii [of "pad_right 16 k"]
  by (cases "pad_right 16 k") (auto simp: make_tlv_def wf_tlv_def starts_ok_def)

lemma parse_tlv_loop_all:
  "\<forall>kv \<in> set kvs. wf_tlv kv \<Longrightarrow>
    parse_tlv_loop (concat (map (\<lambda>(k, v). make_tlv k v) kvs)) m
      = Some (m ++ map_of (rev kvs))"
proof (induction kvs arbitrary: m)
  case Nil
  then show ?case by (simp add: parse_tlv_loop.simps)
next
  case (Cons kv kvs)
  obtain k v where kv: "kv = (k, v)" by (cases kv)
  have "starts_ok (concat (map (\<lambda>(k, v). make_tlv k v) kvs))"
    using Cons.prems by (cases kvs) (auto simp: starts_ok_make_tlv starts_ok_def [of "[]"] split: prod.splits)
  then show ?case
    using Cons kv by (simp add: parse_tlv_loop_make map_add_def fun_eq_iff split: option.splits)
qed

lemma parse_make_tlv:
  "\<forall>kv \<in> set kvs. wf_tlv kv \<Longrightarrow>
    parse_tlv (concat (map (\<lambda>(k, v). make_tlv k v) kvs)) = Some (map_of (rev kvs))"
  by (simp add: parse_tlv_def parse_tlv_loop_all)

section \<open>The capability exchange\<close>

lemma tags_wf:
  "wf_str v \<Longrightarrow> length v < 10 ^ 16 \<Longrightarrow> tag \<in> {''authtype'', ''pubkey'', ''supportfeatures'', ''devname''}
    \<Longrightarrow> wf_tlv (tag, v)"
  by (auto simp: wf_tlv_def is_ascii_def ends_ws_def ws_encodings_def suffix_to_prefix)

lemma features_wf: "wf_str (join '','' (features e))" "length (join '','' (features e)) < 10 ^ 16"
  by (auto simp: features_def FEATURE_HEARTBEAT_def FEATURE_ENCRYPT_TCP_def is_ascii_def
      intro!: wf_str_ascii)

lemma features_split: "split_on CHR '','' (join '','' (features e)) = features e"
  by (rule split_on_join)
    (auto simp: features_def FEATURE_HEARTBEAT_def FEATURE_ENCRYPT_TCP_def)

lemma encrypt_in_features: "FEATURE_ENCRYPT_TCP \<in> set (features e) \<longleftrightarrow> e = Some ''1''"
  by (auto simp: features_def FEATURE_HEARTBEAT_def FEATURE_ENCRYPT_TCP_def)

definition host_auth_entries :: "string io_result \<Rightarrow> string option \<Rightarrow> (string \<times> string) list" where
  "host_auth_entries info e =
    [(''authtype'', ''1'')] @ (case info of Inl _ \<Rightarrow> [] | Inr i \<Rightarrow> [(''pubkey'', i)])
    @ [(''supportfeatures'', join '','' (features e))]"

lemma build_host_auth_buf_entries:
  "build_host_auth_buf info e = concat (map (\<lambda>(k, v). make_tlv k v) (host_auth_entries info e))"
  by (simp add: build_host_auth_buf_def host_auth_entries_def split: sum.splits)

lemma daemon_parse_host_buf:
  assumes "case info of Inl _ \<Rightarrow> True | Inr i \<Rightarrow> wf_str i \<and> length i < 10 ^ 16"
  shows "daemon_parse_tlv (build_host_auth_buf info e) = Some (map_of (rev (host_auth_entries info e)))"
proof -
  have "\<forall>kv \<in> set (host_auth_entries info e). wf_tlv kv"
    using assms tags_wf features_wf
    by (auto simp: host_auth_entries_def wf_str_ascii is_ascii_def split: sum.splits)
  then show ?thesis
    using parse_make_tlv
    by (simp add: build_host_auth_buf_entries daemon_parse_tlv_def daemon_parse_tlv_loop_eq parse_tlv_def)
qed

lemma host_supports_encrypt_iff:
  assumes "case info of Inl _ \<Rightarrow> True | Inr i \<Rightarrow> wf_str i \<and> length i < 10 ^ 16"
  shows "host_supports_encrypt (build_host_auth_buf info e) = Some (e = Some ''1'')"
  using encrypt_in_features [of e]
  by (simp add: host_supports_encrypt_def daemon_parse_host_buf [OF assms] host_auth_entries_def
      features_split list_ex_iff)

lemma extract_host_pubkey_eq:
  assumes "case info of Inl _ \<Rightarrow> True | Inr i \<Rightarrow> wf_str i \<and> length i < 10 ^ 16"
  shows "extract_host_pubkey (build_host_auth_buf info e) = Some (res_ok info)"
  unfolding extract_host_pubkey_def daemon_parse_host_buf [OF assms]
  by (cases info) (simp_all add: host_auth_entries_def)

end
