(* ===== verification/Server_Session.thy ===== *)
theory Server_Session
  imports Server_Core Auth_Tlv
begin

text \<open>
  A session of the host server with a device over TCP (\<open>start_tcp_daemon_session\<close> of
  \<open>hdc/src/server.rs\<close>): the handshake with at most ten rounds of authentication, the registration of
  the device, and the task that passes the daemon's messages on to tasks and client channels. Random
  numbers, what the network delivers and whether it does so in time are arguments.
\<close>

section \<open>Handshake\<close>

datatype auth_type = AuthNone | AuthToken | AuthSignature | AuthPublickey | AuthOk | AuthFail

fun auth_u8 :: "auth_type \<Rightarrow> u8" where
  "auth_u8 AuthNone = 0"
| "auth_u8 AuthToken = 1"
| "auth_u8 AuthSignature = 2"
| "auth_u8 AuthPublickey = 3"
| "auth_u8 AuthOk = 4"
| "auth_u8 AuthFail = 5"

definition MAX_AUTH_ATTEMPTS :: nat where "MAX_AUTH_ATTEMPTS = 10"

definition host_version :: string where
  "host_version = get_version @ ''47d583e40754ffe6''"

text \<open>The port of the address.\<close>

definition check_target_port :: "string \<Rightarrow> unit io_result" where
  "check_target_port addr =
    (let port_str = (case rsplit_once CHR '':'' addr of Some (_, p) \<Rightarrow> p | None \<Rightarrow> []) in
     if port_str = [] \<or> 5 < length port_str \<or> \<not> list_all (\<lambda>c. digit_val c \<noteq> None) port_str
     then Inl (Error InvalidInput ''The port must be digit str'')
     else case parse_uint 65535 port_str of
       Some port \<Rightarrow> if 0 < port then Inr () else Inl (Error InvalidInput ''Port range incorrect'')
     | None \<Rightarrow> Inl (Error InvalidInput ''Port range incorrect''))"

definition host_handshake_msg :: "session_handshake \<Rightarrow> task_message" where
  "host_handshake_msg hs = \<lparr>tm_channel_id = 0, tm_command = KernelHandshake, tm_payload = serialize_session_handshake hs\<rparr>"

definition end_tcp_session :: "u32 \<Rightarrow> (server, unit) io" where
  "end_tcp_session session_id = map_tcp (tcp_end_session session_id)"

text \<open>End the session and give the error; and an operation whose error does that.\<close>

definition give_up :: "u32 \<Rightarrow> io_error \<Rightarrow> (server, 'a) io" where
  "give_up session_id e = io_bind (end_tcp_session session_id) (\<lambda>_. io_fail e)"

definition or_give_up :: "u32 \<Rightarrow> (io_error \<Rightarrow> io_error) \<Rightarrow> (server, 'a) io \<Rightarrow> ('a \<Rightarrow> (server, 'b) io) \<Rightarrow> (server, 'b) io" where
  "or_give_up session_id f m k = io_match m (\<lambda>e. give_up session_id (f e)) k"

text \<open>
  The reaction to one handshake of the daemon: \<open>Inl hs\<close> is the next round with this handshake, \<open>Inr ()\<close>
  is success.
\<close>

definition accept_psk :: "host_env \<Rightarrow> u32 \<Rightarrow> session_handshake \<Rightarrow> session_handshake \<Rightarrow> (server, session_handshake + unit) io" where
  "accept_psk env session_id handshake daemon_hs =
    (if he_encrypt_channel env \<noteq> Some ''1''
     then give_up session_id (Error PermissionDenied
            ''Daemon requested encrypted TCP channel but OHOS_HDC_ENCRYPT_CHANNEL is not set to 1'')
     else
       or_give_up session_id (\<lambda>e. e)
         (io_lift (map_msg InvalidData ''Failed to base64-decode daemon PSK: '' (b64_decode (he_rsa env) (hs_buf daemon_hs))))
         (\<lambda>encrypted_psk.
       or_give_up session_id (\<lambda>e. Error PermissionDenied (''Failed to decrypt daemon PSK: '' @ err_message e))
         (on_host_fs (decrypt_psk env encrypted_psk)) (\<lambda>psk_bytes.
       if length psk_bytes \<noteq> 32
       then give_up session_id (Error InvalidData
              (''Daemon PSK length is '' @ show_nat (length psk_bytes) @ '', expected 32''))
       else
         io_bind (map_tcp (tcp_set_session_cipher session_id (psk_new psk_bytes True))) (\<lambda>_.
         io_bind (tcp_session_send session_id (concat_pack (host_handshake_msg
             (handshake\<lparr>hs_auth_type := AUTH_TYPE_SSL_TLS_PSK, hs_buf := []\<rparr>)))) (\<lambda>_.
         io_return (Inr ()))))))"

definition auth_reaction :: "host_env \<Rightarrow> u32 \<Rightarrow> session_handshake \<Rightarrow> session_handshake \<Rightarrow> (server, session_handshake + unit) io" where
  "auth_reaction env session_id handshake daemon_hs =
    (let x = hs_auth_type daemon_hs in
     if x = auth_u8 AuthOk then io_return (Inr ())
     else if x = auth_u8 AuthFail
     then give_up session_id (Error PermissionDenied ''TCP authentication rejected by daemon'')
     else if x = AUTH_TYPE_SSL_TLS_PSK then accept_psk env session_id handshake daemon_hs
     else if x = auth_u8 AuthPublickey then
       or_give_up session_id (\<lambda>e. Error OtherKind (''Failed to get public key info: '' @ err_message e))
         (on_host_fs (get_public_key_info env)) (\<lambda>pubkey_info.
       let hs = handshake\<lparr>hs_auth_type := auth_u8 AuthPublickey, hs_buf := pubkey_info\<rparr> in
       io_bind (tcp_session_send session_id (concat_pack (host_handshake_msg hs))) (\<lambda>_. io_return (Inl hs)))
     else if x = auth_u8 AuthSignature then
       or_give_up session_id (\<lambda>e. Error OtherKind (''Failed to sign challenge: '' @ err_message e))
         (on_host_fs (rsa_sign_challenge env (hs_buf daemon_hs))) (\<lambda>signature.
       let hs = handshake\<lparr>hs_auth_type := auth_u8 AuthSignature, hs_buf := signature\<rparr> in
       io_bind (tcp_session_send session_id (concat_pack (host_handshake_msg hs))) (\<lambda>_. io_return (Inl hs)))
     else if x = auth_u8 AuthToken
     then give_up session_id (Error PermissionDenied ''Token auth not supported'')
     else give_up session_id (Error InvalidData (''Unknown auth type from daemon: '' @ show_nat (unat x))))"

text \<open>
  The rounds. The state is the reader of the connection and the server; \<open>in_time\<close> tells for each round
  whether the daemon's message arrives before the limit. The result is the text of the last handshake
  when authentication succeeded, \<open>None\<close> when the rounds are used up.
\<close>

definition on_rd :: "(tcp_in, 'r) io \<Rightarrow> (tcp_in \<times> server, 'r) io" where
  "on_rd m = on_fst m"

fun auth_rounds :: "host_env \<Rightarrow> (nat \<Rightarrow> bool) \<Rightarrow> u32 \<Rightarrow> session_handshake \<Rightarrow> nat \<Rightarrow> nat \<Rightarrow> (tcp_in \<times> server, string option) io" where
  "auth_rounds env in_time session_id handshake attempt 0 = io_return None"
| "auth_rounds env in_time session_id handshake attempt (Suc left) =
    (if \<not> in_time attempt
     then on_sv (give_up session_id (Error TimedOut ''TCP authentication timeout''))
     else
       io_match (on_rd host_unpack_task_message) (\<lambda>e. on_sv (give_up session_id e)) (\<lambda>daemon_resp.
       if tm_command daemon_resp \<noteq> KernelHandshake
       then auth_rounds env in_time session_id handshake (Suc attempt) left
       else case deserialize_session_handshake (tm_payload daemon_resp) of
         Inl e \<Rightarrow> on_sv (give_up session_id
           (Error InvalidData (''Failed to deserialize daemon handshake: '' @ err_message e)))
       | Inr daemon_hs \<Rightarrow>
           io_bind (on_sv (auth_reaction env session_id handshake daemon_hs)) (\<lambda>next.
           case next of
             Inr _ \<Rightarrow> io_return (Some (hs_buf daemon_hs))
           | Inl hs \<Rightarrow> auth_rounds env in_time session_id hs (Suc attempt) left)))"

definition session_hello :: "host_env \<Rightarrow> u32 \<Rightarrow> string \<Rightarrow> string io_result \<Rightarrow> session_handshake" where
  "session_hello env session_id addr pubkey_info =
    \<lparr>hs_banner = HANDSHAKE_MESSAGE, hs_auth_type = auth_u8 AuthNone, hs_session_id = session_id,
     hs_connect_key = addr, hs_buf = build_host_auth_buf pubkey_info (he_encrypt_channel env),
     hs_version = host_version\<rparr>"

text \<open>
  The whole start of a session, up to the spawning of its two tasks. \<open>conn\<close> is what connecting gives:
  the two halves of the stream. The outer \<open>None\<close> is the panic of the record parser.
\<close>

definition start_tcp_daemon_session ::
  "host_env \<Rightarrow> (nat \<Rightarrow> bool) \<Rightarrow> u32 \<Rightarrow> (tcp_in \<times> tcp_out) io_result \<Rightarrow> string \<Rightarrow> server \<Rightarrow> (tcp_in io_result \<times> server) option" where
  "start_tcp_daemon_session env in_time session_id conn addr s =
    (case and_then (check_target_port addr) (\<lambda>_. conn) of
       Inl e \<Rightarrow> Some (Inl e, s)
     | Inr (rd, wr) \<Rightarrow>
         let s1 = s\<lparr>sv_tcp := tcp_start_session session_id wr (sv_tcp s)\<rparr>;
             (info, s2) = on_host_fs (get_public_key_info env) s1;
             hs = session_hello env session_id addr info
         in case tcp_session_send session_id (concat_pack (host_handshake_msg hs)) s2 of
              (Inl e, s3) \<Rightarrow> Some (Inl e, s3)
            | (Inr _, s3) \<Rightarrow>
                (case auth_rounds env in_time session_id hs 1 MAX_AUTH_ATTEMPTS (rd, s3) of
                   (Inl e, (rd', s4)) \<Rightarrow> Some (Inl e, s4)
                 | (Inr None, (rd', s4)) \<Rightarrow>
                     Some (give_up session_id (Error PermissionDenied ''TCP authentication failed'') s4)
                 | (Inr (Some buf), (rd', s4)) \<Rightarrow>
                     (case parse_tlv buf of
                        None \<Rightarrow> None
                      | Some tlv \<Rightarrow> Some (Inr rd', s4\<lparr>sv_connect := cm_put addr
                          \<lparr>di_session_id = session_id, di_conn_type = Tcp, di_conn_status = Connected,
                           di_dev_name = (case tlv ''devname'' of None \<Rightarrow> [] | Some n \<Rightarrow> n), di_version = []\<rparr>
                          (sv_connect s4)\<rparr>))))"

section \<open>Messages of the daemon\<close>

definition heartbeat_msg :: task_message where
  "heartbeat_msg = \<lparr>tm_channel_id = 0, tm_command = HeartbeatMsg, tm_payload = []\<rparr>"

text \<open>One tick of the heartbeat task: whether it goes on.\<close>

definition heartbeat_tick :: "u32 \<Rightarrow> server \<Rightarrow> bool \<times> server" where
  "heartbeat_tick session_id s =
    (case tcp_session_send session_id (concat_pack heartbeat_msg) s of (r, s') \<Rightarrow> (is_ok r, s'))"

definition late_handshake :: "host_env \<Rightarrow> u32 \<Rightarrow> string \<Rightarrow> bytes \<Rightarrow> (server, unit) io" where
  "late_handshake env session_id connect_key payload =
    (case deserialize_session_handshake payload of
       Inl _ \<Rightarrow> io_return ()
     | Inr daemon_hs \<Rightarrow>
         if hs_auth_type daemon_hs = auth_u8 AuthSignature then
           io_match (on_host_fs (rsa_sign_challenge env (hs_buf daemon_hs))) (\<lambda>_. io_return ()) (\<lambda>signature.
           io_ignore (tcp_session_send session_id (concat_pack (host_handshake_msg
             \<lparr>hs_banner = HANDSHAKE_MESSAGE, hs_auth_type = auth_u8 AuthSignature, hs_session_id = session_id,
              hs_connect_key = connect_key, hs_buf = signature, hs_version = host_version\<rparr>))))
         else io_return ())"

definition unsolicited :: "hdc_command list" where
  "unsolicited = [FileInit, FileCheck, UnityBugreportInit]"

definition route_task :: "u32 \<Rightarrow> task_message \<Rightarrow> (server, bool) io" where
  "route_task session_id task s =
    (case usb_route_response session_id (tm_channel_id task) task (sv_usb s) of
       (routed, u) \<Rightarrow> (Inr routed, s\<lparr>sv_usb := u\<rparr>))"

definition deliver_task :: "host_env \<Rightarrow> u32 \<Rightarrow> string \<Rightarrow> task_message \<Rightarrow> (server, unit) io" where
  "deliver_task env session_id connect_key task =
    (if tm_command task = HeartbeatMsg then io_return ()
     else io_bind (route_task session_id task) (\<lambda>routed.
     if routed then io_return ()
     else if tm_command task = KernelHandshake then late_handshake env session_id connect_key (tm_payload task)
     else if tm_command task = KernelEcho then io_ignore (answer (tm_channel_id task) (drop 1 (tm_payload task)))
     else if tm_command task = KernelEchoRaw then io_ignore (answer (tm_channel_id task) (tm_payload task))
     else if tm_command task = KernelChannelClose then map_tcp (tcp_end_channel (tm_channel_id task))
     else if tm_command task \<in> set unsolicited then io_return ()
     else io_ignore (answer (tm_channel_id task) (tm_payload task))))"

text \<open>Receiving a frame with the session's current cipher, which sending shares.\<close>

definition recv_session_frame :: "u32 \<Rightarrow> (tcp_in \<times> server, bytes) io" where
  "recv_session_frame session_id s =
    (case recv_tcp_frame (sv_aead (snd s)) (fst s, tcp_get_session_cipher session_id (sv_tcp (snd s))) of
       (r, (rd, None)) \<Rightarrow> (r, (rd, snd s))
     | (r, (rd, Some c)) \<Rightarrow> (r, (rd, (snd s)\<lparr>sv_tcp := tcp_set_session_cipher session_id c (sv_tcp (snd s))\<rparr>)))"

definition device_gone :: "u32 \<Rightarrow> string \<Rightarrow> server \<Rightarrow> server" where
  "device_gone session_id connect_key s =
    s\<lparr>sv_connect := cm_remove connect_key (sv_connect s), sv_tcp := tcp_end_session session_id (sv_tcp s)\<rparr>"

lemma on_fst_Inr: "on_fst m s = (Inr x, s') \<longleftrightarrow> (\<exists>i. m (fst s) = (Inr x, i) \<and> s' = (i, snd s))"
  by (cases "m (fst s)") (auto simp: on_fst_def)

lemma recv_tcp_frame_consumes:
  assumes "recv_tcp_frame A s = (Inr x, s')"
  shows "length (in_contents (fst s')) < length (in_contents (fst s))"
proof (cases "snd s")
  case None
  then show ?thesis
    using assms
    by (auto simp: recv_tcp_frame_def on_fst_Inr recv_raw_hdc_frame_def io_bind_eq_Inr io_lift_def HEAD_SIZE_def
        dest!: read_frame_consumes)
next
  case (Some c)
  then show ?thesis
    using assms
    by (auto simp: recv_tcp_frame_def on_fst_Inr io_bind_eq_Inr case_prod_beta dest!: read_frame_consumes)
qed

lemma recv_session_frame_consumes:
  "recv_session_frame sid s = (Inr x, s') \<Longrightarrow> length (in_contents (fst s')) < length (in_contents (fst s))"
  by (auto simp: recv_session_frame_def split: prod.splits option.splits dest: recv_tcp_frame_consumes)

function reader_loop :: "host_env \<Rightarrow> u32 \<Rightarrow> string \<Rightarrow> tcp_in \<times> server \<Rightarrow> tcp_in \<times> server" where
  "reader_loop env session_id connect_key s =
    (case recv_session_frame session_id s of
       (Inl _, s1) \<Rightarrow> (fst s1, device_gone session_id connect_key (snd s1))
     | (Inr frame, s1) \<Rightarrow>
         (case unpack_task_message frame of
            Inl _ \<Rightarrow> reader_loop env session_id connect_key s1
          | Inr task \<Rightarrow>
              reader_loop env session_id connect_key
                (fst s1, snd (deliver_task env session_id connect_key task (snd s1)))))"
  by pat_completeness auto

termination reader_loop
  by (relation "measure (\<lambda>(_, _, _, s). length (in_contents (fst s)))")
    (auto dest: recv_session_frame_consumes [OF sym])

declare reader_loop.simps [simp del]

section \<open>A session is set up\<close>

definition session_out :: "u32 \<Rightarrow> server \<Rightarrow> bytes" where
  "session_out sid s = (case session_writers (sv_tcp s) sid of None \<Rightarrow> [] | Some wr \<Rightarrow> out_bytes wr)"

definition session_up :: "u32 \<Rightarrow> server \<Rightarrow> bool" where
  "session_up sid s \<longleftrightarrow> (\<exists>wr. session_writers (sv_tcp s) sid = Some wr \<and> out_faults wr = [])"

text \<open>The server after data was sent on a session.\<close>

definition sent :: "u32 \<Rightarrow> bytes \<Rightarrow> psk_cipher option \<Rightarrow> server \<Rightarrow> server" where
  "sent sid bs c s = s\<lparr>sv_tcp := (sv_tcp s)\<lparr>
     session_writers := (session_writers (sv_tcp s))(sid := map_option (\<lambda>wr. wr\<lparr>out_bytes := out_bytes wr @ bs\<rparr>)
       (session_writers (sv_tcp s) sid)),
     session_ciphers := (session_ciphers (sv_tcp s))(sid := c)\<rparr>\<rparr>"

lemma tcp_session_send_up:
  assumes "session_up sid s" "session_frame (sv_aead s) (session_ciphers (sv_tcp s) sid) data = Some (bs, c)"
  shows "tcp_session_send sid data s = (Inr (), sent sid bs c s)"
proof -
  obtain wr where wr: "session_writers (sv_tcp s) sid = Some wr" "out_faults wr = []"
    using assms(1) by (auto simp: session_up_def)
  show ?thesis
    by (simp add: tcp_session_send_def on_tcp_def tcp_send_to_session_up [OF wr assms(2)] sent_def wr(1))
qed

lemma sent_fields [simp]:
  "sv_fs (sent sid bs c s) = sv_fs s" "sv_connect (sent sid bs c s) = sv_connect s" "sv_usb (sent sid bs c s) = sv_usb s"
  "sv_aead (sent sid bs c s) = sv_aead s" "session_ciphers (sv_tcp (sent sid bs c s)) sid = c"
  "session_up sid (sent sid bs c s) = session_up sid s"
  "session_up sid s \<Longrightarrow> session_out sid (sent sid bs c s) = session_out sid s @ bs"
  by (auto simp: sent_def session_up_def session_out_def)

text \<open>A session in the clear, and the server after sending messages on it.\<close>

definition host_up :: "u32 \<Rightarrow> server \<Rightarrow> bool" where
  "host_up sid s \<longleftrightarrow> session_up sid s \<and> session_ciphers (sv_tcp s) sid = None"

definition host_sent :: "u32 \<Rightarrow> task_message list \<Rightarrow> server \<Rightarrow> server" where
  "host_sent sid ms s = sent sid (concat (map concat_pack ms)) None s"

lemma host_sent_fields [simp]:
  "sv_fs (host_sent sid ms s) = sv_fs s" "sv_connect (host_sent sid ms s) = sv_connect s"
  "sv_usb (host_sent sid ms s) = sv_usb s" "sv_aead (host_sent sid ms s) = sv_aead s"
  "sv_forward (host_sent sid ms s) = sv_forward s"
  "channel_writers (sv_tcp (host_sent sid ms s)) = channel_writers (sv_tcp s)"
  "keep_alive_channels (sv_tcp (host_sent sid ms s)) = keep_alive_channels (sv_tcp s)"
  "closed_channels (sv_tcp (host_sent sid ms s)) = closed_channels (sv_tcp s)"
  by (simp_all add: host_sent_def sent_def)

lemma host_up_sent [simp]: "host_up sid s \<Longrightarrow> host_up sid (host_sent sid ms s)"
  by (simp add: host_up_def host_sent_def)

lemma host_up_updates [simp]:
  "host_up sid (s\<lparr>sv_fs := f\<rparr>) = host_up sid s" "host_up sid (s\<lparr>sv_usb := u\<rparr>) = host_up sid s"
  "session_up sid (s\<lparr>sv_fs := f\<rparr>) = session_up sid s" "session_up sid (s\<lparr>sv_usb := u\<rparr>) = session_up sid s"
  by (simp_all add: host_up_def session_up_def)

lemma host_sent_updates [simp]:
  "host_sent sid ms (s\<lparr>sv_fs := f\<rparr>) = (host_sent sid ms s)\<lparr>sv_fs := f\<rparr>"
  by (simp add: host_sent_def sent_def)

lemma host_sent_append [simp]: "host_sent sid ns (host_sent sid ms s) = host_sent sid (ms @ ns) s"
  by (simp add: host_sent_def sent_def option.map_comp comp_def)

lemma host_sent_Nil [simp]: "host_up sid s \<Longrightarrow> host_sent sid [] s = s"
  by (auto simp: host_sent_def sent_def host_up_def session_up_def fun_upd_idem)

lemma session_out_host_sent: "session_up sid s \<Longrightarrow> session_out sid (host_sent sid ms s) = session_out sid s @ concat (map concat_pack ms)"
  by (simp add: host_sent_def)

lemma send_task_up:
  assumes "host_up sid s"
  shows "send_task sid m s = (Inr (), host_sent sid [m] s)"
proof -
  have "session_up sid s" "session_frame (sv_aead s) (session_ciphers (sv_tcp s) sid) (concat_pack m) = Some (concat_pack m, None)"
    using assms by (simp_all add: host_up_def session_frame_def)
  then show ?thesis
    by (simp add: send_task_def send_to_session_def io_match_def tcp_session_send_up host_sent_def)
qed

lemma channel_host_sent [simp]:
  "channel_up ch (host_sent sid ms s) = channel_up ch s" "channel_sent ch (host_sent sid ms s) = channel_sent ch s"
  by (simp_all add: channel_up_def channel_sent_def split: option.splits)

lemma session_out_parts [simp]:
  "session_out sid (answered ch data s) = session_out sid s" "session_out sid (channel_ended ch s) = session_out sid s"
  "session_out sid (s\<lparr>sv_fs := f\<rparr>) = session_out sid s" "session_out sid (s\<lparr>sv_usb := u\<rparr>) = session_out sid s"
  by (simp_all add: session_out_def split: option.splits)

definition with_cipher :: "u32 \<Rightarrow> psk_cipher \<Rightarrow> server \<Rightarrow> server" where
  "with_cipher sid c s = s\<lparr>sv_tcp := tcp_set_session_cipher sid c (sv_tcp s)\<rparr>"

lemma with_cipher_fields [simp]:
  "sv_fs (with_cipher sid c s) = sv_fs s" "sv_aead (with_cipher sid c s) = sv_aead s"
  "session_ciphers (sv_tcp (with_cipher sid c s)) sid = Some c" "session_up sid (with_cipher sid c s) = session_up sid s"
  "session_out sid (with_cipher sid c s) = session_out sid s" "sv_connect (with_cipher sid c s) = sv_connect s"
  by (auto simp: with_cipher_def tcp_set_session_cipher_def session_up_def session_out_def)

text \<open>The acknowledgement of a session key.\<close>

definition psk_ack :: "session_handshake \<Rightarrow> task_message" where
  "psk_ack hs = host_handshake_msg (hs\<lparr>hs_auth_type := AUTH_TYPE_SSL_TLS_PSK, hs_buf := []\<rparr>)"

lemma decrypt_psk_stored:
  assumes "keys_stored env pri pub (sv_fs s)"
  shows "on_host_fs (decrypt_psk env e) s
    = (map_msg InvalidData ''RSA decrypt PSK failed: '' (rsa_decrypt_oaep (he_rsa env) pri e), s)"
  using load_stored [OF assms] by (simp add: on_host_fs_def decrypt_psk_def io_bind_def)

lemma public_key_info_stored:
  assumes "keys_stored env pri pub (sv_fs s)" "to_public_key_pem (he_rsa env) pub = Inr pem"
  shows "on_host_fs (get_public_key_info env) s = (Inr (get_hostname env @ [HDC_HOST_DAEMON_BUF_SEPARATOR] @ pem), s)"
  using load_stored [OF assms(1)] assms(2) by (simp add: on_host_fs_def get_public_key_info_def io_bind_def)

lemma accept_psk_ok:
  assumes "he_encrypt_channel env = Some ''1''" "keys_stored env pri pub (sv_fs s)" "session_up sid s"
    and "b64_decode (he_rsa env) (hs_buf dhs) = Inr e" "rsa_decrypt_oaep (he_rsa env) pri e = Inr psk" "length psk = 32"
    and "psk_encrypt (sv_aead s) (psk_new psk True) (concat_pack (psk_ack hs)) = (Inr f, c)"
  shows "accept_psk env sid hs dhs s = (Inr (Inr ()), sent sid (channel_frame f) (Some c) (with_cipher sid (psk_new psk True) s))"
proof -
  have "session_frame (sv_aead s) (Some (psk_new psk True)) (concat_pack (psk_ack hs)) = Some (channel_frame f, Some c)"
    using assms(7) by (simp add: session_frame_def)
  then have "tcp_session_send sid (concat_pack (psk_ack hs)) (with_cipher sid (psk_new psk True) s)
      = (Inr (), sent sid (channel_frame f) (Some c) (with_cipher sid (psk_new psk True) s))"
    using assms(3) by (intro tcp_session_send_up) simp_all
  then show ?thesis
    using assms(1,4,5,6) decrypt_psk_stored [OF assms(2), of e]
    by (simp add: accept_psk_def or_give_up_def io_match_def io_bind_def psk_ack_def with_cipher_def)
qed

lemma host_session_psk:
  assumes addr: "check_target_port addr = Inr ()" and time: "in_time 1"
    and out: "out_faults wr = []" "session_ciphers (sv_tcp s) sid = None"
    and keys: "keys_stored env pri pub (sv_fs s)" "to_public_key_pem (he_rsa env) pub = Inr pem"
      "he_encrypt_channel env = Some ''1''"
    and dhs: "wf_session_handshake dhs" "hs_auth_type dhs = AUTH_TYPE_SSL_TLS_PSK" "wf_task_message m"
      "tm_command m = KernelHandshake" "tm_payload m = serialize_session_handshake dhs"
      "parse_tlv (hs_buf dhs) = Some tlv"
    and rd: "in_ok rd" "in_contents rd = concat_pack m @ rest"
    and psk: "b64_decode (he_rsa env) (hs_buf dhs) = Inr e" "rsa_decrypt_oaep (he_rsa env) pri e = Inr psk" "length psk = 32"
    and hello: "hello = session_hello env sid addr (Inr (get_hostname env @ [HDC_HOST_DAEMON_BUF_SEPARATOR] @ pem))"
    and ack: "psk_encrypt (sv_aead s) (psk_new psk True) (concat_pack (psk_ack hello)) = (Inr f, c)"
  shows "\<exists>rd' s'. start_tcp_daemon_session env in_time sid (Inr (rd, wr)) addr s = Some (Inr rd', s')
    \<and> in_ok rd' \<and> in_contents rd' = rest
    \<and> session_out sid s' = out_bytes wr @ concat_pack (host_handshake_msg hello) @ channel_frame f
    \<and> session_ciphers (sv_tcp s') sid = Some c
    \<and> map_option di_session_id (map_of (sv_connect s') addr) = Some sid"
proof -
  let ?s1 = "s\<lparr>sv_tcp := tcp_start_session sid wr (sv_tcp s)\<rparr>"
  let ?s2 = "sent sid (concat_pack (host_handshake_msg hello)) None ?s1"
  have up: "session_up sid ?s1" "session_ciphers (sv_tcp ?s1) sid = None" "session_out sid ?s1 = out_bytes wr"
    using out by (simp_all add: session_up_def tcp_start_session_def session_out_def)
  have send: "tcp_session_send sid (concat_pack (host_handshake_msg hello)) ?s1 = (Inr (), ?s2)"
    using up by (intro tcp_session_send_up) (simp_all add: session_frame_def)
  obtain rd' where read: "host_unpack_task_message rd = (Inr m, rd')" "in_contents rd' = rest" "in_ok rd'"
    using host_unpack_message [OF dhs(3) rd] by metis
  have react: "auth_reaction env sid hello dhs ?s2
      = (Inr (Inr ()), sent sid (channel_frame f) (Some c) (with_cipher sid (psk_new psk True) ?s2))"
    using accept_psk_ok [of env pri pub ?s2 sid dhs e psk hello f c] dhs(2) keys psk ack up(1)
    by (simp add: auth_reaction_def AUTH_TYPE_SSL_TLS_PSK_def)
  let ?s3 = "sent sid (channel_frame f) (Some c) (with_cipher sid (psk_new psk True) ?s2)"
  have "auth_rounds env in_time sid hello 1 MAX_AUTH_ATTEMPTS (rd, ?s2) = (Inr (Some (hs_buf dhs)), (rd', ?s3))"
    using time read(1) dhs(4,5) session_handshake_round_trip [OF dhs(1)] react
    by (simp add: MAX_AUTH_ATTEMPTS_def numeral_eq_Suc io_match_def io_bind_def on_rd_def on_fst_def on_sv_def)
  moreover have "on_host_fs (get_public_key_info env) ?s1
      = (Inr (get_hostname env @ [HDC_HOST_DAEMON_BUF_SEPARATOR] @ pem), ?s1)"
    using public_key_info_stored [of env pri pub ?s1 pem] keys by simp
  moreover have hello': "session_hello env sid addr (Inr (get_hostname env @ HDC_HOST_DAEMON_BUF_SEPARATOR # pem)) = hello"
    by (simp add: hello)
  ultimately have "start_tcp_daemon_session env in_time sid (Inr (rd, wr)) addr s
      = Some (Inr rd', ?s3\<lparr>sv_connect := cm_put addr
          \<lparr>di_session_id = sid, di_conn_type = Tcp, di_conn_status = Connected,
           di_dev_name = (case tlv ''devname'' of None \<Rightarrow> [] | Some n \<Rightarrow> n), di_version = []\<rparr> (sv_connect ?s3)\<rparr>)"
    using addr send dhs(6) hello' by (simp add: start_tcp_daemon_session_def Let_def)
  moreover have "session_out sid ?s3 = out_bytes wr @ concat_pack (host_handshake_msg hello) @ channel_frame f"
    using up by simp
  ultimately show ?thesis
    using read(2,3) by (simp add: session_out_def cm_put_def)
qed

section \<open>The reader delivers the daemon's messages in order\<close>

definition deliver_all :: "host_env \<Rightarrow> u32 \<Rightarrow> string \<Rightarrow> task_message list \<Rightarrow> server \<Rightarrow> server" where
  "deliver_all env sid key ms s = fold (\<lambda>m s. snd (deliver_task env sid key m s)) ms s"

text \<open>What receiving changes: the receive counter of the session's cipher.\<close>

definition set_counter :: "u32 \<Rightarrow> u64 \<Rightarrow> server \<Rightarrow> server" where
  "set_counter sid n s = s\<lparr>sv_tcp := (sv_tcp s)\<lparr>session_ciphers := (session_ciphers (sv_tcp s))(sid :=
     map_option (\<lambda>c. c\<lparr>recv_counter := n\<rparr>) (session_ciphers (sv_tcp s) sid))\<rparr>\<rparr>"

definition session_keys :: "u32 \<Rightarrow> server \<Rightarrow> (bytes \<times> bytes) option" where
  "session_keys sid s = map_option (\<lambda>c. (send_key c, recv_key c)) (session_ciphers (sv_tcp s) sid)"

lemma set_counter_fields [simp]:
  "sv_usb (set_counter sid n s) = sv_usb s" "sv_fs (set_counter sid n s) = sv_fs s" "sv_aead (set_counter sid n s) = sv_aead s"
  "sv_connect (set_counter sid n s) = sv_connect s" "session_keys sid (set_counter sid n s) = session_keys sid s"
  "set_counter sid n (set_counter sid k s) = set_counter sid n s"
  by (simp_all add: set_counter_def session_keys_def option.map_comp comp_def)

lemma set_counter_id: "\<exists>n. s = set_counter sid n s"
proof (cases "session_ciphers (sv_tcp s) sid")
  case (Some c)
  then have "s = set_counter sid (recv_counter c) s" by (simp add: set_counter_def fun_upd_idem)
  then show ?thesis by blast
qed (auto simp: set_counter_def fun_upd_idem)

text \<open>Delivering a message neither reads nor changes the receive counter.\<close>

lemma commutes_write_session:
  "write_session sid data (t\<lparr>session_ciphers := c\<rparr>)
    = (fst (write_session sid data t), (snd (write_session sid data t))\<lparr>session_ciphers := c\<rparr>)"
  by (simp add: write_session_def split: option.splits prod.splits)

lemma write_session_ciphers: "session_ciphers (snd (write_session sid data t)) = session_ciphers t"
  by (simp add: write_session_def split: option.splits prod.splits)

lemma commutes_send: "commutes (set_counter sid n) (tcp_session_send sid data)"
proof (rule commutesI)
  fix s r s' assume run: "tcp_session_send sid data s = (r, s')"
  show "tcp_session_send sid data (set_counter sid n s) = (r, set_counter sid n s')"
  proof (cases "session_ciphers (sv_tcp s) sid")
    case None
    then have same: "set_counter sid n s = s" by (simp add: set_counter_def fun_upd_idem)
    have "session_ciphers (sv_tcp s') sid = None"
      using run None write_session_ciphers [of sid data "sv_tcp s"]
      by (auto simp: tcp_session_send_def on_tcp_def tcp_send_to_session_def split: option.splits prod.splits)
    then have "set_counter sid n s' = s'" by (simp add: set_counter_def fun_upd_idem)
    then show ?thesis using run same by simp
  next
    case (Some c)
    obtain x c' where enc: "psk_encrypt (sv_aead s) c data = (x, c')" by (cases "psk_encrypt (sv_aead s) c data")
    then show ?thesis
      using run Some
      by (cases "session_writers (sv_tcp s) sid"; cases x)
        (auto simp: tcp_session_send_def on_tcp_def tcp_send_to_session_def set_counter_def psk_encrypt_recv
          io_bind_def write_session_def split: prod.splits sum.splits)
  qed
qed

lemma commutes_answer: "commutes (set_counter sid n) (answer ch data)"
  by (simp add: commutes_def answer_def on_tcp_def tcp_send_channel_message_def set_counter_def
      split: option.splits prod.splits)

lemma commutes_on_host_fs: "commutes (set_counter sid n) (on_host_fs m)"
  by (simp add: commutes_def on_host_fs_def set_counter_def split: prod.splits)

lemma commutes_late_handshake: "commutes (set_counter sid n) (late_handshake env sid key payload)"
  unfolding late_handshake_def
  by (intro commutes_rules commutes_on_host_fs commutes_ignore commutes_send)

lemma commutes_end_channel: "commutes (set_counter sid n) (map_tcp (tcp_end_channel ch))"
  by (simp add: commutes_def set_counter_def tcp_end_channel_def shut_channel_def split: option.splits)

lemma commutes_route: "commutes (set_counter sid n) (route_task sid task)"
  by (simp add: commutes_def route_task_def set_counter_def split: prod.splits)

lemma commutes_deliver: "commutes (set_counter sid n) (deliver_task env sid key task)"
  unfolding deliver_task_def
  by (intro commutes_rules commutes_route commutes_late_handshake commutes_ignore commutes_answer commutes_end_channel)

lemma deliver_all_counter: "deliver_all env sid key ms (set_counter sid n s) = set_counter sid n (deliver_all env sid key ms s)"
  using commutes_deliver unfolding deliver_all_def
  by (induction ms arbitrary: s) (simp_all add: commutes_def)

text \<open>Delivering a message keeps the keys of the session.\<close>

lemma send_ciphers:
  assumes "tcp_session_send sid data s = (r, s')"
  shows "session_keys k s' = session_keys k s"
proof (cases "session_ciphers (sv_tcp s) sid")
  case None
  then show ?thesis
    using assms write_session_ciphers [of sid data "sv_tcp s"]
    by (auto simp: tcp_session_send_def on_tcp_def tcp_send_to_session_def session_keys_def split: option.splits prod.splits)
next
  case (Some c)
  obtain x c' where enc: "psk_encrypt (sv_aead s) c data = (x, c')" by (cases "psk_encrypt (sv_aead s) c data")
  then have "send_key c' = send_key c" "recv_key c' = recv_key c" using psk_encrypt_keys by (metis snd_conv)+
  then show ?thesis
    using assms Some enc
    by (cases "session_writers (sv_tcp s) sid"; cases x)
      (auto simp: tcp_session_send_def on_tcp_def tcp_send_to_session_def session_keys_def io_bind_def write_session_def
        split: prod.splits sum.splits)
qed

lemma keeps_keys_send: "keeps (session_keys k) (tcp_session_send sid data)"
  by (rule keepsI) (rule send_ciphers)

lemma keeps_keys_parts:
  "keeps (session_keys k) (answer ch data)" "keeps (session_keys k) (on_host_fs m)"
  "keeps (session_keys k) (map_tcp (tcp_end_channel ch))"
  by (auto simp: keeps_def session_keys_def answer_def on_tcp_def tcp_send_channel_message_def on_host_fs_def
      tcp_end_channel_def split: option.splits prod.splits)

lemma keeps_keys_late_handshake: "keeps (session_keys k) (late_handshake env sid key payload)"
  unfolding late_handshake_def
  by ((intro keeps_rules keeps_basic keeps_keys_parts keeps_ignore keeps_keys_send)?)

lemma keeps_keys_deliver: "keeps (session_keys k) (deliver_task env sid key task)"
proof -
  have "keeps (session_keys k) (route_task sid task)"
    by (simp add: keeps_def route_task_def session_keys_def split: prod.splits)
  then show ?thesis
    unfolding deliver_task_def
    by (intro keeps_rules keeps_basic keeps_keys_late_handshake keeps_ignore keeps_keys_parts)
qed

lemma keeps_aead_deliver: "keeps sv_aead (deliver_task env sid key task)"
proof -
  have parts: "keeps sv_aead (route_task sid task)" "keeps sv_aead (on_tcp m)" "keeps sv_aead (on_host_fs m')"
    "keeps sv_aead (map_tcp f)" "keeps sv_aead (tcp_session_send sid data)" for m :: "(tcp_map, 'a) io" and m' :: "(fs, 'b) io" and f data
    by (simp_all add: keeps_def route_task_def on_tcp_def on_host_fs_def tcp_session_send_def split: prod.splits)
  show ?thesis
    unfolding deliver_task_def late_handshake_def answer_def
    by (intro keeps_rules keeps_basic keeps_ignore parts)
qed

locale frame_stream =
  fixes stream :: "task_message list \<Rightarrow> tcp_in \<times> server \<Rightarrow> bool" and sid :: u32
  assumes frame_next: "stream (m # ms) (rd, s) \<Longrightarrow> \<exists>frame rd' n.
      recv_session_frame sid (rd, s) = (Inr frame, (rd', set_counter sid n s))
      \<and> unpack_task_message frame = Inr m \<and> stream ms (rd', set_counter sid n s)"
    and frame_end: "stream [] (rd, s) \<Longrightarrow> \<exists>e rd' n. recv_session_frame sid (rd, s) = (Inl e, (rd', set_counter sid n s))"
    and stream_deliver: "stream ms (rd, s) \<Longrightarrow> deliver_task env sid key m s = (r, s') \<Longrightarrow> stream ms (rd, s')"
begin

lemma reader_loop_spec:
  "stream ms (rd, s) \<Longrightarrow> \<exists>rd' n. reader_loop env sid key (rd, s)
    = (rd', device_gone sid key (set_counter sid n (deliver_all env sid key ms s)))"
proof (induction ms arbitrary: rd s)
  case Nil
  then obtain e rd' n where "recv_session_frame sid (rd, s) = (Inl e, (rd', set_counter sid n s))"
    using frame_end by blast
  then show ?case by (auto simp: reader_loop.simps [of env sid key "(rd, s)"] deliver_all_def)
next
  case (Cons m ms)
  then obtain frame rd1 n where nxt: "recv_session_frame sid (rd, s) = (Inr frame, (rd1, set_counter sid n s))"
    "unpack_task_message frame = Inr m" "stream ms (rd1, set_counter sid n s)"
    using frame_next by blast
  obtain r s2 where s2: "deliver_task env sid key m s = (r, s2)" by (cases "deliver_task env sid key m s")
  have s2': "deliver_task env sid key m (set_counter sid n s) = (r, set_counter sid n s2)"
    using commutesD [OF commutes_deliver s2] .
  obtain rd' k where "reader_loop env sid key (rd1, set_counter sid n s2)
      = (rd', device_gone sid key (set_counter sid k (deliver_all env sid key ms s2)))"
    using Cons.IH [OF stream_deliver [OF nxt(3) s2']] by (auto simp: deliver_all_counter)
  then show ?case
    using nxt(1,2) s2 s2' by (auto simp: reader_loop.simps [of env sid key "(rd, s)"] deliver_all_def)
qed

end

text \<open>A session in the clear, and one under a cipher whose peer has sent the messages.\<close>

definition clear_frames :: "u32 \<Rightarrow> task_message list \<Rightarrow> tcp_in \<times> server \<Rightarrow> bool" where
  "clear_frames sid ms x \<longleftrightarrow> (case x of (rd, s) \<Rightarrow> session_keys sid s = None \<and> (\<forall>m \<in> set ms. wf_task_message m)
    \<and> in_ok rd \<and> in_contents rd = concat (map concat_pack ms))"

definition encrypted_frames :: "u32 \<Rightarrow> task_message list \<Rightarrow> tcp_in \<times> server \<Rightarrow> bool" where
  "encrypted_frames sid ms x \<longleftrightarrow> (case x of (rd, s) \<Rightarrow> \<exists>h fs h'. aead_correct (sv_aead s)
    \<and> session_keys sid s = Some (recv_key h, send_key h)
    \<and> length (send_key h) = KEY_LEN \<and> length (recv_key h) = KEY_LEN
    \<and> (\<forall>m \<in> set ms. wf_task_message m)
    \<and> encrypt_all (sv_aead s) h (map concat_pack ms) = (Inr fs, h')
    \<and> in_ok rd \<and> in_contents rd = concat (map channel_frame fs))"

lemma frame_short:
  assumes "in_ok rd" "in_contents rd = []"
  shows "\<exists>e rd' n. recv_session_frame sid (rd, s) = (Inl e, (rd', set_counter sid n s))"
proof -
  have short: "\<exists>e s'. read_frame (Suc n) rd = (Inl e, s')" for n
    using frame_source.get_short [of rd "Suc n"] assms by simp
  obtain e i where i: "read_frame 4 rd = (Inl e, i)" using short [of 3] by auto
  obtain e' i' where i': "read_frame HEAD_SIZE rd = (Inl e', i')" using short [of 10] by (auto simp: HEAD_SIZE_def)
  show ?thesis
  proof (cases "session_ciphers (sv_tcp s) sid")
    case None
    then have "recv_session_frame sid (rd, s) = (Inl e', (i', s))"
      using i' by (simp add: recv_session_frame_def recv_tcp_frame_def tcp_get_session_cipher_def recv_raw_hdc_frame_def
          on_fst_def io_bind_def)
    then show ?thesis using set_counter_id [of s sid] by metis
  next
    case (Some c)
    then have "recv_session_frame sid (rd, s) = (Inl e, (i, s))"
      using i by (simp add: recv_session_frame_def recv_tcp_frame_def tcp_get_session_cipher_def on_fst_def io_bind_def
          tcp_set_session_cipher_def fun_upd_idem)
    then show ?thesis using set_counter_id [of s sid] by metis
  qed
qed

lemma deliver_keeps:
  assumes "deliver_task env sid key m s = (r, s')"
  shows "session_keys k s' = session_keys k s" "sv_aead s' = sv_aead s"
  using keepsD [OF keeps_keys_deliver assms] keepsD [OF keeps_aead_deliver assms] by auto

interpretation clear_reader: frame_stream "clear_frames sid" sid for sid
proof
  fix m ms rd s assume st: "clear_frames sid (m # ms) (rd, s)"
  then have none: "session_ciphers (sv_tcp s) sid = None" by (simp add: clear_frames_def session_keys_def)
  obtain rd' where rd': "recv_raw_hdc_frame rd = (Inr (concat_pack m), rd')"
    "in_contents rd' = concat (map concat_pack ms)" "in_ok rd'"
    using recv_raw_frame_packet(2) [of m rd "concat (map concat_pack ms)"] st by (auto simp: clear_frames_def)
  have "set_counter sid 0 s = s" using none by (simp add: set_counter_def fun_upd_idem)
  moreover have "recv_session_frame sid (rd, s) = (Inr (concat_pack m), (rd', s))"
    using rd'(1) none
    by (simp add: recv_session_frame_def recv_tcp_frame_def tcp_get_session_cipher_def on_fst_def)
  moreover have "unpack_task_message (concat_pack m) = Inr m"
    using packet_codec.round_trip [of m] st by (simp add: clear_frames_def)
  ultimately show "\<exists>frame rd' n. recv_session_frame sid (rd, s) = (Inr frame, (rd', set_counter sid n s))
      \<and> unpack_task_message frame = Inr m \<and> clear_frames sid ms (rd', set_counter sid n s)"
    using rd'(2,3) st by (intro exI [of _ "concat_pack m"] exI [of _ rd'] exI [of _ 0]) (auto simp: clear_frames_def)
next
  fix rd s assume "clear_frames sid [] (rd, s)"
  then show "\<exists>e rd' n. recv_session_frame sid (rd, s) = (Inl e, (rd', set_counter sid n s))"
    using frame_short by (simp add: clear_frames_def)
next
  fix ms rd s env key m r s'
  assume "clear_frames sid ms (rd, s)" "deliver_task env sid key m s = (r, s')"
  then show "clear_frames sid ms (rd, s')" using deliver_keeps by (simp add: clear_frames_def)
qed

interpretation encrypted_reader: frame_stream "encrypted_frames sid" sid for sid
proof
  fix m ms rd s assume "encrypted_frames sid (m # ms) (rd, s)"
  then obtain h fs h' where st: "aead_correct (sv_aead s)" "session_keys sid s = Some (recv_key h, send_key h)"
    "length (send_key h) = KEY_LEN" "length (recv_key h) = KEY_LEN"
    "wf_task_message m" "\<forall>m \<in> set ms. wf_task_message m"
    "encrypt_all (sv_aead s) h (map concat_pack (m # ms)) = (Inr fs, h')"
    "in_ok rd" "in_contents rd = concat (map channel_frame fs)"
    by (auto simp: encrypted_frames_def)
  then obtain c where c: "session_ciphers (sv_tcp s) sid = Some c" "send_key c = recv_key h" "recv_key c = send_key h"
    by (auto simp: session_keys_def)
  then have peers: "psk_peers h c" using st(3,4) by (simp add: psk_peers_def)
  have len: "length (concat_pack m) < 2 ^ 32" using length_wf_packet [OF st(5)] by simp
  let ?h = "h\<lparr>send_counter := send_counter h + 1\<rparr>" and ?n = "send_counter h + 1"
  obtain f where f: "psk_encrypt (sv_aead s) h (concat_pack m) = (Inr f, ?h)"
    "psk_decrypt (sv_aead s) c f = (Inr (concat_pack m), c\<lparr>recv_counter := ?n\<rparr>)"
    "length f = length (concat_pack m) + 24"
    using psk_frame [OF st(1) peers len] by metis
  then obtain gs where gs: "encrypt_all (sv_aead s) ?h (map concat_pack ms) = (Inr gs, h')" "fs = f # gs"
    using st(7) by (auto split: prod.splits sum.splits)
  have "length f < 2 ^ 32" using f(3) length_wf_packet [OF st(5)] by simp
  then obtain rd' where rd': "recv_tcp_frame (sv_aead s) (rd, Some c)
      = (Inr (concat_pack m), (rd', Some (c\<lparr>recv_counter := ?n\<rparr>)))"
    "in_contents rd' = concat (map channel_frame gs)" "in_ok rd'"
    using host_recv_encrypted [OF f(2)] st(8,9) gs(2) by (metis concat.simps(2) list.simps(9))
  then have "recv_session_frame sid (rd, s) = (Inr (concat_pack m), (rd', set_counter sid ?n s))"
    using c(1) by (simp add: recv_session_frame_def tcp_get_session_cipher_def tcp_set_session_cipher_def set_counter_def)
  moreover have "unpack_task_message (concat_pack m) = Inr m" using packet_codec.round_trip [OF st(5)] by simp
  moreover have "encrypted_frames sid ms (rd', set_counter sid ?n s)"
    unfolding encrypted_frames_def prod.case
    using st gs(1) rd'(2,3)
    by (rule_tac exI [of _ ?h], rule_tac exI [of _ gs], rule_tac exI [of _ h']) simp
  ultimately show "\<exists>frame rd' n. recv_session_frame sid (rd, s) = (Inr frame, (rd', set_counter sid n s))
      \<and> unpack_task_message frame = Inr m \<and> encrypted_frames sid ms (rd', set_counter sid n s)"
    by blast
next
  fix rd s assume "encrypted_frames sid [] (rd, s)"
  then show "\<exists>e rd' n. recv_session_frame sid (rd, s) = (Inl e, (rd', set_counter sid n s))"
    using frame_short by (auto simp: encrypted_frames_def)
next
  fix ms rd s env key m r s'
  assume "encrypted_frames sid ms (rd, s)" "deliver_task env sid key m s = (r, s')"
  then show "encrypted_frames sid ms (rd, s')" using deliver_keeps unfolding encrypted_frames_def prod.case by metis
qed

end
