(* ===== verification/Server_File.thy ===== *)
theory Server_File
  imports Server_Session
begin

text \<open>
  The file transfer of the host server (\<open>handle_server_file_send\<close> and \<open>handle_server_file_recv\<close> of
  \<open>hdc/src/server.rs\<close>). A transfer registers a queue for the daemon's answers, sends its messages to
  the session and waits on the queue; what the queue delivers is a list of events. The blocks of a
  file are sent with a head of 64 bytes that tells their position. \<open>flush\<close> does nothing here: a write
  has reached the file when it returns.
\<close>

section \<open>Paths\<close>

definition strip_quotes :: "string \<Rightarrow> string" where
  "strip_quotes text =
    (let s = trim text in
     if 2 \<le> length s \<and> hd s = CHR 34 \<and> last s = CHR 34 then butlast (tl s) else s)"

definition resolve_file_paths :: "string list \<Rightarrow> (string \<times> string) io_result" where
  "resolve_file_paths params =
    (if length params < 4 then Inl (Error InvalidInput ''Missing file path arguments'')
     else
       let (cwd, idx) = (if 3 < length params \<and> params ! 2 = ''-cwd'' then (params ! 3, 4) else ([], 2 :: nat)) in
       if length params < idx + 2 then Inl (Error InvalidInput ''Missing local or remote path'')
       else
         let local_raw = strip_quotes (params ! idx);
             remote_raw = strip_quotes (params ! (idx + 1))
         in Inr (if cwd = [] then local_raw
                 else trim_end_matches (\<lambda>c. c = CHR ''/'') cwd @ ''/'' @ local_raw, remote_raw))"

definition is_host_receive_child_path :: "string \<Rightarrow> bool" where
  "is_host_receive_child_path path \<longleftrightarrow>
    CHR 0x00 \<notin> set path
    \<and> (\<forall>part \<in> set (split_on CHR ''/'' path). ''..'' \<notin> set (split_on CHR 0x5C part))"

section \<open>Waiting for the daemon\<close>

text \<open>A task with a queue of its own for the answers of the daemon.\<close>

definition with_responses :: "u32 \<Rightarrow> u32 \<Rightarrow> (rx_event list \<times> server, 'a) io \<Rightarrow> (rx_event list \<times> server, 'a) io" where
  "with_responses session_id channel_id m x =
    (case m (fst x, (snd x)\<lparr>sv_usb := usb_register_response_channel session_id channel_id
               \<lparr>mq_items = [], mq_open = True\<rparr> (sv_usb (snd x))\<rparr>) of
       (r, (evs, s)) \<Rightarrow> (r, (evs, s\<lparr>sv_usb := usb_unregister_response_channel session_id channel_id (sv_usb s)\<rparr>)))"

definition usb_send_and_wait :: "u32 \<Rightarrow> task_message \<Rightarrow> hdc_command \<Rightarrow> (rx_event list \<times> server, task_message) io" where
  "usb_send_and_wait session_id msg expected_cmd =
    io_bind (on_sv (on_usb (usb_send_to_session session_id (concat_pack msg)))) (\<lambda>_.
    io_bind rx_recv (\<lambda>ev.
    case ev of
      Received task \<Rightarrow>
        if tm_command task = expected_cmd then io_return task
        else io_fail (Error InvalidData (''Expected '' @ command_name expected_cmd @ '', got '' @ command_name (tm_command task)))
    | QueueClosed \<Rightarrow> io_fail (Error ConnectionAborted ''Response channel closed'')
    | Elapsed \<Rightarrow> io_fail (Error TimedOut ''Timeout waiting for daemon response'')))"

section \<open>Blocks of a file\<close>

definition CHUNK_SIZE :: nat where "CHUNK_SIZE = MAX_SIZE_IOBUF - 64"

definition chunk_head :: "u64 \<Rightarrow> nat \<Rightarrow> transfer_payload" where
  "chunk_head offset n =
    \<lparr>tp_index = offset, tp_compress_type = 0, tp_compress_size = of_nat n, tp_uncompress_size = of_nat n\<rparr>"

definition chunk_payload :: "u64 \<Rightarrow> bytes \<Rightarrow> bytes" where
  "chunk_payload offset buf =
    (let head_bytes = serialize_transfer_payload (chunk_head offset (length buf));
         n = min (length head_bytes) 64
     in take n head_bytes @ replicate (64 - n) 0 @ buf)"

function stream_loop :: "hdc_command \<Rightarrow> u32 \<Rightarrow> u32 \<Rightarrow> nat \<Rightarrow> u64 \<Rightarrow> (server, unit) io" where
  "stream_loop cmd session_id channel_id file offset s =
    (case on_host_fs (file_read file CHUNK_SIZE) s of
       (Inl e, s1) \<Rightarrow> (Inl e, s1)
     | (Inr buf, s1) \<Rightarrow>
         if buf = [] then (Inr (), s1)
         else (case send_task session_id (task_msg channel_id cmd (chunk_payload offset buf)) s1 of
                 (Inl e, s2) \<Rightarrow> (Inl e, s2)
               | (Inr _, s2) \<Rightarrow> stream_loop cmd session_id channel_id file (offset + of_nat (length buf)) s2))"
  by pat_completeness auto

lemma keeps_fs_send: "keeps sv_fs (send_to_session sid data)"
proof -
  have "keeps sv_fs (tcp_session_send sid data)" "keeps sv_fs (on_usb m)" for m :: "(usb_map, unit) io"
    by (auto simp: keeps_def tcp_session_send_def on_tcp_def on_usb_def split: prod.splits)
  then show ?thesis unfolding send_to_session_def by (intro keeps_rules keeps_basic)
qed

lemma stream_round:
  assumes "on_host_fs (file_read h cap) s = (Inr buf, s1)" "buf \<noteq> []" "0 < cap" "send_task sid m s1 = (r, s2)"
  shows "length (remaining h (sv_fs s2)) < length (remaining h (sv_fs s))"
proof -
  have "file_read h cap (sv_fs s) = (Inr buf, sv_fs s1)"
    using assms(1) by (auto simp: on_host_fs_def split: prod.splits)
  moreover have "sv_fs s2 = sv_fs s1" using keepsD [OF keeps_fs_send] assms(4) unfolding send_task_def by blast
  ultimately show ?thesis using file_read_ok [of h cap "sv_fs s" buf "sv_fs s1"] assms(2,3) by simp
qed

termination stream_loop
  by (relation "measure (\<lambda>(_, _, _, h, _, s). length (remaining h (sv_fs s)))")
    (auto intro: stream_round [OF sym _ _ sym] simp: CHUNK_SIZE_def MAX_SIZE_IOBUF_def)

declare stream_loop.simps [simp del]

section \<open>Sending a file\<close>

definition file_check_msg :: "u32 \<Rightarrow> nat \<Rightarrow> string \<Rightarrow> string \<Rightarrow> task_message" where
  "file_check_msg channel_id file_size path optional_name =
    task_msg channel_id FileCheck (serialize_transfer_config
      (transfer_config_default\<lparr>tc_file_size := of_nat file_size, tc_path := path, tc_optional_name := optional_name\<rparr>))"

text \<open>
  Waiting for the daemon's \<open>FileBegin\<close>; a report that the path is a directory is answered once with a
  second check that names the file.
\<close>

fun wait_file_begin ::
  "u32 \<Rightarrow> u32 \<Rightarrow> nat \<Rightarrow> string \<Rightarrow> string \<Rightarrow> bool \<Rightarrow> rx_event list \<Rightarrow> server \<Rightarrow> task_message io_result \<times> (rx_event list \<times> server)" where
  "wait_file_begin sid ch file_size local_filename path retried [] s =
    (Inl (Error TimedOut ''Timeout waiting for FileBegin''), ([], s))"
| "wait_file_begin sid ch file_size local_filename path retried (Elapsed # evs) s =
    (Inl (Error TimedOut ''Timeout waiting for FileBegin''), (evs, s))"
| "wait_file_begin sid ch file_size local_filename path retried (QueueClosed # evs) s =
    (Inl (Error ConnectionAborted ''Response channel closed''), (evs, s))"
| "wait_file_begin sid ch file_size local_filename path retried (Received task # evs) s =
    (if tm_command task = FileBegin then (Inr task, (evs, s))
     else if contains_str ''illegal operation on a directory'' (from_utf8_lossy (tm_payload task))
       \<and> local_filename \<noteq> [] \<and> \<not> retried then
       (let path' = trim_end_matches (\<lambda>c. c = CHR ''/'' \<or> c = CHR 0x5C) path in
        case send_task sid (file_check_msg ch file_size path' local_filename) s of
          (Inl e, s1) \<Rightarrow> (Inl e, (evs, s1))
        | (Inr _, s1) \<Rightarrow> wait_file_begin sid ch file_size local_filename path' True evs s1)
     else if retried \<and> (tm_command task = KernelChannelClose \<or> tm_command task = KernelWakeupSlavetask)
     then wait_file_begin sid ch file_size local_filename path retried evs s
     else (Inl (Error InvalidData (''Expected FileBegin, got '' @ command_name (tm_command task))), (evs, s)))"

text \<open>Waiting for the end of the transfer; \<open>None\<close> is the end of the waiting time.\<close>

fun wait_file_finish :: "rx_event list \<Rightarrow> unit io_result option \<times> rx_event list" where
  "wait_file_finish [] = (None, [])"
| "wait_file_finish (Elapsed # evs) = (None, evs)"
| "wait_file_finish (QueueClosed # evs) = (Some (Inl (Error ConnectionAborted ''Response channel closed'')), evs)"
| "wait_file_finish (Received task # evs) =
    (if tm_command task = FileFinish \<and> (tm_payload task = [] \<or> hd (tm_payload task) = 0) then (Some (Inr ()), evs)
     else if tm_command task = KernelChannelClose then (Some (Inr ()), evs)
     else wait_file_finish evs)"

definition finish_text :: "unit io_result option \<Rightarrow> string" where
  "finish_text outcome =
    (case outcome of
       Some (Inr _) \<Rightarrow> ''FileTransfer finish''
     | Some (Inl e) \<Rightarrow> ''[Fail]FileTransfer failed: '' @ err_message e
     | None \<Rightarrow> ''[Fail]FileTransfer timeout'')"

definition file_send_task :: "u32 \<Rightarrow> u32 \<Rightarrow> nat \<Rightarrow> string \<Rightarrow> string \<Rightarrow> (rx_event list \<times> server, unit) io" where
  "file_send_task session_id channel_id file_size local_path remote_path =
    (let local_filename = (case path_file_name local_path of Some n \<Rightarrow> n | None \<Rightarrow> []) in
     io_bind (on_sv (send_task session_id (task_msg channel_id KernelWakeupSlavetask []))) (\<lambda>_.
     io_bind (on_sv (send_task session_id (file_check_msg channel_id file_size remote_path []))) (\<lambda>_.
     io_bind (\<lambda>(evs, s). wait_file_begin session_id channel_id file_size local_filename remote_path False evs s) (\<lambda>_.
     io_bind (on_sv (on_host_fs (file_open local_path))) (\<lambda>file.
     io_bind (on_sv (stream_loop FileData session_id channel_id file 0)) (\<lambda>_.
     io_bind (on_sv (send_task session_id (task_msg channel_id FileFinish [1]))) (\<lambda>_.
     io_bind (\<lambda>(evs, s). case wait_file_finish evs of (r, evs') \<Rightarrow> (Inr r, (evs', s))) (\<lambda>outcome.
     io_bind (on_sv (answer_line channel_id (finish_text outcome))) (\<lambda>_.
     on_sv (maybe_end_channel channel_id))))))))))"

definition handle_server_file_send :: "u32 \<Rightarrow> u32 \<Rightarrow> string list \<Rightarrow> (rx_event list \<times> server, unit) io" where
  "handle_server_file_send session_id channel_id params =
    io_bind (io_lift (resolve_file_paths params)) (\<lambda>(local_path, remote_path).
    io_match (on_sv (on_host_fs (file_len local_path)))
      (\<lambda>e. io_fail (Error NotFound (''Local file not found: '' @ err_message e)))
      (\<lambda>file_size. with_responses session_id channel_id
         (file_send_task session_id channel_id file_size local_path remote_path)))"

section \<open>Receiving a file\<close>

fun wait_file_check :: "rx_event list \<Rightarrow> task_message io_result \<times> rx_event list" where
  "wait_file_check [] = (Inl (Error TimedOut ''Timeout waiting for FileCheck''), [])"
| "wait_file_check (Elapsed # evs) = (Inl (Error TimedOut ''Timeout waiting for FileCheck''), evs)"
| "wait_file_check (QueueClosed # evs) = (Inl (Error ConnectionAborted ''Response channel closed''), evs)"
| "wait_file_check (Received task # evs) =
    (if tm_command task = KernelWakeupSlavetask then wait_file_check evs
     else if tm_command task = FileCheck then (Inr task, evs)
     else (Inl (Error InvalidData (''Expected FileCheck, got '' @ command_name (tm_command task))), evs))"

text \<open>The data messages; the result is the number of bytes received.\<close>

fun file_recv_loop ::
  "u32 \<Rightarrow> u32 \<Rightarrow> nat \<Rightarrow> u64 \<Rightarrow> u64 \<Rightarrow> bool \<Rightarrow> rx_event list \<Rightarrow> server \<Rightarrow> u64 io_result \<times> (rx_event list \<times> server)" where
  "file_recv_loop sid ch file file_size received finish_sent [] s =
    (Inl (Error TimedOut ''Timeout waiting for file data''), ([], s))"
| "file_recv_loop sid ch file file_size received finish_sent (Elapsed # evs) s =
    (Inl (Error TimedOut ''Timeout waiting for file data''), (evs, s))"
| "file_recv_loop sid ch file file_size received finish_sent (QueueClosed # evs) s =
    (Inl (Error ConnectionAborted ''Response channel closed''), (evs, s))"
| "file_recv_loop sid ch file file_size received finish_sent (Received task # evs) s =
    (if tm_command task = FileData then
       (if length (tm_payload task) < 64 then file_recv_loop sid ch file file_size received finish_sent evs s
        else case deserialize_transfer_payload (take 64 (tm_payload task)) of
          Inl _ \<Rightarrow>
            (case on_host_fs (file_write_all file (tm_payload task)) s of
               (Inl e, s1) \<Rightarrow> (Inl e, (evs, s1))
             | (Inr _, s1) \<Rightarrow>
                 file_recv_loop sid ch file file_size (received + of_nat (length (tm_payload task))) finish_sent evs s1)
        | Inr tp \<Rightarrow>
            (let data = drop 64 (tm_payload task); received1 = received + of_nat (length data) in
             case on_host_fs (file_write_all file data) s of
               (Inl e, s1) \<Rightarrow> (Inl e, (evs, s1))
             | (Inr _, s1) \<Rightarrow>
                 if \<not> finish_sent \<and> file_size \<le> received1 then
                   (case send_task sid (task_msg ch FileFinish [1]) s1 of
                      (Inl e, s2) \<Rightarrow> (Inl e, (evs, s2))
                    | (Inr _, s2) \<Rightarrow> file_recv_loop sid ch file file_size received1 True evs s2)
                 else file_recv_loop sid ch file file_size received1 finish_sent evs s1))
     else if tm_command task = FileFinish then
       (if tm_payload task \<noteq> [] \<and> hd (tm_payload task) = 1 then
          (case send_task sid (task_msg ch FileFinish [0]) s of
             (Inl e, s1) \<Rightarrow> (Inl e, (evs, s1))
           | (Inr _, s1) \<Rightarrow> (Inr received, (evs, s1)))
        else (Inr received, (evs, s)))
     else if tm_command task = KernelEcho \<or> tm_command task = KernelEchoRaw then
       (case answer ch (as_bytes (from_utf8_lossy (tm_payload task))) s of
          (Inl e, s1) \<Rightarrow> (Inl e, (evs, s1))
        | (Inr _, s1) \<Rightarrow> file_recv_loop sid ch file file_size received finish_sent evs s1)
     else if tm_command task = KernelChannelClose then (Inr received, (evs, s))
     else file_recv_loop sid ch file file_size received finish_sent evs s)"

definition recv_init_msg :: "u32 \<Rightarrow> string \<Rightarrow> string \<Rightarrow> task_message" where
  "recv_init_msg channel_id remote_path local_path =
    task_msg channel_id FileInit (as_bytes (''recv '' @ remote_path @ '' '' @ local_path))"

definition announced_size :: "task_message \<Rightarrow> u64" where
  "announced_size check =
    (case deserialize_transfer_config (tm_payload check) of Inr cfg \<Rightarrow> tc_file_size cfg | Inl _ \<Rightarrow> 0)"

definition file_recv_task :: "u32 \<Rightarrow> u32 \<Rightarrow> string \<Rightarrow> string \<Rightarrow> (rx_event list \<times> server, unit) io" where
  "file_recv_task session_id channel_id remote_path local_path =
    io_bind (on_sv (send_task session_id (recv_init_msg channel_id remote_path local_path))) (\<lambda>_.
    io_bind (\<lambda>(evs, s). case wait_file_check evs of (r, evs') \<Rightarrow> (r, (evs', s))) (\<lambda>check.
    io_bind (on_sv (on_host_fs (file_create local_path))) (\<lambda>file.
    io_bind (on_sv (send_task session_id (task_msg channel_id FileBegin []))) (\<lambda>_.
    io_bind (\<lambda>(evs, s). file_recv_loop session_id channel_id file (announced_size check) 0 False evs s) (\<lambda>received.
    io_bind (on_sv (answer_line channel_id (''FileTransfer finish, Size:'' @ show_nat (unat received) @ '' bytes''))) (\<lambda>_.
    on_sv (maybe_end_channel channel_id)))))))"

definition handle_server_file_recv :: "u32 \<Rightarrow> u32 \<Rightarrow> string list \<Rightarrow> (rx_event list \<times> server, unit) io" where
  "handle_server_file_recv session_id channel_id params =
    io_bind (io_lift (resolve_file_paths params)) (\<lambda>(remote_path, local_path).
    io_bind (on_sv (io_ignore (on_host_fs (create_dir_all (path_parent local_path))))) (\<lambda>_.
    with_responses session_id channel_id (file_recv_task session_id channel_id remote_path local_path)))"

section \<open>Heads with padding\<close>

text \<open>A byte 0 is read as the tag of an unknown number field, so the padding is read in pairs.\<close>

lemma zero_varint:
  "read_varint_u32 (pre @ 0 # post) (length pre) = Inr (0, Suc (length pre))"
  "read_varint_u64 (pre @ 0 # post) (length pre) = Inr (0, Suc (length pre))"
proof -
  have w: "write_varint (0 :: u32) = [0]" "write_varint (0 :: u64) = [0]" by code_simp+
  show "read_varint_u32 (pre @ 0 # post) (length pre) = Inr (0, Suc (length pre))"
    using read_varint_write [of pre "0 :: u32" post] by (simp add: read_varint_u32_def w)
  show "read_varint_u64 (pre @ 0 # post) (length pre) = Inr (0, Suc (length pre))"
    using read_varint_write [of pre "0 :: u64" post] by (simp add: read_varint_u64_def w)
qed

lemma zero_tag: "read_tag_wire_type 0 = (0, 0)"
  by code_simp

lemma zero_pair: "tlv_block transfer_payload_loop [0, 0] (\<lambda>st. st)"
  unfolding tlv_block_def
proof (intro allI)
  fix pre post st
  have "skip_unknown 0 (pre @ 0 # 0 # post) (Suc (length pre)) = Inr (Suc (Suc (length pre)))"
    using zero_varint(2) [of "pre @ [0]" post] by (simp add: skip_unknown_def WIRE_VARINT_def)
  then show "transfer_payload_loop (pre @ [0, 0] @ post) (length pre) st
      = transfer_payload_loop (pre @ [0, 0] @ post) (length pre + length [0, 0]) st"
    using zero_varint(1) [of pre "0 # post"]
    by (subst transfer_payload_loop.simps) (simp add: zero_tag transfer_payload_field_def)
qed

lemma zero_block: "tlv_block transfer_payload_loop (replicate (2 * k) 0) (\<lambda>st. st)"
proof (induction k)
  case (Suc k)
  have "replicate (2 * Suc k) (0 :: u8) = [0, 0] @ replicate (2 * k) 0" by simp
  then show ?case using tlv_block_append [OF zero_pair Suc] by simp
qed (simp add: tlv_block_Nil)

lemma zero_last: "transfer_payload_loop (pre @ [0]) (length pre) st = Inl (Error InvalidData ''truncated varint'')"
proof -
  have "skip_unknown 0 (pre @ [0]) (Suc (length pre)) = Inl (Error InvalidData ''truncated varint'')"
    by (simp add: skip_unknown_def WIRE_VARINT_def read_varint_u64_def read_varint_def read_varint_loop.simps)
  then show ?thesis
    using zero_varint(1) [of pre "[]"]
    by (subst transfer_payload_loop.simps) (simp add: zero_tag transfer_payload_field_def)
qed

lemma padded_head:
  assumes "wf_transfer_payload x"
  shows "deserialize_transfer_payload (serialize_transfer_payload x @ replicate n 0)
    = (if even n then Inr x else Inl (Error InvalidData ''truncated varint''))"
proof -
  obtain f where f: "tlv_block transfer_payload_loop (serialize_transfer_payload x) f" "f transfer_payload_default = x"
    using transfer_payload_block [OF assms] by blast
  let ?k = "n div 2"
  have run: "transfer_payload_loop (serialize_transfer_payload x @ replicate (2 * ?k) 0 @ post) 0 transfer_payload_default
      = transfer_payload_loop (serialize_transfer_payload x @ replicate (2 * ?k) 0 @ post)
          (length (serialize_transfer_payload x @ replicate (2 * ?k) (0 :: u8))) x" for post
    using tlv_block_append [OF f(1) zero_block, unfolded tlv_block_def, rule_format, of "[]" ?k post transfer_payload_default]
      f(2) by simp
  show ?thesis
  proof (cases "even n")
    case True
    then have "n = 2 * ?k" by simp
    then show ?thesis
      using run [of "[]"] True by (simp add: deserialize_transfer_payload_def) (simp add: transfer_payload_loop.simps)
  next
    case False
    then have "n = Suc (2 * ?k)" by presburger
    then have "replicate n (0 :: u8) = replicate (2 * ?k) 0 @ [0]" by (metis replicate_Suc replicate_append_same)
    then show ?thesis
      using run [of "[0]"] zero_last [of "serialize_transfer_payload x @ replicate (2 * ?k) 0" x] False
      by (simp add: deserialize_transfer_payload_def)
  qed
qed

section \<open>A file is sent in blocks\<close>

lemma length_chunk_head: "length (serialize_transfer_payload (chunk_head off n)) \<le> 64"
proof -
  have u32: "length (write_varint_u32 v) \<le> 5" for v using length_write_varint_u32 by simp
  have "length (write_varint_u64 off) \<le> 10" using length_write_varint_u64 by simp
  then show ?thesis
    using u32 [of "make_tag 1 WIRE_VARINT"] u32 [of "make_tag 3 WIRE_VARINT"] u32 [of "make_tag 4 WIRE_VARINT"]
      u32 [of "of_nat n"]
    by (simp add: serialize_transfer_payload_def chunk_head_def write_u64_field_def write_u32_field_def write_tag_def)
qed

lemma chunk_payload_eq:
  "chunk_payload off buf = serialize_transfer_payload (chunk_head off (length buf))
    @ replicate (64 - length (serialize_transfer_payload (chunk_head off (length buf)))) 0 @ buf"
  using length_chunk_head [of off "length buf"] by (simp add: chunk_payload_def Let_def min_def)

lemma chunk_payload_parts: "length (chunk_payload off buf) = 64 + length buf" "drop 64 (chunk_payload off buf) = buf"
  "take 64 (chunk_payload off buf) = serialize_transfer_payload (chunk_head off (length buf))
    @ replicate (64 - length (serialize_transfer_payload (chunk_head off (length buf)))) 0"
  using length_chunk_head [of off "length buf"] by (simp_all add: chunk_payload_eq)

primrec data_msgs :: "hdc_command \<Rightarrow> u32 \<Rightarrow> u64 \<Rightarrow> bytes list \<Rightarrow> task_message list" where
  "data_msgs cmd ch off [] = []"
| "data_msgs cmd ch off (c # cs) = task_msg ch cmd (chunk_payload off c) # data_msgs cmd ch (off + of_nat (length c)) cs"

lemma stream_loop_complete:
  "host_up sid s \<Longrightarrow> h < length (fs_handles (sv_fs s)) \<Longrightarrow> \<forall>m. ReadError m \<notin> set (fs_reads (sv_fs s)) \<Longrightarrow>
    \<exists>chunks f'. stream_loop cmd sid ch h off s = (Inr (), (host_sent sid (data_msgs cmd ch off chunks) s)\<lparr>sv_fs := f'\<rparr>)
      \<and> concat chunks = remaining h (sv_fs s)
      \<and> (\<forall>c \<in> set chunks. c \<noteq> [] \<and> length c \<le> CHUNK_SIZE) \<and> fs_files f' = fs_files (sv_fs s)"
proof (induction "length (remaining h (sv_fs s))" arbitrary: s off rule: less_induct)
  case less
  obtain got f1 where read: "file_read h CHUNK_SIZE (sv_fs s) = (Inr got, f1)" "\<forall>m. ReadError m \<notin> set (fs_reads f1)"
    using file_read_no_error [OF less.prems(2,3)] by blast
  have pos: "0 < CHUNK_SIZE" by (simp add: CHUNK_SIZE_def MAX_SIZE_IOBUF_def)
  note ok = file_read_ok [OF read(1) pos]
  show ?case
  proof (cases "got = []")
    case True
    then have "stream_loop cmd sid ch h off s = (Inr (), (host_sent sid (data_msgs cmd ch off []) s)\<lparr>sv_fs := f1\<rparr>)"
      using read less.prems(1)
      by (simp add: stream_loop.simps [of cmd sid ch h off s] on_host_fs_def)
    moreover have "remaining h (sv_fs s) = []" "fs_files f1 = fs_files (sv_fs s)" using ok True by blast+
    ultimately show ?thesis by (intro exI [of _ "[]"] exI [of _ f1] conjI) simp_all
  next
    case False
    let ?m = "task_msg ch cmd (chunk_payload off got)" and ?off = "off + of_nat (length got)"
    let ?s = "host_sent sid [?m] (s\<lparr>sv_fs := f1\<rparr>)"
    have "length (remaining h (sv_fs ?s)) < length (remaining h (sv_fs s))" using ok False by simp
    moreover have "host_up sid ?s" "h < length (fs_handles (sv_fs ?s))" "\<forall>m. ReadError m \<notin> set (fs_reads (sv_fs ?s))"
      using less.prems ok read by auto
    ultimately obtain chunks f' where rest:
      "stream_loop cmd sid ch h ?off ?s = (Inr (), (host_sent sid (data_msgs cmd ch ?off chunks) ?s)\<lparr>sv_fs := f'\<rparr>)"
      "concat chunks = remaining h f1" "\<forall>c \<in> set chunks. c \<noteq> [] \<and> length c \<le> CHUNK_SIZE" "fs_files f' = fs_files f1"
      using less.hyps [of ?s ?off] by auto
    have "stream_loop cmd sid ch h off s = stream_loop cmd sid ch h ?off ?s"
      using read False less.prems(1)
      by (simp add: stream_loop.simps [of cmd sid ch h off s] on_host_fs_def send_task_up)
    then have "stream_loop cmd sid ch h off s
        = (Inr (), (host_sent sid (data_msgs cmd ch off (got # chunks)) s)\<lparr>sv_fs := f'\<rparr>)"
      using rest(1) by simp
    moreover have "concat (got # chunks) = remaining h (sv_fs s)" "fs_files f' = fs_files (sv_fs s)"
      "length got \<le> CHUNK_SIZE"
      using ok rest(2,4) by simp_all
    ultimately show ?thesis
      using rest(3) False by (intro exI [of _ "got # chunks"] exI [of _ f'] conjI) simp_all
  qed
qed

section \<open>A file is received\<close>

text \<open>What one data message adds to the file: the data behind a readable head, otherwise all of it.\<close>

definition block_data :: "bytes \<Rightarrow> bytes" where
  "block_data payload = (case deserialize_transfer_payload (take 64 payload) of
     Inr _ \<Rightarrow> drop 64 payload | Inl _ \<Rightarrow> payload)"

text \<open>
  The padding of a head is a whole number of pairs exactly if the position takes an odd number of
  bytes, or none; otherwise the receiver takes the head for data.
\<close>

lemma even_chunk_head:
  "even (length (serialize_transfer_payload (chunk_head off n))) \<longleftrightarrow> off = 0 \<or> odd (length (write_varint_u64 off))"
proof -
  have "length (write_varint_u32 (make_tag 1 WIRE_VARINT)) = 1" "length (write_varint_u32 (make_tag 3 WIRE_VARINT)) = 1"
    "length (write_varint_u32 (make_tag 4 WIRE_VARINT)) = 1"
    by code_simp+
  then show ?thesis
    by (auto simp: serialize_transfer_payload_def chunk_head_def write_u64_field_def write_u32_field_def write_tag_def)
qed

lemma block_data_chunk:
  "block_data (chunk_payload off c)
    = (if off = 0 \<or> odd (length (write_varint_u64 off)) then c else chunk_payload off c)"
proof -
  let ?head = "serialize_transfer_payload (chunk_head off (length c))"
  have wf: "wf_transfer_payload (chunk_head off (length c))" by (simp add: wf_transfer_payload_def chunk_head_def)
  have "even (64 - length ?head) = even (length ?head)" using length_chunk_head [of off "length c"] by simp
  then have "even (64 - length ?head) \<longleftrightarrow> off = 0 \<or> odd (length (write_varint_u64 off))"
    by (simp only: even_chunk_head)
  then show ?thesis using padded_head [OF wf, of "64 - length ?head"] by (simp add: block_data_def chunk_payload_parts)
qed

lemma block_data_head_kept:
  assumes "2 ^ 21 \<le> unat off" "unat off < 2 ^ 28"
  shows "block_data (chunk_payload off c) = chunk_payload off c"
proof -
  have "length (write_varint_u64 off) = Suc 3"
    unfolding write_varint_u64_def using assms by (intro length_write_varint_eq) simp_all
  moreover have "off \<noteq> 0" using assms(1) by auto
  ultimately show ?thesis by (simp add: block_data_chunk)
qed

text \<open>A file is open for appending.\<close>

definition append_open :: "nat \<Rightarrow> string \<Rightarrow> fs \<Rightarrow> bool" where
  "append_open h path f \<longleftrightarrow> h < length (fs_handles f) \<and> fs_files f path \<noteq> None
    \<and> fs_handles f ! h = (path, length (contents f path)) \<and> fs_writes f = []"

lemma write_append:
  assumes "append_open h path f"
  shows "\<exists>f'. file_write_all h data f = (Inr (), f') \<and> append_open h path f'
    \<and> contents f' path = contents f path @ data \<and> (\<forall>p. p \<noteq> path \<longrightarrow> fs_files f' p = fs_files f p)"
proof -
  let ?f = "(file_put h data f)\<lparr>fs_writes := []\<rparr>"
  have f: "h < length (fs_handles f)" "fs_handles f ! h = (path, length (contents f path))" "fs_writes f = []"
    using assms by (simp_all add: append_open_def)
  note put = file_put_append [OF f(1,2), where data = data]
  have "file_write_all h data f = (Inr (), ?f)" using f by (simp add: file_write_all_def)
  moreover have same: "contents ?f p = contents (file_put h data f) p" for p by (simp add: contents_def)
  moreover have "append_open h path ?f"
    using f put(1,2) same [of path] by (simp add: append_open_def) (simp add: file_put_def)
  ultimately show ?thesis using put(1,3) by (intro exI [of _ ?f]) auto
qed

definition data_event :: "u32 \<Rightarrow> bytes \<Rightarrow> rx_event" where
  "data_event ch payload = Received (task_msg ch FileData payload)"

text \<open>The announcement that everything has arrived is sent at most once.\<close>

lemma file_recv_loop_spec:
  "host_up sid s \<Longrightarrow> append_open h path (sv_fs s) \<Longrightarrow> \<forall>p \<in> set ps. 64 \<le> length p \<Longrightarrow> fp = [] \<or> hd fp \<noteq> 1 \<Longrightarrow>
    \<exists>f' ms. file_recv_loop sid ch h fsize got finish_sent
        (map (data_event ch) ps @ Received (task_msg ch FileFinish fp) # evs) s
      = (Inr (got + of_nat (length (concat (map block_data ps)))), (evs, (host_sent sid ms s)\<lparr>sv_fs := f'\<rparr>))
    \<and> (ms = [] \<or> \<not> finish_sent \<and> ms = [task_msg ch FileFinish [1]])
    \<and> contents f' path = contents (sv_fs s) path @ concat (map block_data ps)
    \<and> fs_files f' path \<noteq> None \<and> (\<forall>p. p \<noteq> path \<longrightarrow> fs_files f' p = fs_files (sv_fs s) p)"
proof (induction ps arbitrary: s got finish_sent)
  case Nil
  then show ?case
    by (intro exI [of _ "sv_fs s"] exI [of _ "[]"]) (auto simp: task_msg_def append_open_def)
next
  case (Cons p ps)
  obtain f1 where f1: "file_write_all h (block_data p) (sv_fs s) = (Inr (), f1)" "append_open h path f1"
    "contents f1 path = contents (sv_fs s) path @ block_data p" "\<forall>q. q \<noteq> path \<longrightarrow> fs_files f1 q = fs_files (sv_fs s) q"
    using write_append [OF Cons.prems(2)] by blast
  let ?got = "got + of_nat (length (block_data p))"
  let ?evs = "map (data_event ch) ps @ Received (task_msg ch FileFinish fp) # evs"
  let ?fin = "is_ok (deserialize_transfer_payload (take 64 p)) \<and> \<not> finish_sent \<and> fsize \<le> ?got"
  let ?ms = "if ?fin then [task_msg ch FileFinish [1]] else []"
  let ?s = "(host_sent sid ?ms s)\<lparr>sv_fs := f1\<rparr>"
  have step: "file_recv_loop sid ch h fsize got finish_sent (data_event ch p # ?evs) s
      = file_recv_loop sid ch h fsize ?got (finish_sent \<or> ?fin) ?evs ?s"
  proof (cases "deserialize_transfer_payload (take 64 p)")
    case (Inl e)
    then show ?thesis
      using f1(1) Cons.prems(1,3) by (simp add: data_event_def task_msg_def block_data_def on_host_fs_def)
  next
    case (Inr tp)
    then show ?thesis
      using f1(1) Cons.prems(1,3)
      by (auto simp: data_event_def task_msg_def block_data_def on_host_fs_def send_task_up [unfolded task_msg_def] Let_def)
  qed
  have up: "host_up sid ?s" using Cons.prems(1) by simp
  obtain f' ms where rest: "file_recv_loop sid ch h fsize ?got (finish_sent \<or> ?fin) ?evs ?s
      = (Inr (?got + of_nat (length (concat (map block_data ps)))), (evs, (host_sent sid ms ?s)\<lparr>sv_fs := f'\<rparr>))"
    "ms = [] \<or> \<not> (finish_sent \<or> ?fin) \<and> ms = [task_msg ch FileFinish [1]]"
    "contents f' path = contents f1 path @ concat (map block_data ps)"
    "fs_files f' path \<noteq> None" "\<forall>q. q \<noteq> path \<longrightarrow> fs_files f' q = fs_files f1 q"
    using Cons.IH [OF up, of ?got "finish_sent \<or> ?fin"] f1(2) Cons.prems(3,4) by auto
  then have "file_recv_loop sid ch h fsize got finish_sent (map (data_event ch) (p # ps) @ Received (task_msg ch FileFinish fp) # evs) s
      = (Inr (got + of_nat (length (concat (map block_data (p # ps))))), (evs, (host_sent sid (?ms @ ms) s)\<lparr>sv_fs := f'\<rparr>))"
    using step by (simp add: add.assoc)
  moreover have "?ms @ ms = [] \<or> \<not> finish_sent \<and> ?ms @ ms = [task_msg ch FileFinish [1]]" using rest(2) by auto
  ultimately show ?case
    using rest(3-5) f1(3,4) by (intro exI [of _ f'] exI [of _ "?ms @ ms"]) auto
qed

section \<open>Whole transfers\<close>

text \<open>Whatever a task does, its queue is gone afterwards.\<close>

lemma with_responses_unregisters:
  "with_responses sid ch m x = (r, (evs, s)) \<Longrightarrow> map_of (response_channels (sv_usb s)) (sid, ch) = None"
  by (auto simp: with_responses_def usb_unregister_response_channel_def split: prod.splits)

definition upload_msgs :: "u32 \<Rightarrow> nat \<Rightarrow> string \<Rightarrow> bytes list \<Rightarrow> task_message list" where
  "upload_msgs ch n remote chunks =
    [task_msg ch KernelWakeupSlavetask [], file_check_msg ch n remote []]
    @ data_msgs FileData ch 0 chunks @ [task_msg ch FileFinish [1]]"

lemma file_send_complete:
  assumes up: "host_up sid s" "channel_up ch s"
    and paths: "resolve_file_paths params = Inr (lp, rp)"
    and local: "fs_deny (sv_fs s) lp = None" "fs_files (sv_fs s) lp = Some c"
      "\<forall>m. ReadError m \<notin> set (fs_reads (sv_fs s))"
    and evs: "tm_command begin = FileBegin" "wait_file_finish evs = (outcome, evs')"
  shows "\<exists>chunks s'. handle_server_file_send sid ch params (Received begin # evs, s) = (Inr (), (evs', s'))
    \<and> concat chunks = c \<and> (\<forall>b \<in> set chunks. b \<noteq> [] \<and> length b \<le> CHUNK_SIZE)
    \<and> session_out sid s' = session_out sid s @ concat (map concat_pack (upload_msgs ch (length c) rp chunks))
    \<and> channel_sent ch s' = channel_sent ch s @ channel_frame (as_bytes (finish_text outcome @ CRLF))
    \<and> fs_files (sv_fs s') = fs_files (sv_fs s)
    \<and> map_of (response_channels (sv_usb s')) (sid, ch) = None"
proof -
  let ?s0 = "s\<lparr>sv_usb := usb_register_response_channel sid ch \<lparr>mq_items = [], mq_open = True\<rparr> (sv_usb s)\<rparr>"
  let ?open = "[task_msg ch KernelWakeupSlavetask [], file_check_msg ch (length c) rp []]"
  let ?h = "length (fs_handles (sv_fs s))"
  let ?s1 = "(host_sent sid ?open ?s0)\<lparr>sv_fs := (sv_fs s)\<lparr>fs_handles := fs_handles (sv_fs s) @ [(lp, 0)]\<rparr>\<rparr>"
  have up1: "host_up sid ?s0" "host_up sid ?s1" using up(1) by simp_all
  have rem: "remaining ?h (sv_fs ?s1) = c" using local(2) by (simp add: remaining_def contents_def nth_append)
  obtain chunks f' where loop: "stream_loop FileData sid ch ?h 0 ?s1
      = (Inr (), (host_sent sid (data_msgs FileData ch 0 chunks) ?s1)\<lparr>sv_fs := f'\<rparr>)"
    "concat chunks = c" "\<forall>b \<in> set chunks. b \<noteq> [] \<and> length b \<le> CHUNK_SIZE" "fs_files f' = fs_files (sv_fs s)"
    using stream_loop_complete [OF up1(2), of ?h FileData ch 0] local(3) rem by auto
  let ?s2 = "(host_sent sid (upload_msgs ch (length c) rp chunks) ?s0)\<lparr>sv_fs := f'\<rparr>"
  let ?s3 = "channel_ended ch (answered ch (as_bytes (finish_text outcome @ CRLF)) ?s2)"
  have task: "file_send_task sid ch (length c) lp rp (Received begin # evs, ?s0) = (Inr (), (evs', ?s3))"
    using up1 up(2) local(1,2) evs loop(1)
    by (simp add: file_send_task_def io_bind_def on_sv_def send_task_up on_host_fs_def file_open_def answer_line_def answer_up
        maybe_end_channel_ended upload_msgs_def Let_def)
  let ?s4 = "?s3\<lparr>sv_usb := usb_unregister_response_channel sid ch (sv_usb ?s3)\<rparr>"
  from task have "handle_server_file_send sid ch params (Received begin # evs, s) = (Inr (), (evs', ?s4))"
    using paths local(1,2)
    by (simp add: handle_server_file_send_def io_bind_def io_match_def on_sv_def on_host_fs_def file_len_def with_responses_def)
  moreover have "session_up sid ?s0" using up(1) by (simp add: host_up_def)
  ultimately show ?thesis
    using loop(2-4) up(2)
    by (intro exI [of _ chunks] exI [of _ ?s4]) (simp add: session_out_host_sent usb_unregister_response_channel_def)
qed

lemma file_recv_complete:
  assumes up: "host_up sid s" "channel_up ch s"
    and paths: "resolve_file_paths params = Inr (rp, lp)"
    and local: "fs_deny (sv_fs s) lp = None" "fs_writes (sv_fs s) = []"
    and evs: "tm_command check = FileCheck" "\<forall>p \<in> set ps. 64 \<le> length p" "fp = [] \<or> hd fp \<noteq> 1"
  shows "\<exists>s' ms. handle_server_file_recv sid ch params
        (Received check # map (data_event ch) ps @ Received (task_msg ch FileFinish fp) # evs, s) = (Inr (), (evs, s'))
    \<and> fs_files (sv_fs s') = (fs_files (sv_fs s))(lp \<mapsto> concat (map block_data ps))
    \<and> session_out sid s' = session_out sid s
        @ concat (map concat_pack ([recv_init_msg ch rp lp, task_msg ch FileBegin []] @ ms))
    \<and> (ms = [] \<or> ms = [task_msg ch FileFinish [1]])
    \<and> map_of (response_channels (sv_usb s')) (sid, ch) = None"
proof -
  let ?s0 = "s\<lparr>sv_usb := usb_register_response_channel sid ch \<lparr>mq_items = [], mq_open = True\<rparr> (sv_usb s)\<rparr>"
  let ?open = "[recv_init_msg ch rp lp, task_msg ch FileBegin []]"
  let ?h = "length (fs_handles (sv_fs s))"
  let ?f = "(sv_fs s)\<lparr>fs_files := (fs_files (sv_fs s))(lp \<mapsto> []), fs_handles := fs_handles (sv_fs s) @ [(lp, 0)]\<rparr>"
  let ?s1 = "(host_sent sid ?open ?s0)\<lparr>sv_fs := ?f\<rparr>"
  have up1: "host_up sid ?s0" "host_up sid ?s1" using up(1) by simp_all
  have "append_open ?h lp (sv_fs ?s1)" using local(2) by (simp add: append_open_def contents_def)
  from file_recv_loop_spec [OF up1(2) this evs(2,3), of ch "announced_size check" 0 False evs]
  obtain f' ms where loop: "file_recv_loop sid ch ?h (announced_size check) 0 False
      (map (data_event ch) ps @ Received (task_msg ch FileFinish fp) # evs) ?s1
      = (Inr (of_nat (length (concat (map block_data ps)))), (evs, (host_sent sid ms ?s1)\<lparr>sv_fs := f'\<rparr>))"
    "ms = [] \<or> ms = [task_msg ch FileFinish [1]]"
    "contents f' lp = concat (map block_data ps)" "fs_files f' lp \<noteq> None"
    "\<forall>p. p \<noteq> lp \<longrightarrow> fs_files f' p = fs_files (sv_fs s) p"
    by (auto simp: contents_def)
  let ?n = "of_nat (length (concat (map block_data ps))) :: u64"
  let ?s2 = "(host_sent sid (?open @ ms) ?s0)\<lparr>sv_fs := f'\<rparr>"
  let ?text = "''FileTransfer finish, Size:'' @ show_nat (unat ?n) @ '' bytes''"
  let ?s3 = "channel_ended ch (answered ch (as_bytes (?text @ CRLF)) ?s2)"
  have task: "file_recv_task sid ch rp lp (Received check # map (data_event ch) ps @ Received (task_msg ch FileFinish fp) # evs, ?s0)
      = (Inr (), (evs, ?s3))"
    using up1 up(2) local(1) evs(1) loop(1)
    by (simp add: file_recv_task_def io_bind_def on_sv_def send_task_up on_host_fs_def file_create_def answer_line_def
        answer_up maybe_end_channel_ended)
  let ?s4 = "?s3\<lparr>sv_usb := usb_unregister_response_channel sid ch (sv_usb ?s3)\<rparr>"
  from task have "handle_server_file_recv sid ch params
      (Received check # map (data_event ch) ps @ Received (task_msg ch FileFinish fp) # evs, s) = (Inr (), (evs, ?s4))"
    using paths
    by (simp add: handle_server_file_recv_def io_bind_def on_sv_def on_host_fs_def create_dir_all_def with_responses_def
        split: option.splits)
  moreover have "session_up sid ?s0" using up(1) by (simp add: host_up_def)
  moreover have "fs_files f' = (fs_files (sv_fs s))(lp \<mapsto> concat (map block_data ps))"
    using loop(3-5) by (auto simp: contents_def fun_eq_iff)
  ultimately show ?thesis
    using loop(2) by (intro exI [of _ ?s4] exI [of _ ms]) (simp add: session_out_host_sent usb_unregister_response_channel_def)
qed

end
