(* ===== verification/Server_Forward.thy ===== *)
theory Server_Forward
  imports Server_File
begin

text \<open>
  Port forwarding on the host server (\<open>handle_server_forward\<close>, \<open>handle_server_rport\<close> and the tasks they
  start, \<open>hdc/src/server.rs\<close>). Random numbers, the number of a started task and the answers of the
  operating system to the attempts to bind and to connect are arguments. The tasks that bridge a
  connection are modelled on their own inputs: what arrives on the local socket, and what the
  dispatcher puts into the queue of the connection.
\<close>

section \<open>Parameters and messages\<close>

record forward_env =
  fv_listen_ip :: "string option"
  fv_ctx_id :: u32
  fv_handle :: nat
  fv_bind :: "nat \<Rightarrow> nat \<Rightarrow> string option"
  fv_connect :: "nat \<Rightarrow> nat \<Rightarrow> string option"

text \<open>The value of a \<open>OnceLock\<close>: only the first call sets it.\<close>

definition set_forward_listen_ip :: "string \<Rightarrow> string option \<Rightarrow> string option" where
  "set_forward_listen_ip ip cell = (case cell of None \<Rightarrow> Some ip | Some _ \<Rightarrow> cell)"

definition get_forward_listen_ip :: "forward_env \<Rightarrow> string" where
  "get_forward_listen_ip env = (case fv_listen_ip env of Some ip \<Rightarrow> ip | None \<Rightarrow> ''127.0.0.1'')"

definition parse_forward_port :: "string \<Rightarrow> nat io_result" where
  "parse_forward_port spec =
    (case split_once CHR '':'' spec of
       None \<Rightarrow> Inl (Error InvalidInput ''Invalid forward spec, expected proto:port'')
     | Some (proto, port) \<Rightarrow>
         if proto \<noteq> ''tcp'' then Inl (Error InvalidInput (''Host only supports tcp: forward spec, got '' @ proto))
         else (case parse_uint_res 65535 port of
                 Inl e \<Rightarrow> Inl (Error InvalidInput (''Invalid port number: '' @ e))
               | Inr p \<Rightarrow> Inr p))"

definition remote_schemas :: "string list" where
  "remote_schemas = [''tcp:'', ''ark:'', ''jdwp:'', ''localabstract:'', ''localreserved:'', ''localfilesystem:'', ''dev:'']"

definition node_payload :: "u32 \<Rightarrow> string \<Rightarrow> bytes" where
  "node_payload ctx_id spec = to_be 4 ctx_id @ replicate 8 0 @ as_bytes spec @ [0]"

text \<open>The number at the front of a payload of at least four bytes.\<close>

definition payload_id :: "bytes \<Rightarrow> u32" where
  "payload_id p = from_be (take 4 p)"

definition check_result_msg :: "u32 \<Rightarrow> u32 \<Rightarrow> bool \<Rightarrow> task_message" where
  "check_result_msg channel_id ctx_id ok =
    task_msg channel_id ForwardCheckResult (to_be 4 ctx_id @ [if ok then 1 else 0])"

text \<open>This one goes to USB sessions only.\<close>

definition send_forward_check_result :: "u32 \<Rightarrow> u32 \<Rightarrow> u32 \<Rightarrow> bool \<Rightarrow> (server, unit) io" where
  "send_forward_check_result session_id channel_id ctx_id ok =
    on_usb (usb_send_to_session session_id (concat_pack (check_result_msg channel_id ctx_id ok)))"

definition bind_text :: "forward_env \<Rightarrow> nat \<Rightarrow> string \<Rightarrow> string" where
  "bind_text env port e = ''Failed to bind '' @ get_forward_listen_ip env @ '':'' @ show_nat port @ '': '' @ e"

section \<open>Waiting for the daemon\<close>

fun wait_check_result :: "u32 \<Rightarrow> rx_event list \<Rightarrow> bool io_result \<times> rx_event list" where
  "wait_check_result ctx_id [] = (Inl (Error TimedOut ''Timeout waiting for ForwardCheckResult from daemon''), [])"
| "wait_check_result ctx_id (Elapsed # evs) =
    (Inl (Error TimedOut ''Timeout waiting for ForwardCheckResult from daemon''), evs)"
| "wait_check_result ctx_id (QueueClosed # evs) =
    (Inl (Error ConnectionAborted ''Response channel closed while waiting for ForwardCheckResult''), evs)"
| "wait_check_result ctx_id (Received task # evs) =
    (if tm_command task = ForwardCheckResult then
       (if 5 \<le> length (tm_payload task) \<and> payload_id (tm_payload task) = ctx_id
        then (Inr (tm_payload task ! 4 \<noteq> 0), evs)
        else wait_check_result ctx_id evs)
     else if tm_command task = KernelChannelClose
     then (Inl (Error ConnectionAborted ''Channel closed by daemon during forward setup''), evs)
     else wait_check_result ctx_id evs)"

fun wait_forward_check :: "rx_event list \<Rightarrow> (u32 \<times> string) io_result \<times> rx_event list" where
  "wait_forward_check [] = (Inl (Error TimedOut ''Timeout waiting for ForwardCheck from daemon''), [])"
| "wait_forward_check (Elapsed # evs) = (Inl (Error TimedOut ''Timeout waiting for ForwardCheck from daemon''), evs)"
| "wait_forward_check (QueueClosed # evs) =
    (Inl (Error ConnectionAborted ''Response channel closed while waiting for ForwardCheck''), evs)"
| "wait_forward_check (Received task # evs) =
    (if tm_command task = ForwardCheck then
       (if length (tm_payload task) < 4 + 8 + 1 then (Inl (Error InvalidData ''ForwardCheck payload too short''), evs)
        else (Inr (payload_id (tm_payload task),
                from_utf8_lossy (takeWhile (\<lambda>b. b \<noteq> 0) (drop 12 (tm_payload task)))), evs))
     else if tm_command task = KernelChannelClose
     then (Inl (Error ConnectionAborted ''Channel closed by daemon during forward setup''), evs)
     else wait_forward_check evs)"

text \<open>The outcome of these two waits does not matter; what is left of the events does.\<close>

fun wait_forward_success :: "rx_event list \<Rightarrow> rx_event list" where
  "wait_forward_success [] = []"
| "wait_forward_success (Elapsed # evs) = evs"
| "wait_forward_success (QueueClosed # evs) = evs"
| "wait_forward_success (Received task # evs) =
    (if tm_command task = ForwardSuccess
       \<or> (tm_command task = KernelEcho \<or> tm_command task = KernelEchoRaw)
         \<and> contains_str ''Forwardport result'' (from_utf8_lossy (tm_payload task))
     then evs else wait_forward_success evs)"

fun wait_followup :: "u32 \<Rightarrow> rx_event list \<Rightarrow> rx_event list" where
  "wait_followup ctx_id [] = []"
| "wait_followup ctx_id (Elapsed # evs) = evs"
| "wait_followup ctx_id (QueueClosed # evs) = evs"
| "wait_followup ctx_id (Received task # evs) =
    (if tm_command task = ForwardCheckResult \<and> 5 \<le> length (tm_payload task) \<and> payload_id (tm_payload task) = ctx_id
       \<or> tm_command task = KernelChannelClose
     then evs else wait_followup ctx_id evs)"

section \<open>Forwarding a local port\<close>

text \<open>The flow that asks the daemon first.\<close>

definition check_flow :: "forward_env \<Rightarrow> u32 \<Rightarrow> u32 \<Rightarrow> nat \<Rightarrow> string \<Rightarrow> (rx_event list \<times> server, unit) io" where
  "check_flow env session_id channel_id local_port remote_spec =
    (case fv_bind env 0 local_port of
       Some e \<Rightarrow> io_fail (Error AddrInUse (bind_text env local_port e))
     | None \<Rightarrow>
         io_bind (on_sv (map_usb (usb_register_response_channel session_id (fv_ctx_id env)
           \<lparr>mq_items = [], mq_open = True\<rparr>))) (\<lambda>_.
         io_bind (on_sv (send_task session_id (task_msg channel_id ForwardCheck (node_payload (fv_ctx_id env) remote_spec)))) (\<lambda>_.
         io_bind (\<lambda>(evs, s). case wait_check_result (fv_ctx_id env) evs of (r, evs') \<Rightarrow> (r, (evs', s))) (\<lambda>ok.
         if \<not> ok then io_fail (Error ConnectionRefused ''Daemon rejected ForwardCheck'')
         else io_bind (on_sv (answer_line channel_id ''Forwardport result:OK'')) (\<lambda>_.
              on_sv (maybe_end_channel channel_id))))))"

text \<open>
  The flow that lets the daemon ask; the follow-up is for debuggers. The result is the remote end as
  the daemon names it.
\<close>

definition follow_up :: "u32 \<Rightarrow> u32 \<Rightarrow> u32 \<Rightarrow> string \<Rightarrow> (rx_event list \<times> server, unit) io" where
  "follow_up session_id channel_id ctx_id daemon_remote_spec =
    io_bind (on_sv (send_task session_id (task_msg channel_id ForwardCheck (node_payload ctx_id daemon_remote_spec)))) (\<lambda>_.
    \<lambda>(evs, s). (Inr (), (wait_followup ctx_id evs, s)))"

definition init_flow :: "forward_env \<Rightarrow> bool \<Rightarrow> u32 \<Rightarrow> u32 \<Rightarrow> nat \<Rightarrow> string \<Rightarrow> string \<Rightarrow> (rx_event list \<times> server, string) io" where
  "init_flow env is_debug_forward session_id channel_id local_port local_spec remote_spec =
    io_bind (on_sv (send_task session_id (task_msg channel_id ForwardInit (as_bytes (local_spec @ '' '' @ remote_spec))))) (\<lambda>_.
    io_bind (\<lambda>(evs, s). case wait_forward_check evs of (r, evs') \<Rightarrow> (r, (evs', s))) (\<lambda>(ctx_id, daemon_remote_spec).
    case fv_bind env 1 local_port of
      Some e \<Rightarrow>
        io_bind (on_sv (io_ignore (send_forward_check_result session_id channel_id ctx_id False))) (\<lambda>_.
        io_bind (on_sv (map_usb (usb_unregister_response_channel session_id channel_id))) (\<lambda>_.
        io_fail (Error AddrInUse (bind_text env local_port e))))
    | None \<Rightarrow>
        io_bind (on_sv (send_forward_check_result session_id channel_id ctx_id True)) (\<lambda>_.
        io_bind (\<lambda>(evs, s). (Inr (), (wait_forward_success evs, s))) (\<lambda>_.
        io_bind (if is_debug_forward then follow_up session_id channel_id ctx_id daemon_remote_spec else io_return ()) (\<lambda>_.
        io_bind (on_sv (answer_line channel_id ''Forwardport result:OK'')) (\<lambda>_.
        io_bind (on_sv (maybe_end_channel channel_id)) (\<lambda>_.
        io_return daemon_remote_spec)))))))"

definition is_debug_node :: "string \<Rightarrow> bool" where
  "is_debug_node remote_spec \<longleftrightarrow> prefix ''ark:'' remote_spec \<or> prefix ''jdwp:'' remote_spec"

definition forward_setup :: "forward_env \<Rightarrow> u32 \<Rightarrow> u32 \<Rightarrow> nat \<Rightarrow> string \<Rightarrow> string \<Rightarrow> (rx_event list \<times> server, string) io" where
  "forward_setup env session_id channel_id local_port local_spec remote_spec =
    (if is_debug_node remote_spec
     then init_flow env True session_id channel_id local_port local_spec remote_spec
     else io_match (check_flow env session_id channel_id local_port remote_spec)
       (\<lambda>_. init_flow env False session_id channel_id local_port local_spec remote_spec)
       (\<lambda>_. io_return remote_spec))"

definition put_forward :: "forward_entry \<Rightarrow> (server, unit) io" where
  "put_forward e s = (Inr (), s\<lparr>sv_forward := hm_insert (fe_task_string e) e (sv_forward s)\<rparr>)"

definition handle_server_forward ::
  "forward_env \<Rightarrow> string \<Rightarrow> u32 \<Rightarrow> u32 \<Rightarrow> string list \<Rightarrow> (rx_event list \<times> server, unit) io" where
  "handle_server_forward env connect_key session_id channel_id params =
    (if length params < 3 then
       io_fail (Error InvalidInput
         ''Invalid forward parameters. Usage: fport tcp:local tcp:remote|ark:pid@bundle|jdwp:pid'')
     else
       let local_spec = params ! 1; remote_spec = params ! 2 in
       if \<not> prefix ''tcp:'' local_spec then io_fail (Error InvalidInput ''Local forward node must be tcp:<port>'')
       else io_bind (io_lift (parse_forward_port local_spec)) (\<lambda>local_port.
         if \<not> list_ex (\<lambda>p. prefix p remote_spec) remote_schemas
         then io_fail (Error InvalidInput (''Unsupported remote forward node: '' @ remote_spec))
         else io_bind (on_sv (map_usb (usb_register_response_channel session_id channel_id
             \<lparr>mq_items = [], mq_open = True\<rparr>))) (\<lambda>_.
           io_bind (forward_setup env session_id channel_id local_port local_spec remote_spec) (\<lambda>_.
           on_sv (put_forward \<lparr>fe_channel_id = channel_id, fe_session_id = session_id, fe_connect_key = connect_key,
             fe_direction = Forward, fe_task_string = local_spec @ '' '' @ remote_spec,
             fe_abort_handle = Some (fv_handle env)\<rparr>)))))"

section \<open>Forwarded connections\<close>

text \<open>The queues of the open connections, with what was put into each.\<close>

type_synonym forward_conns = "u32 \<Rightarrow> bytes list option"

definition conn_push :: "u32 \<Rightarrow> bytes \<Rightarrow> forward_conns \<Rightarrow> forward_conns" where
  "conn_push forward_id data conns =
    (case conns forward_id of None \<Rightarrow> conns | Some q \<Rightarrow> conns(forward_id \<mapsto> q @ [data]))"

text \<open>The dispatcher of a forward: empty data tells a connection that it is active.\<close>

definition forward_dispatch :: "task_message \<Rightarrow> forward_conns \<Rightarrow> forward_conns" where
  "forward_dispatch task conns =
    (let p = tm_payload task in
     if length p < 4 then conns
     else if tm_command task = ForwardData then conn_push (payload_id p) (drop 4 p) conns
     else if tm_command task = ForwardActiveMaster then conn_push (payload_id p) [] conns
     else if tm_command task = ForwardFreeContext then conns(payload_id p := None)
     else conns)"

text \<open>What the queue of a connection gives: data, the end of the queue, the end of the waiting time.\<close>

datatype conn_event = ConnBytes bytes | ConnEnd | ConnElapsed

fun host_wait_active :: "conn_event list \<Rightarrow> bool \<times> conn_event list" where
  "host_wait_active [] = (False, [])"
| "host_wait_active (ConnElapsed # evs) = (False, evs)"
| "host_wait_active (ConnEnd # evs) = (False, evs)"
| "host_wait_active (ConnBytes data # evs) = (if data = [] then (True, evs) else host_wait_active evs)"

definition host_data_msg :: "u32 \<Rightarrow> u32 \<Rightarrow> bytes \<Rightarrow> task_message" where
  "host_data_msg channel_id forward_id data = task_msg channel_id ForwardData (to_be 4 forward_id @ data)"

definition host_free_msg :: "u32 \<Rightarrow> u32 \<Rightarrow> task_message" where
  "host_free_msg channel_id forward_id = task_msg channel_id ForwardFreeContext (to_be 4 forward_id)"

text \<open>From the local socket to the daemon; how a message is sent is an argument.\<close>

function local_to_daemon :: "(bytes \<Rightarrow> (server, unit) io) \<Rightarrow> u32 \<Rightarrow> u32 \<Rightarrow> tcp_in \<Rightarrow> server \<Rightarrow> server" where
  "local_to_daemon send channel_id forward_id rd s =
    (case tcp_read 4096 rd of
       (Inl _, _) \<Rightarrow> s
     | (Inr buf, rd') \<Rightarrow>
         if buf = [] then s
         else (case send (concat_pack (host_data_msg channel_id forward_id buf)) s of
                 (Inl _, s') \<Rightarrow> s'
               | (Inr _, s') \<Rightarrow> local_to_daemon send channel_id forward_id rd' s'))"
  by pat_completeness auto

lemma local_read_shrinks:
  "tcp_read cap s = (Inr got, s') \<Longrightarrow> got \<noteq> [] \<Longrightarrow> length (in_contents s') < length (in_contents s)"
  by (auto simp: tcp_read_def in_contents_def split: list.splits tcp_end.splits if_splits)

termination local_to_daemon
  by (relation "measure (\<lambda>(_, _, _, rd, _). length (in_contents rd))") (auto intro: local_read_shrinks [OF sym])

declare local_to_daemon.simps [simp del]

text \<open>From the queue to the local socket; a forward skips further activations.\<close>

fun daemon_to_local :: "bool \<Rightarrow> conn_event list \<Rightarrow> tcp_out \<Rightarrow> tcp_out" where
  "daemon_to_local skip [] wr = wr"
| "daemon_to_local skip (ConnEnd # evs) wr = wr"
| "daemon_to_local skip (ConnElapsed # evs) wr = daemon_to_local skip evs wr"
| "daemon_to_local skip (ConnBytes data # evs) wr =
    (if skip \<and> data = [] then daemon_to_local skip evs wr
     else (case tcp_write_all data wr of (Inl _, wr') \<Rightarrow> wr' | (Inr _, wr') \<Rightarrow> daemon_to_local skip evs wr'))"

text \<open>
  A connection to a forwarded port. Its two directions use different parts of the state, so their
  order does not matter. The messages of this task go to USB sessions only.
\<close>

definition usb_only :: "u32 \<Rightarrow> bytes \<Rightarrow> (server, unit) io" where
  "usb_only session_id data = on_usb (usb_send_to_session session_id data)"

definition run_forward_bridge ::
  "u32 \<Rightarrow> u32 \<Rightarrow> string \<Rightarrow> u32 \<Rightarrow> conn_event list \<Rightarrow> tcp_in \<Rightarrow> tcp_out \<Rightarrow> forward_conns \<times> server \<Rightarrow> tcp_out \<times> forward_conns \<times> server" where
  "run_forward_bridge session_id channel_id remote_spec forward_id evs rd wr x =
    (let conns = (fst x)(forward_id \<mapsto> []);
         slave = task_msg channel_id ForwardActiveSlave (node_payload forward_id remote_spec)
     in case usb_only session_id (concat_pack slave) (snd x) of
          (Inl _, s1) \<Rightarrow> (wr, conns(forward_id := None), s1)
        | (Inr _, s1) \<Rightarrow>
            (case host_wait_active evs of
               (False, _) \<Rightarrow> (wr, conns(forward_id := None), s1)
             | (True, evs') \<Rightarrow>
                 let s2 = local_to_daemon (usb_only session_id) channel_id forward_id rd s1
                 in (daemon_to_local True evs' wr, conns(forward_id := None),
                     snd (usb_only session_id (concat_pack (host_free_msg channel_id forward_id)) s2))))"

section \<open>Forwarding a remote port\<close>

text \<open>The local end of a check or of a connection: the text after the twelfth byte.\<close>

definition local_node :: "bytes \<Rightarrow> string" where
  "local_node p = trim_end_matches (\<lambda>c. c = CHR 0x00) (from_utf8_lossy (drop 12 p))"

text \<open>The answer to a check; \<open>k\<close> is the number of the check.\<close>

definition local_reachable :: "forward_env \<Rightarrow> nat \<Rightarrow> string \<Rightarrow> bool" where
  "local_reachable env k spec =
    (case parse_forward_port spec of Inr port \<Rightarrow> fv_connect env k port = None | Inl _ \<Rightarrow> False)"

definition answer_check :: "forward_env \<Rightarrow> nat \<Rightarrow> u32 \<Rightarrow> u32 \<Rightarrow> bytes \<Rightarrow> server \<Rightarrow> server" where
  "answer_check env k session_id channel_id p s =
    (if 4 + 8 + 1 \<le> length p
     then snd (send_task session_id (check_result_msg channel_id (payload_id p) (local_reachable env k (local_node p))) s)
     else s)"

fun wait_rport_setup ::
  "forward_env \<Rightarrow> nat \<Rightarrow> u32 \<Rightarrow> u32 \<Rightarrow> rx_event list \<Rightarrow> server \<Rightarrow> unit io_result \<times> (rx_event list \<times> server)" where
  "wait_rport_setup env k sid ch [] s = (Inl (Error TimedOut ''Timeout waiting for ForwardSuccess''), ([], s))"
| "wait_rport_setup env k sid ch (Elapsed # evs) s = (Inl (Error TimedOut ''Timeout waiting for ForwardSuccess''), (evs, s))"
| "wait_rport_setup env k sid ch (QueueClosed # evs) s =
    (Inl (Error ConnectionAborted ''Response channel closed''), (evs, s))"
| "wait_rport_setup env k sid ch (Received task # evs) s =
    (if tm_command task = ForwardCheck
     then wait_rport_setup env (Suc k) sid ch evs (answer_check env k sid ch (tm_payload task) s)
     else if tm_command task = ForwardSuccess then (Inr (), (evs, s))
     else if tm_command task = KernelEcho \<or> tm_command task = KernelEchoRaw
     then wait_rport_setup env k sid ch evs (snd (answer ch (as_bytes (from_utf8_lossy (tm_payload task))) s))
     else if tm_command task = KernelChannelClose
     then (Inl (Error ConnectionAborted ''Channel closed by daemon''), (evs, s))
     else wait_rport_setup env k sid ch evs s)"

definition rport_setup :: "forward_env \<Rightarrow> u32 \<Rightarrow> u32 \<Rightarrow> string \<Rightarrow> string \<Rightarrow> (rx_event list \<times> server, unit) io" where
  "rport_setup env session_id channel_id remote_spec local_spec =
    io_bind (on_sv (send_task session_id (task_msg channel_id ForwardInit (as_bytes (remote_spec @ '' '' @ local_spec))))) (\<lambda>_.
    io_bind (\<lambda>(evs, s). wait_rport_setup env 0 session_id channel_id evs s) (\<lambda>_.
    io_bind (on_sv (answer_line channel_id ''Forwardport result:OK'')) (\<lambda>_.
    on_sv (maybe_end_channel channel_id))))"

definition handle_server_rport ::
  "forward_env \<Rightarrow> string \<Rightarrow> u32 \<Rightarrow> u32 \<Rightarrow> string list \<Rightarrow> (rx_event list \<times> server, unit) io" where
  "handle_server_rport env connect_key session_id channel_id params =
    (if length params < 3 then
       io_fail (Error InvalidInput ''Invalid rport parameters. Usage: rport tcp:remote tcp:local'')
     else
       let remote_spec = params ! 1; local_spec = params ! 2 in
       io_bind (io_lift (parse_forward_port local_spec)) (\<lambda>_.
       io_bind (on_sv (map_usb (usb_register_response_channel session_id channel_id
         \<lparr>mq_items = [], mq_open = True\<rparr>))) (\<lambda>_.
       io_match (rport_setup env session_id channel_id remote_spec local_spec)
         (\<lambda>e. io_bind (on_sv (map_usb (usb_unregister_response_channel session_id channel_id))) (\<lambda>_. io_fail e))
         (\<lambda>_. on_sv (put_forward \<lparr>fe_channel_id = channel_id, fe_session_id = session_id, fe_connect_key = connect_key,
             fe_direction = Reverse, fe_task_string = remote_spec @ '' '' @ local_spec, fe_abort_handle = None\<rparr>)))))"

text \<open>The dispatcher: the state has the started connections, with their numbers and local ends.\<close>

record rport_state =
  rp_conns :: forward_conns
  rp_started :: "(u32 \<times> string) list"
  rp_attempts :: nat

definition host_rport_dispatch :: "forward_env \<Rightarrow> u32 \<Rightarrow> u32 \<Rightarrow> task_message \<Rightarrow> rport_state \<times> server \<Rightarrow> rport_state \<times> server" where
  "host_rport_dispatch env session_id channel_id task x =
    (let p = tm_payload task; st = fst x; s = snd x in
     if tm_command task = ForwardCheck then
       (st\<lparr>rp_attempts := Suc (rp_attempts st)\<rparr>, answer_check env (rp_attempts st) session_id channel_id p s)
     else if tm_command task = ForwardActiveSlave then
       (if 4 + 8 + 1 \<le> length p then st\<lparr>rp_started := rp_started st @ [(payload_id p, local_node p)]\<rparr> else st, s)
     else if tm_command task = ForwardData \<and> 4 \<le> length p then
       (st\<lparr>rp_conns := conn_push (payload_id p) (drop 4 p) (rp_conns st)\<rparr>, s)
     else if tm_command task = ForwardFreeContext \<and> 4 \<le> length p then
       (st\<lparr>rp_conns := (rp_conns st)(payload_id p := None)\<rparr>, s)
     else x)"

definition run_rport_bridge ::
  "u32 \<Rightarrow> u32 \<Rightarrow> string \<Rightarrow> u32 \<Rightarrow> conn_event list \<Rightarrow> (tcp_in \<times> tcp_out) option \<Rightarrow> forward_conns \<times> server
    \<Rightarrow> tcp_out option \<times> forward_conns \<times> server" where
  "run_rport_bridge session_id channel_id local_spec forward_id evs stream x =
    (case parse_forward_port local_spec of
       Inl _ \<Rightarrow> (None, x)
     | Inr _ \<Rightarrow>
         (case stream of
            None \<Rightarrow> (None, fst x, snd (send_task session_id (host_free_msg channel_id forward_id) (snd x)))
          | Some (rd, wr) \<Rightarrow>
              let conns = (fst x)(forward_id \<mapsto> []);
                  master = task_msg channel_id ForwardActiveMaster (to_be 4 forward_id)
              in case send_task session_id master (snd x) of
                   (Inl _, s1) \<Rightarrow> (Some wr, conns(forward_id := None), s1)
                 | (Inr _, s1) \<Rightarrow>
                     let s2 = local_to_daemon (send_to_session session_id) channel_id forward_id rd s1
                     in (Some (daemon_to_local False evs wr), conns(forward_id := None),
                         snd (send_task session_id (host_free_msg channel_id forward_id) s2))))"

section \<open>All data of a connection is passed on\<close>

lemma send_to_session_up: "host_up sid s \<Longrightarrow> send_to_session sid (concat_pack m) s = (Inr (), host_sent sid [m] s)"
  using send_task_up [of sid s m] by (simp add: send_task_def)

lemma local_to_daemon_all:
  "host_up sid s \<Longrightarrow> in_ok rd \<Longrightarrow>
    \<exists>chunks. local_to_daemon (send_to_session sid) ch fid rd s = host_sent sid (map (host_data_msg ch fid) chunks) s
      \<and> concat chunks = in_contents rd \<and> (\<forall>c \<in> set chunks. c \<noteq> [] \<and> length c \<le> 4096)"
proof (induction "length (in_contents rd)" arbitrary: rd s rule: less_induct)
  case less
  show ?case
  proof (cases "in_contents rd = []")
    case True
    then have "in_segs rd = []" using less.prems(2) by (cases "in_segs rd") (auto simp: in_contents_def in_ok_def)
    then have "local_to_daemon (send_to_session sid) ch fid rd s = s"
      by (simp add: local_to_daemon.simps [of _ ch fid rd s] tcp_read_def split: tcp_end.splits)
    then show ?thesis using True less.prems(1) by (intro exI [of _ "[]"]) simp
  next
    case False
    then obtain got rd' where got: "tcp_read 4096 rd = (Inr got, rd')" "got \<noteq> []" "length got \<le> 4096"
      "in_contents rd = got @ in_contents rd'" "in_ok rd'"
      using tcp_read_some [OF less.prems(2), of 4096] by auto
    let ?s = "host_sent sid [host_data_msg ch fid got] s"
    have "length (in_contents rd') < length (in_contents rd)" using got(2,4) by simp
    moreover have "host_up sid ?s" using less.prems(1) by simp
    ultimately obtain chunks where rest:
      "local_to_daemon (send_to_session sid) ch fid rd' ?s = host_sent sid (map (host_data_msg ch fid) chunks) ?s"
      "concat chunks = in_contents rd'" "\<forall>c \<in> set chunks. c \<noteq> [] \<and> length c \<le> 4096"
      using less.hyps [of rd' ?s] got(5) by blast
    have "local_to_daemon (send_to_session sid) ch fid rd s = local_to_daemon (send_to_session sid) ch fid rd' ?s"
      using got(1,2) less.prems(1) by (simp add: local_to_daemon.simps [of _ ch fid rd s] send_to_session_up)
    then show ?thesis using rest got by (intro exI [of _ "got # chunks"]) simp
  qed
qed

lemma daemon_to_local_all:
  "out_faults wr = [] \<Longrightarrow>
    daemon_to_local skip (map ConnBytes ds @ ConnEnd # evs) wr = wr\<lparr>out_bytes := out_bytes wr @ concat ds\<rparr>"
proof (induction ds arbitrary: wr)
  case (Cons d ds)
  obtain b where "wr = \<lparr>out_bytes = b, out_faults = []\<rparr>"
    using Cons.prems by (metis tcp_out.surjective old.unit.exhaust)
  then show ?case using Cons.IH [of "\<lparr>out_bytes = b @ d, out_faults = []\<rparr>"] Cons.IH [of wr] by (cases skip) (simp_all add: tcp_write_all_def)
qed simp

lemma payload_id_front [simp]: "payload_id (to_be 4 (fid :: u32) @ xs) = fid"
  by (simp add: payload_id_def)

text \<open>The dispatcher puts the data of a connection into its queue, in order.\<close>

lemma forward_dispatch_data:
  "conns fid = Some q \<Longrightarrow>
    fold forward_dispatch (map (host_data_msg ch fid) ds) conns = conns(fid \<mapsto> q @ ds)"
proof (induction ds arbitrary: conns q)
  case Nil
  then show ?case by auto
next
  case (Cons d ds)
  have "forward_dispatch (host_data_msg ch fid d) conns = conns(fid \<mapsto> q @ [d])"
    using Cons.prems by (simp add: forward_dispatch_def host_data_msg_def task_msg_def conn_push_def)
  moreover have "fold forward_dispatch (map (host_data_msg ch fid) ds) (conns(fid \<mapsto> q @ [d]))
      = (conns(fid \<mapsto> q @ [d]))(fid \<mapsto> (q @ [d]) @ ds)"
    by (rule Cons.IH) simp
  ultimately show ?case by simp
qed

text \<open>A bridge always takes its queue away.\<close>

lemma bridge_removes:
  "run_forward_bridge sid ch spec fid evs rd wr x = (wr', conns', s') \<Longrightarrow> conns' = (fst x)(fid := None)"
  by (auto simp: run_forward_bridge_def Let_def split: prod.splits sum.splits bool.splits)

text \<open>Without a USB session a forwarded connection carries nothing.\<close>

lemma bridge_without_usb:
  "session_senders (sv_usb s) sid = None \<Longrightarrow>
    run_forward_bridge sid ch spec fid evs rd wr (conns, s) = (wr, conns(fid := None), s)"
  by (simp add: run_forward_bridge_def usb_only_def on_usb_def usb_send_to_session_def Let_def)

section \<open>The ports are checked\<close>

lemma parse_forward_port_tcp: "p \<le> 65535 \<Longrightarrow> parse_forward_port (''tcp:'' @ show_nat p) = Inr p"
  using split_once_first [of "CHR '':''" "''tcp''" "show_nat p"]
  by (simp add: parse_forward_port_def parse_uint_res_show_nat)

lemma parse_forward_port_bound: "parse_forward_port spec = Inr p \<Longrightarrow> p \<le> 65535"
  by (auto simp: parse_forward_port_def dest: parse_uint_le split: option.splits sum.splits if_splits)

text \<open>A reverse forward that fails leaves no queue behind.\<close>

lemma rport_failure_unregisters:
  assumes "handle_server_rport env key sid ch params (evs, s) = (Inl e, (evs', s'))"
    and "3 \<le> length params" "parse_forward_port (params ! 2) = Inr p"
  shows "map_of (response_channels (sv_usb s')) (sid, ch) = None"
proof -
  let ?s0 = "s\<lparr>sv_usb := usb_register_response_channel sid ch \<lparr>mq_items = [], mq_open = True\<rparr> (sv_usb s)\<rparr>"
  obtain r x where r: "rport_setup env sid ch (params ! 1) (params ! 2) (evs, ?s0) = (r, x)"
    by (cases "rport_setup env sid ch (params ! 1) (params ! 2) (evs, ?s0)")
  have "r = Inl e \<and> s' = (snd x)\<lparr>sv_usb := usb_unregister_response_channel sid ch (sv_usb (snd x))\<rparr>"
    using assms r
    by (cases r; cases x)
      (auto simp: handle_server_rport_def io_bind_def io_match_def on_sv_def put_forward_def Let_def)
  then show ?thesis by (simp add: usb_unregister_response_channel_def)
qed

end
