(* ===== verification/Server_App.thy ===== *)
theory Server_App
  imports Server_File "HOL-Library.List_Lexorder" "HOL-Library.Char_ord"
begin

text \<open>
  Installing applications from the host server (\<open>handle_server_app_install\<close> of
  \<open>hdc/src/server.rs\<close>): the arguments, unpacking an \<open>.app\<close> archive, and the transfer of one package.
  The archive package is a parameter: the entries it finds in the bytes of a file, each with a name,
  the data that can be read and the error that follows the data, if any.
\<close>

section \<open>Arguments\<close>

fun app_args :: "string list \<Rightarrow> string \<Rightarrow> string \<Rightarrow> string list \<Rightarrow> string \<times> string \<times> string list" where
  "app_args [] client_cwd options packages = (client_cwd, options, packages)"
| "app_args (arg # rest) client_cwd options packages =
    (if arg = ''-cwd'' \<and> rest \<noteq> [] then app_args (tl rest) (hd rest) options packages
     else if prefix ''-'' arg
     then app_args rest client_cwd (if options = [] then arg else options @ '' '' @ arg) packages
     else app_args rest client_cwd options (packages @ [arg]))"

section \<open>Archives\<close>

record zip_entry =
  ze_name :: string
  ze_data :: bytes
  ze_error :: "string option"

record app_env =
  ae_temp_dir :: string
  ae_random :: "nat \<Rightarrow> u32"
  ae_zip :: "bytes \<Rightarrow> string + (string + zip_entry) list"

text \<open>\<open>io::copy\<close> from an entry to a new file.\<close>

definition copy_entry :: "nat \<Rightarrow> zip_entry \<Rightarrow> (fs, unit) io" where
  "copy_entry out entry =
    io_match (io_bind (file_write_all out (ze_data entry)) (\<lambda>_.
        case ze_error entry of None \<Rightarrow> io_return () | Some m \<Rightarrow> io_fail (Error OtherKind m)))
      (\<lambda>e. io_fail (Error InvalidData (''Extract failed: '' @ err_message e))) io_return"

primrec extract_entries :: "string \<Rightarrow> (string + zip_entry) list \<Rightarrow> string list \<Rightarrow> (fs, string list) io" where
  "extract_entries out_dir [] haps = io_return haps"
| "extract_entries out_dir (e # es) haps =
    (case e of
       Inl m \<Rightarrow> io_fail (Error InvalidData (''Zip entry error: '' @ m))
     | Inr entry \<Rightarrow>
         if suffix ''.hap'' (to_ascii_lowercase (ze_name entry)) then
           (let file_name = (case path_file_name (ze_name entry) of Some n \<Rightarrow> n | None \<Rightarrow> ze_name entry);
                out_path = path_join out_dir file_name
            in io_bind (file_create out_path) (\<lambda>out.
               io_bind (copy_entry out entry) (\<lambda>_.
               extract_entries out_dir es (haps @ [out_path]))))
         else extract_entries out_dir es haps)"

definition extract_haps_from_app :: "app_env \<Rightarrow> string \<Rightarrow> string \<Rightarrow> (fs, string list) io" where
  "extract_haps_from_app env app_path out_dir =
    io_bind (file_open app_path) (\<lambda>_ f.
    case ae_zip env (contents f app_path) of
      Inl m \<Rightarrow> (Inl (Error InvalidData (''Failed to open .app as zip: '' @ m)), f)
    | Inr es \<Rightarrow> io_bind (extract_entries out_dir es []) (\<lambda>haps. io_return (sort haps)) f)"

section \<open>One package\<close>

fun wait_app_begin :: "rx_event list \<Rightarrow> unit io_result \<times> rx_event list" where
  "wait_app_begin [] = (Inl (Error TimedOut ''Timeout waiting for AppBegin''), [])"
| "wait_app_begin (Elapsed # evs) = (Inl (Error TimedOut ''Timeout waiting for AppBegin''), evs)"
| "wait_app_begin (QueueClosed # evs) = (Inl (Error ConnectionAborted ''Response channel closed''), evs)"
| "wait_app_begin (Received task # evs) =
    (if tm_command task = KernelWakeupSlavetask then wait_app_begin evs
     else if tm_command task = AppBegin then (Inr (), evs)
     else (Inl (Error InvalidData (''Expected AppBegin, got '' @ command_name (tm_command task))), evs))"

text \<open>The daemon's verdict: mode, success, text. \<open>None\<close> is the end of the waiting time.\<close>

fun wait_app_finish :: "u32 \<Rightarrow> rx_event list \<Rightarrow> server \<Rightarrow> (u8 \<times> bool \<times> string) option \<times> (rx_event list \<times> server)" where
  "wait_app_finish ch [] s = (None, ([], s))"
| "wait_app_finish ch (Elapsed # evs) s = (None, (evs, s))"
| "wait_app_finish ch (QueueClosed # evs) s = (Some (0, False, ''Response channel closed''), (evs, s))"
| "wait_app_finish ch (Received task # evs) s =
    (if tm_command task = AppFinish then
       (if 2 \<le> length (tm_payload task)
        then (Some (tm_payload task ! 0, tm_payload task ! 1 = 0, from_utf8_lossy (drop 2 (tm_payload task))), (evs, s))
        else (Some (0, False, ''Invalid AppFinish payload''), (evs, s)))
     else if tm_command task = KernelEcho \<or> tm_command task = KernelEchoRaw then
       wait_app_finish ch evs (snd (answer ch (as_bytes (from_utf8_lossy (tm_payload task))) s))
     else if tm_command task = KernelChannelClose then (Some (0, False, ''Channel closed''), (evs, s))
     else wait_app_finish ch evs s)"

definition mode_str :: "u8 \<Rightarrow> string" where
  "mode_str mode = (if mode = 1 then ''install'' else if mode = 2 then ''uninstall''
     else if mode = 3 then ''sideload'' else ''unknown'')"

definition report_app_finish :: "u32 \<Rightarrow> string \<Rightarrow> (u8 \<times> bool \<times> string) option \<Rightarrow> (server, unit) io" where
  "report_app_finish channel_id file_name outcome =
    (case outcome of
       Some (mode, ok, msg) \<Rightarrow>
         if ok then answer_line channel_id (''AppMod finish: '' @ file_name)
         else io_fail (Error OtherKind (''[Fail]App '' @ mode_str mode @ '' failed: '' @ msg))
     | None \<Rightarrow> io_fail (Error TimedOut ''Timeout waiting for app install result''))"

definition app_check_msg :: "u32 \<Rightarrow> nat \<Rightarrow> string \<Rightarrow> string \<Rightarrow> task_message" where
  "app_check_msg channel_id file_size file_name options =
    task_msg channel_id AppCheck (serialize_transfer_config
      (transfer_config_default\<lparr>tc_file_size := of_nat file_size, tc_options := options,
         tc_path := ''/data/local/tmp/'' @ file_name, tc_optional_name := file_name, tc_function_name := ''install''\<rparr>))"

definition install_single_hap :: "u32 \<Rightarrow> u32 \<Rightarrow> string \<Rightarrow> string \<Rightarrow> (rx_event list \<times> server, unit) io" where
  "install_single_hap session_id channel_id app_path options =
    (let file_name = (case path_file_name app_path of Some n \<Rightarrow> n | None \<Rightarrow> ''app.hap'') in
     io_match (on_sv (on_host_fs (file_len app_path)))
       (\<lambda>e. io_fail (Error NotFound (''App file not found: '' @ err_message e)))
       (\<lambda>file_size.
     io_bind (on_sv (send_task session_id (task_msg channel_id AppInit []))) (\<lambda>_.
     io_bind (on_sv (send_task session_id (app_check_msg channel_id file_size file_name options))) (\<lambda>_.
     io_bind (\<lambda>(evs, s). case wait_app_begin evs of (r, evs') \<Rightarrow> (r, (evs', s))) (\<lambda>_.
     io_bind (on_sv (on_host_fs (file_open app_path))) (\<lambda>file.
     io_bind (on_sv (stream_loop AppData session_id channel_id file 0)) (\<lambda>_.
     io_bind (\<lambda>(evs, s). case wait_app_finish channel_id evs s of (r, x) \<Rightarrow> (Inr r, x)) (\<lambda>outcome.
     on_sv (report_app_finish channel_id file_name outcome)))))))))"

section \<open>All packages\<close>

definition package_path :: "string \<Rightarrow> string \<Rightarrow> string" where
  "package_path client_cwd package =
    (if client_cwd \<noteq> [] \<and> \<not> prefix ''/'' package then client_cwd @ package else package)"

definition is_app_pack :: "string \<Rightarrow> bool" where
  "is_app_pack app_path =
    (case path_extension app_path of Some e \<Rightarrow> to_ascii_lowercase e = ''app'' | None \<Rightarrow> False)"

definition extract_dir :: "app_env \<Rightarrow> nat \<Rightarrow> string" where
  "extract_dir env i = path_join (ae_temp_dir env) (''hdc_app_extract_'' @ show_nat (unat (ae_random env i)))"

text \<open>The packages to install for one argument, with the directory to clean up.\<close>

definition hap_paths :: "app_env \<Rightarrow> nat \<Rightarrow> string \<Rightarrow> (server, string list \<times> string list) io" where
  "hap_paths env i app_path =
    (if is_app_pack app_path then
       io_bind (on_host_fs (create_dir_all (extract_dir env i))) (\<lambda>_.
       io_bind (on_host_fs (extract_haps_from_app env app_path (extract_dir env i))) (\<lambda>haps.
       if haps = [] then io_fail (Error InvalidData ''No .hap found in .app package'')
       else io_return (haps, [extract_dir env i])))
     else io_return ([app_path], []))"

primrec install_haps :: "u32 \<Rightarrow> u32 \<Rightarrow> string \<Rightarrow> string list \<Rightarrow> (rx_event list \<times> server, unit) io" where
  "install_haps session_id channel_id options [] = io_return ()"
| "install_haps session_id channel_id options (hap # haps) =
    io_bind (install_single_hap session_id channel_id hap options) (\<lambda>_. install_haps session_id channel_id options haps)"

text \<open>
  The loop over the packages: the result of the loop and, whatever the result, the directories to
  clean up.
\<close>

fun install_packages ::
  "app_env \<Rightarrow> u32 \<Rightarrow> u32 \<Rightarrow> string \<Rightarrow> string \<Rightarrow> nat \<Rightarrow> string list \<Rightarrow> string list \<Rightarrow> rx_event list \<times> server
    \<Rightarrow> (unit io_result \<times> string list) \<times> (rx_event list \<times> server)" where
  "install_packages env sid ch client_cwd options i [] dirs x = ((Inr (), dirs), x)"
| "install_packages env sid ch client_cwd options i (package # packages) dirs x =
    (case on_sv (hap_paths env i (package_path client_cwd package)) x of
       (Inl e, x1) \<Rightarrow> ((Inl e, dirs), x1)
     | (Inr (haps, dir), x1) \<Rightarrow>
         (case install_haps sid ch options haps x1 of
            (Inl e, x2) \<Rightarrow> ((Inl e, dirs @ dir), x2)
          | (Inr _, x2) \<Rightarrow> install_packages env sid ch client_cwd options (Suc i) packages (dirs @ dir) x2))"

primrec cleanup_dirs :: "string list \<Rightarrow> (server, unit) io" where
  "cleanup_dirs [] = io_return ()"
| "cleanup_dirs (dir # dirs) = io_bind (io_ignore (on_host_fs (remove_dir_all dir))) (\<lambda>_. cleanup_dirs dirs)"

definition handle_server_app_install :: "app_env \<Rightarrow> u32 \<Rightarrow> u32 \<Rightarrow> string list \<Rightarrow> (rx_event list \<times> server, unit) io" where
  "handle_server_app_install env session_id channel_id params =
    (case app_args (tl params) [] [] [] of (client_cwd, options, packages) \<Rightarrow>
     if packages = [] then io_fail (Error InvalidInput ''[E006001] Not any installation package was found'')
     else
       io_bind (with_responses session_id channel_id (\<lambda>x.
         case install_packages env session_id channel_id client_cwd options 0 packages [] x of
           ((Inl e, dirs), x') \<Rightarrow> (Inr (Inl e, dirs), x')
         | ((Inr _, dirs), x') \<Rightarrow>
             io_bind (on_sv (maybe_end_channel channel_id)) (\<lambda>_. io_return (Inr (), dirs)) x')) (\<lambda>(r, dirs).
       io_bind (on_sv (cleanup_dirs dirs)) (\<lambda>_. io_lift r)))"

section \<open>Extraction stays in its directory\<close>

text \<open>The last component of a name that ends in \<open>.hap\<close> is a file name.\<close>

lemma split_on_last: "c \<notin> set t \<Longrightarrow> \<exists>u. last (split_on c (s @ t)) = u @ t"
proof (induction s)
  case Nil
  then show ?case by (simp add: split_on_free)
next
  case (Cons x s)
  then obtain u where u: "last (split_on c (s @ t)) = u @ t" by blast
  obtain y ys where ys: "split_on c (s @ t) = y # ys" using split_on_not_Nil [of c "s @ t"] by (cases "split_on c (s @ t)") auto
  show ?case
    using u ys by (cases "ys = []") auto
qed

lemma map_append_conv: "map g n = a @ p \<Longrightarrow> (\<And>s t. n = s @ t \<Longrightarrow> map g t = p \<Longrightarrow> thesis) \<Longrightarrow> thesis"
  by (auto simp: map_eq_append_conv)

lemmas lowercase_conv = map_append_conv [where g = "\<lambda>c. let n = of_char c :: nat in if 65 \<le> n \<and> n \<le> 90 then char_of (n + 32) else c",
    folded to_ascii_lowercase_def]

lemma hap_suffix:
  assumes "suffix ''.hap'' (to_ascii_lowercase name)"
  obtains s t where "name = s @ t" "length t = 4" "CHR ''/'' \<notin> set t"
proof -
  obtain a where "to_ascii_lowercase name = a @ ''.hap''" using assms by (auto simp: suffix_def)
  then obtain s t where st: "name = s @ t" "to_ascii_lowercase t = ''.hap''" by (rule lowercase_conv)
  have "CHR ''/'' \<notin> set t"
  proof
    assume "CHR ''/'' \<in> set t"
    then obtain a b where "t = a @ [CHR ''/''] @ b" by (metis append_Cons append_Nil split_list)
    then have "to_ascii_lowercase t = to_ascii_lowercase a @ to_ascii_lowercase ''/'' @ to_ascii_lowercase b"
      by (simp only: to_ascii_lowercase_def map_append)
    moreover have "to_ascii_lowercase ''/'' = ''/''" by code_simp
    ultimately have "CHR ''/'' \<in> set ''.hap''" using st(2) by (metis Un_iff list.set_intros(1) set_append)
    then show False by simp
  qed
  moreover have "length t = 4" using arg_cong [OF st(2), of length] by (simp add: to_ascii_lowercase_def)
  ultimately show thesis using that st(1) by blast
qed

lemma hap_file_name:
  assumes "suffix ''.hap'' (to_ascii_lowercase name)"
  shows "\<exists>n. path_file_name name = Some n \<and> CHR ''/'' \<notin> set n \<and> n \<noteq> [] \<and> n \<noteq> ''.'' \<and> n \<noteq> ''..''"
proof -
  obtain s t where st: "name = s @ t" "length t = 4" "CHR ''/'' \<notin> set t" using hap_suffix [OF assms] .
  obtain u where u: "last (split_on CHR ''/'' name) = u @ t" using split_on_last [OF st(3)] st(1) by blast
  have long: "u @ t \<noteq> []" "u @ t \<noteq> ''.''" "u @ t \<noteq> ''..''"
    using st(2) by (auto dest: arg_cong [of _ _ length])
  obtain xs where xs: "split_on CHR ''/'' name = xs @ [u @ t]"
    using u append_butlast_last_id [OF split_on_not_Nil] by metis
  have "path_file_name name = Some (u @ t)"
    unfolding path_file_name_def xs using long by simp
  then show ?thesis using path_file_name_safe by blast
qed

definition directly_in :: "string \<Rightarrow> string \<Rightarrow> bool" where
  "directly_in dir p \<longleftrightarrow> (\<exists>n. p = path_join dir n \<and> CHR ''/'' \<notin> set n \<and> n \<noteq> [] \<and> n \<noteq> ''.'' \<and> n \<noteq> ''..'')"

text \<open>Every open handle that writes belongs to the directory.\<close>

lemma file_create_files:
  assumes "file_create p f = (r, f')" "q \<noteq> p"
  shows "fs_files f' q = fs_files f q"
  using assms by (auto simp: file_create_def split: option.splits)

lemma file_write_files:
  assumes "file_create p f = (Inr h, f1)" "file_write_all h data f1 = (r, f2)" "q \<noteq> p"
  shows "fs_files f2 q = fs_files f1 q"
  using assms
  by (auto simp: file_create_def file_write_all_def file_put_def split: option.splits list.splits if_splits)

lemma copy_entry_files:
  assumes "file_create p f = (Inr h, f1)" "copy_entry h e f1 = (r, f2)" "q \<noteq> p"
  shows "fs_files f2 q = fs_files f1 q"
proof -
  obtain r1 f3 where w: "file_write_all h (ze_data e) f1 = (r1, f3)" by (cases "file_write_all h (ze_data e) f1")
  then have "f2 = f3"
    using assms(2) by (auto simp: copy_entry_def io_match_def io_bind_def split: sum.splits option.splits)
  then show ?thesis using file_write_files [OF assms(1) w assms(3)] by simp
qed

lemma extract_entries_confined:
  "extract_entries dir es haps f = (r, f') \<Longrightarrow> (\<forall>h \<in> set haps. directly_in dir h) \<Longrightarrow>
    (\<forall>p. fs_files f' p \<noteq> fs_files f p \<longrightarrow> directly_in dir p) \<and> (\<forall>hs. r = Inr hs \<longrightarrow> (\<forall>h \<in> set hs. directly_in dir h))"
proof (induction es arbitrary: haps f)
  case Nil
  then show ?case by auto
next
  case (Cons e es)
  show ?case
  proof (cases e)
    case (Inl m)
    then show ?thesis using Cons.prems by auto
  next
    case (Inr entry)
    show ?thesis
    proof (cases "suffix ''.hap'' (to_ascii_lowercase (ze_name entry))")
      case False
      then have "extract_entries dir es haps f = (r, f')" using Cons.prems(1) Inr by simp
      from Cons.IH [OF this Cons.prems(2)] show ?thesis .
    next
      case True
      then obtain n where n: "path_file_name (ze_name entry) = Some n" "directly_in dir (path_join dir n)"
        using hap_file_name by (fastforce simp: directly_in_def)
      let ?p = "path_join dir n"
      obtain r1 f1 where f1: "file_create ?p f = (r1, f1)" by (cases "file_create ?p f")
      show ?thesis
      proof (cases r1)
        case (Inl x)
        then have "fs_files f' = fs_files f1" "r = Inl x" using Cons.prems(1) Inr True n(1) f1 by (simp_all add: io_bind_def Let_def)
        moreover have "directly_in dir q" if "fs_files f1 q \<noteq> fs_files f q" for q
          using that file_create_files [OF f1, of q] n(2) by (cases "q = ?p") auto
        ultimately show ?thesis by simp
      next
        case h: (Inr h)
        obtain r2 f2 where f2: "copy_entry h entry f1 = (r2, f2)" by (cases "copy_entry h entry f1")
        have other: "fs_files f2 q = fs_files f q" if "q \<noteq> ?p" for q
          using file_create_files [OF f1 that] copy_entry_files [OF f1 [unfolded h] f2 that] by simp
        have other': "directly_in dir q" if "fs_files f2 q \<noteq> fs_files f q" for q
          using that other [of q] n(2) by (cases "q = ?p") auto
        show ?thesis
        proof (cases r2)
          case (Inl x)
          then have "fs_files f' = fs_files f2" "r = Inl x" using Cons.prems(1) Inr True n(1) f1 h f2 by (simp_all add: io_bind_def Let_def)
          then show ?thesis using other' by simp
        next
          case ok: (Inr _)
          then have "extract_entries dir es (haps @ [?p]) f2 = (r, f')"
            using Cons.prems(1) Inr True n(1) f1 h f2 by (simp add: io_bind_def Let_def)
          from Cons.IH [OF this] have "(\<forall>p. fs_files f' p \<noteq> fs_files f2 p \<longrightarrow> directly_in dir p)
              \<and> (\<forall>hs. r = Inr hs \<longrightarrow> (\<forall>h \<in> set hs. directly_in dir h))"
            using Cons.prems(2) n(2) by auto
          then show ?thesis using other' by metis
        qed
      qed
    qed
  qed
qed

lemma extract_confined:
  assumes "extract_haps_from_app env app dir f = (r, f')"
  shows "fs_files f' p \<noteq> fs_files f p \<Longrightarrow> directly_in dir p"
    and "r = Inr hs \<Longrightarrow> h \<in> set hs \<Longrightarrow> directly_in dir h"
proof -
  obtain r1 f1 where o1: "file_open app f = (r1, f1)" by (cases "file_open app f")
  then have same: "fs_files f1 = fs_files f" by (auto simp: file_open_def split: option.splits)
  have "(fs_files f' p \<noteq> fs_files f p \<longrightarrow> directly_in dir p) \<and> (\<forall>hs. r = Inr hs \<longrightarrow> (\<forall>h \<in> set hs. directly_in dir h))"
  proof (cases "\<exists>h es. r1 = Inr h \<and> ae_zip env (contents f1 app) = Inr es")
    case True
    then obtain h es where es: "r1 = Inr h" "ae_zip env (contents f1 app) = Inr es" by blast
    obtain r2 f2 where f2: "extract_entries dir es [] f1 = (r2, f2)" by (cases "extract_entries dir es [] f1")
    have "extract_haps_from_app env app dir f = (case r2 of Inl e \<Rightarrow> Inl e | Inr hs \<Rightarrow> Inr (sort hs), f2)"
      unfolding extract_haps_from_app_def io_bind_def o1 es(1) using es(2) f2 by (cases r2) simp_all
    then have "f' = f2" "r = (case r2 of Inl e \<Rightarrow> Inl e | Inr hs \<Rightarrow> Inr (sort hs))" using assms by simp_all
    then show ?thesis using extract_entries_confined [OF f2] same by (cases r2) auto
  next
    case False
    then have "\<exists>e. extract_haps_from_app env app dir f = (Inl e, f1)"
      unfolding extract_haps_from_app_def io_bind_def o1
      by (cases r1; cases "ae_zip env (contents f1 app)") simp_all
    then show ?thesis using assms same by auto
  qed
  then show "fs_files f' p \<noteq> fs_files f p \<Longrightarrow> directly_in dir p"
    and "r = Inr hs \<Longrightarrow> h \<in> set hs \<Longrightarrow> directly_in dir h" by auto
qed

section \<open>A package is sent\<close>

definition install_msgs :: "u32 \<Rightarrow> nat \<Rightarrow> string \<Rightarrow> string \<Rightarrow> bytes list \<Rightarrow> task_message list" where
  "install_msgs ch n name options chunks =
    [task_msg ch AppInit [], app_check_msg ch n name options] @ data_msgs AppData ch 0 chunks"

lemma install_single_complete:
  assumes up: "host_up sid s" "channel_up ch s" and name: "path_file_name path = Some name"
    and local: "fs_deny (sv_fs s) path = None" "fs_files (sv_fs s) path = Some c"
      "\<forall>m. ReadError m \<notin> set (fs_reads (sv_fs s))"
    and opens: "tm_command begin = AppBegin"
    and fin: "tm_command fin = AppFinish" "tm_payload fin = mode # result # text"
  shows "\<exists>chunks f'. install_single_hap sid ch path options (Received begin # Received fin # evs, s) =
      (let s1 = (host_sent sid (install_msgs ch (length c) name options chunks) s)\<lparr>sv_fs := f'\<rparr> in
       if result = 0 then (Inr (), (evs, answered ch (as_bytes (''AppMod finish: '' @ name @ CRLF)) s1))
       else (Inl (Error OtherKind (''[Fail]App '' @ mode_str mode @ '' failed: '' @ from_utf8_lossy text)), (evs, s1)))
    \<and> concat chunks = c \<and> (\<forall>b \<in> set chunks. b \<noteq> [] \<and> length b \<le> CHUNK_SIZE) \<and> fs_files f' = fs_files (sv_fs s)"
proof -
  let ?open = "[task_msg ch AppInit [], app_check_msg ch (length c) name options]"
  let ?h = "length (fs_handles (sv_fs s))"
  let ?s1 = "(host_sent sid ?open s)\<lparr>sv_fs := (sv_fs s)\<lparr>fs_handles := fs_handles (sv_fs s) @ [(path, 0)]\<rparr>\<rparr>"
  have up1: "host_up sid ?s1" using up(1) by simp
  have rem: "remaining ?h (sv_fs ?s1) = c" using local(2) by (simp add: remaining_def contents_def nth_append)
  obtain chunks f' where loop: "stream_loop AppData sid ch ?h 0 ?s1
      = (Inr (), (host_sent sid (data_msgs AppData ch 0 chunks) ?s1)\<lparr>sv_fs := f'\<rparr>)"
    "concat chunks = c" "\<forall>b \<in> set chunks. b \<noteq> [] \<and> length b \<le> CHUNK_SIZE" "fs_files f' = fs_files (sv_fs s)"
    using stream_loop_complete [OF up1, of ?h AppData ch 0] local(3) rem by auto
  have "install_single_hap sid ch path options (Received begin # Received fin # evs, s) =
      (let s1 = (host_sent sid (install_msgs ch (length c) name options chunks) s)\<lparr>sv_fs := f'\<rparr> in
       if result = 0 then (Inr (), (evs, answered ch (as_bytes (''AppMod finish: '' @ name @ CRLF)) s1))
       else (Inl (Error OtherKind (''[Fail]App '' @ mode_str mode @ '' failed: '' @ from_utf8_lossy text)), (evs, s1)))"
    using up name local(1,2) opens fin loop(1)
    by (simp add: install_single_hap_def io_bind_def io_match_def on_sv_def on_host_fs_def file_len_def file_open_def
        send_task_up report_app_finish_def answer_line_def answer_up install_msgs_def Let_def)
  then show ?thesis using loop(2-4) by (intro exI [of _ chunks] exI [of _ f'] conjI) auto
qed

text \<open>The directories of a successful extraction are empty afterwards.\<close>

lemma cleanup_removes:
  "cleanup_dirs dirs s = (r, s') \<Longrightarrow> \<forall>d. fs_deny (sv_fs s) d = None \<Longrightarrow>
    fs_files (sv_fs s') p = (if \<exists>d \<in> set dirs. prefix (d @ ''/'') p then None else fs_files (sv_fs s) p)"
proof (induction dirs arbitrary: s)
  case (Cons d dirs)
  then obtain s1 where s1: "cleanup_dirs dirs s1 = (r, s')" "\<forall>d. fs_deny (sv_fs s1) d = None"
    "fs_files (sv_fs s1) = (\<lambda>p. if prefix (d @ ''/'') p then None else fs_files (sv_fs s) p)"
    by (simp add: io_bind_def on_host_fs_def remove_dir_all_def)
  then show ?case using Cons.IH [OF s1(1,2)] by auto
qed simp

end
