(* ===== verification/Rust_Float.thy ===== *)
theory Rust_Float
  imports Complex_Main
begin

text \<open>
  The arithmetic of \<open>f64\<close> that the progress display uses, on numbers that are not negative: the
  exact result is rounded to 53 significant bits, to the even neighbour when it is half-way. Numbers
  too small or too large for the exponent do not arise from quotients of two \<open>u64\<close>.
\<close>

section \<open>Rounding\<close>

fun bits :: "nat \<Rightarrow> nat" where
  "bits n = (if n = 0 then 0 else Suc (bits (n div 2)))"

declare bits.simps [simp del]

definition pow2 :: "int \<Rightarrow> rat" where
  "pow2 e = (if 0 \<le> e then 2 ^ nat e else 1 / 2 ^ nat (- e))"

text \<open>The exponent of the last of the 53 bits.\<close>

definition f64_exp :: "rat \<Rightarrow> int" where
  "f64_exp x =
    (case quotient_of x of (n, d) \<Rightarrow>
       let e = int (bits (nat n)) - int (bits (nat d)) - 53
       in if 2 ^ 53 * pow2 e \<le> x then e + 1 else e)"

definition round_even :: "rat \<Rightarrow> int" where
  "round_even y =
    (let f = floor y; r = y - of_int f in if r < 1 / 2 \<or> r = 1 / 2 \<and> even f then f else f + 1)"

definition f64_round :: "rat \<Rightarrow> rat" where
  "f64_round x = (if x \<le> 0 then 0 else of_int (round_even (x / pow2 (f64_exp x))) * pow2 (f64_exp x))"

definition f64_of_nat :: "nat \<Rightarrow> rat" where "f64_of_nat n = f64_round (of_nat n)"

definition f64_div :: "rat \<Rightarrow> rat \<Rightarrow> rat" where "f64_div a b = f64_round (a / b)"

definition f64_mul :: "rat \<Rightarrow> rat \<Rightarrow> rat" where "f64_mul a b = f64_round (a * b)"

text \<open>\<open>as u8\<close>: towards zero, at most 255.\<close>

definition f64_as_u8 :: "rat \<Rightarrow> nat" where "f64_as_u8 x = min 255 (nat (floor x))"

section \<open>Laws\<close>

lemma bits_bounds: "0 < n \<Longrightarrow> 2 ^ (bits n - 1) \<le> n \<and> n < 2 ^ bits n"
proof (induction n rule: bits.induct)
  case (1 n)
  show ?case
  proof (cases "n div 2 = 0")
    case True
    then have "n = 1" using 1(2) by simp
    then show ?thesis by (simp add: bits.simps)
  next
    case False
    then have h: "2 ^ (bits (n div 2) - 1) \<le> n div 2" "n div 2 < 2 ^ bits (n div 2)" using 1 by simp_all
    have b: "bits n = Suc (bits (n div 2))" using 1(2) by (simp add: bits.simps [of n])
    moreover have "bits (n div 2) \<noteq> 0" using False by (simp add: bits.simps [of "n div 2"])
    ultimately have "2 ^ (bits n - 1) = (2 :: nat) * 2 ^ (bits (n div 2) - 1)" "2 ^ bits n = (2 :: nat) * 2 ^ bits (n div 2)"
      by (auto simp: power_eq_if)
    then show ?thesis using h by linarith
  qed
qed

lemma bits_pos: "0 < n \<Longrightarrow> 0 < bits n"
  by (simp add: bits.simps)

lemma pow2_pos: "0 < pow2 e"
  by (simp add: pow2_def)

lemma pow2_neg: "e \<le> 0 \<Longrightarrow> pow2 e = 1 / 2 ^ nat (- e)"
  by (auto simp: pow2_def)

lemma round_even_int: "round_even (of_int k) = k"
  by (simp add: round_even_def)

lemma round_even_le: "y \<le> of_int m \<Longrightarrow> round_even y \<le> m"
proof -
  assume y: "y \<le> of_int m"
  have "floor y < m" if "y \<noteq> of_int (floor y)"
    using that y by (metis floor_less_iff le_less_trans less_le of_int_floor_le not_le)
  then show ?thesis
    using y by (cases "y = of_int (floor y)") (auto simp: round_even_def Let_def le_floor_iff floor_le_iff)
qed

text \<open>Rounding does not go beyond a whole number, and keeps numbers below \<open>2\<^sup>5\<^sup>3\<close>.\<close>

lemma f64_round_le:
  assumes "x \<le> of_nat c" "f64_exp x \<le> 0"
  shows "f64_round x \<le> of_nat c"
proof (cases "x \<le> 0")
  case False
  let ?k = "nat (- f64_exp x)"
  have p: "pow2 (f64_exp x) = 1 / 2 ^ ?k" using pow2_neg assms(2) by blast
  have "x / pow2 (f64_exp x) \<le> of_int (int c * 2 ^ ?k)" using assms(1) by (simp add: p)
  then have "round_even (x / pow2 (f64_exp x)) \<le> int c * 2 ^ ?k" by (rule round_even_le)
  then have "of_int (round_even (x / pow2 (f64_exp x))) \<le> (of_int (int c * 2 ^ ?k) :: rat)" by (simp only: of_int_le_iff)
  then show ?thesis using False by (simp add: f64_round_def p divide_le_eq)
qed (simp add: f64_round_def)

lemma f64_exp_nat:
  assumes "0 < n"
  shows "f64_exp (of_nat n) = int (bits n) - 53"
proof -
  have q: "quotient_of (of_nat n) = (int n, 1)" using quotient_of_int [of "int n"] by (simp add: of_int_def)
  have b: "bits (nat 1) = 1" by (simp add: bits.simps)
  let ?e = "int (bits n) - 1 - 53"
  have ge: "2 ^ 53 * pow2 ?e \<le> of_nat n"
  proof (cases "0 \<le> ?e")
    case True
    then have "2 ^ 53 * pow2 ?e = (2 :: rat) ^ (53 + nat ?e)" by (simp add: pow2_def power_add)
    also have "53 + nat ?e = bits n - 1" using True by linarith
    finally show ?thesis using bits_bounds [OF assms] by (metis of_nat_le_iff of_nat_numeral of_nat_power)
  next
    case False
    have bits: "bits n - 1 + nat (- ?e) = 53" using False bits_pos [OF assms] by linarith
    have "(2 :: rat) ^ 53 = 2 ^ (bits n - 1) * 2 ^ nat (- ?e)" by (simp only: bits [symmetric] power_add)
    also have "\<dots> \<le> of_nat n * 2 ^ nat (- ?e)"
      using bits_bounds [OF assms] by (intro mult_right_mono) (metis of_nat_le_iff of_nat_numeral of_nat_power, simp)
    finally show ?thesis using False by (simp add: pow2_def divide_le_eq)
  qed
  then show ?thesis using q b by (simp add: f64_exp_def Let_def)
qed

lemma f64_of_nat_exact: "n < 2 ^ 53 \<Longrightarrow> f64_of_nat n = of_nat n"
proof (cases "n = 0")
  case False
  assume n: "n < 2 ^ 53"
  have "2 ^ (bits n - 1) < (2 :: nat) ^ 53" using bits_bounds [of n] n False by linarith
  then have e: "int (bits n) - 53 \<le> 0" using power_less_imp_less_exp [of "2 :: nat" "bits n - 1" 53] by linarith
  let ?k = "nat (- (int (bits n) - 53))"
  have p: "pow2 (f64_exp (of_nat n)) = 1 / 2 ^ ?k" using f64_exp_nat False pow2_neg [OF e] by simp
  have "of_nat n / pow2 (f64_exp (of_nat n)) = of_int (int n * 2 ^ ?k)" by (simp add: p)
  then have "round_even (of_nat n / pow2 (f64_exp (of_nat n))) = int n * 2 ^ ?k" by (simp only: round_even_int)
  then show ?thesis using False by (simp only: f64_of_nat_def f64_round_def p) simp
qed (simp add: f64_of_nat_def f64_round_def)

lemma f64_exp_small:
  assumes "0 < x" "x \<le> 100"
  shows "f64_exp x \<le> 0"
proof -
  obtain n d where nd: "quotient_of x = (n, d)" by (cases "quotient_of x")
  have d: "0 < d" using quotient_of_denom_pos [OF nd] .
  have x: "x = of_int n / of_int d" using quotient_of_div [OF nd] .
  then have n: "0 < n" using assms(1) d by (simp add: zero_less_divide_iff)
  have "of_int n \<le> (100 * of_int d :: rat)" using assms(2) x d by (simp add: divide_le_eq)
  then have le: "n \<le> 100 * d" by (metis of_int_le_iff of_int_mult of_int_numeral)
  have "2 ^ (bits (nat n) - 1) \<le> nat n" using bits_bounds [of "nat n"] n by simp
  also have "\<dots> \<le> 100 * nat d" using le by linarith
  also have "\<dots> < 100 * 2 ^ bits (nat d)" using bits_bounds [of "nat d"] d by simp
  also have "\<dots> \<le> 2 ^ (7 + bits (nat d))" by (simp add: power_add)
  finally have "bits (nat n) - 1 < 7 + bits (nat d)" by (rule power_less_imp_less_exp [rotated]) simp
  then have "int (bits (nat n)) - int (bits (nat d)) \<le> 52" by linarith
  then show ?thesis by (simp add: f64_exp_def nd Let_def)
qed

lemma f64_round_le_100: "x \<le> 100 \<Longrightarrow> c \<le> 100 \<Longrightarrow> x \<le> of_nat c \<Longrightarrow> f64_round x \<le> of_nat c"
  by (cases "0 < x") (auto simp: f64_round_le f64_exp_small, simp add: f64_round_def)

end
