(* ===== verification/Server_Flashd.thy ===== *)
theory Server_Flashd
  imports Server_File Rust_Float
begin

text \<open>
  Flashing an image (\<open>handle_server_flashd\<close> of \<open>hdc/src/server.rs\<close>): the arguments, the check of the
  file name, the blocks of the image with the progress display, and the wait for the daemon's verdict.
\<close>

section \<open>Arguments\<close>

definition parse_flashd_file_args :: "string list \<Rightarrow> bool \<Rightarrow> (string \<times> bool) io_result" where
  "parse_flashd_file_args params is_update =
    (if params = [] then Inl (Error InvalidInput ''Missing flashd command'')
     else
       let args = tl params;
           min_count = (if is_update then 1 else 2);
           file_index = (if is_update then 0 else 1);
           has_force = list_ex (\<lambda>p. p = ''-f'') args;
           count = (if has_force then min_count + 1 else min_count)
       in if length args \<noteq> count \<or> length args \<le> file_index
          then Inl (Error InvalidInput (''Invalid flashd '' @ (if is_update then ''update'' else ''flash'') @ '' arguments''))
          else Inr (args ! (if has_force then file_index + 1 else file_index), has_force))"

definition flashd_extensions :: "string list" where
  "flashd_extensions = [''img'', ''bin'', ''fd'', ''cpio'', ''zip'']"

definition validate_flashd_file :: "string \<Rightarrow> unit io_result" where
  "validate_flashd_file path =
    (let ext = to_ascii_lowercase (case path_extension path of Some e \<Rightarrow> e | None \<Rightarrow> []) in
     if ext \<in> set flashd_extensions then Inr ()
     else Inl (Error InvalidInput (''Invalid flashd file type: '' @ ext @ '' (expected .img/.bin/.fd/.cpio/.zip)'')))"

section \<open>Waiting for the daemon\<close>

fun wait_flashd_response :: "hdc_command \<Rightarrow> u32 \<Rightarrow> rx_event list \<Rightarrow> task_message io_result \<times> rx_event list" where
  "wait_flashd_response expected ch [] = (Inl (Error TimedOut (''Timeout waiting for '' @ command_name expected)), [])"
| "wait_flashd_response expected ch (Elapsed # evs) =
    (Inl (Error TimedOut (''Timeout waiting for '' @ command_name expected)), evs)"
| "wait_flashd_response expected ch (QueueClosed # evs) =
    (Inl (Error ConnectionAborted ''Response channel closed''), evs)"
| "wait_flashd_response expected ch (Received task # evs) =
    (if tm_channel_id task \<noteq> ch then wait_flashd_response expected ch evs
     else if tm_command task = KernelWakeupSlavetask then wait_flashd_response expected ch evs
     else if tm_command task = expected then (Inr task, evs)
     else (Inl (Error InvalidData (''Expected '' @ command_name expected @ '', got '' @ command_name (tm_command task))), evs))"

definition progress_text :: "nat \<Rightarrow> string" where
  "progress_text pct = CHR 0x0D # ''Processing: '' @ show_nat pct @ ''%''"

definition flash_result_text :: "string \<Rightarrow> string" where
  "flash_result_text info = (if info = [] then CRLF else CRLF @ info @ CRLF)"

fun wait_flashd_finish :: "u32 \<Rightarrow> rx_event list \<Rightarrow> server \<Rightarrow> unit io_result \<times> (rx_event list \<times> server)" where
  "wait_flashd_finish ch [] s = (Inl (Error TimedOut ''Timeout waiting for FlashdFinish''), ([], s))"
| "wait_flashd_finish ch (Elapsed # evs) s = (Inl (Error TimedOut ''Timeout waiting for FlashdFinish''), (evs, s))"
| "wait_flashd_finish ch (QueueClosed # evs) s = (Inl (Error ConnectionAborted ''Response channel closed''), (evs, s))"
| "wait_flashd_finish ch (Received task # evs) s =
    (if tm_channel_id task \<noteq> ch then wait_flashd_finish ch evs s
     else if tm_command task = FlashdFinish then
       (if 2 \<le> length (tm_payload task) then
          (let info = from_utf8_lossy (drop 2 (tm_payload task)) in
           if tm_payload task ! 1 = level_u8 LevelOk
           then (Inr (), (evs, snd (answer ch (as_bytes (flash_result_text info)) s)))
           else (Inl (Error OtherKind (''[Fail]Flashd failed: '' @ info)), (evs, s)))
        else (Inl (Error InvalidData ''Invalid FlashdFinish payload''), (evs, s)))
     else if tm_command task = FlashdProgress then
       wait_flashd_finish ch evs
         (if tm_payload task \<noteq> [] then snd (answer ch (as_bytes (progress_text (unat (hd (tm_payload task))))) s) else s)
     else if tm_command task = KernelEcho \<or> tm_command task = KernelEchoRaw then
       wait_flashd_finish ch evs (snd (answer ch (as_bytes (from_utf8_lossy (tm_payload task))) s))
     else if tm_command task = KernelChannelClose then (Inl (Error ConnectionAborted ''Channel closed''), (evs, s))
     else wait_flashd_finish ch evs s)"

section \<open>The image\<close>

definition flash_percent :: "nat \<Rightarrow> u64 \<Rightarrow> nat" where
  "flash_percent file_size offset =
    (if 0 < file_size
     then f64_as_u8 (f64_mul (f64_div (f64_of_nat (unat offset)) (f64_of_nat file_size)) 100)
     else 100)"

definition show_percent :: "u32 \<Rightarrow> nat \<Rightarrow> nat \<Rightarrow> server \<Rightarrow> server" where
  "show_percent ch last_percent percent s =
    (if percent \<noteq> last_percent then snd (answer ch (as_bytes (progress_text percent)) s) else s)"

function flash_loop :: "nat \<Rightarrow> u32 \<Rightarrow> u32 \<Rightarrow> nat \<Rightarrow> u64 \<Rightarrow> nat \<Rightarrow> (server, unit) io" where
  "flash_loop file_size session_id channel_id file offset last_percent s =
    (case on_host_fs (file_read file CHUNK_SIZE) s of
       (Inl e, s1) \<Rightarrow> (Inl e, s1)
     | (Inr buf, s1) \<Rightarrow>
         if buf = [] then (Inr (), s1)
         else (case send_task session_id (task_msg channel_id FlashdData (chunk_payload offset buf)) s1 of
                 (Inl e, s2) \<Rightarrow> (Inl e, s2)
               | (Inr _, s2) \<Rightarrow>
                   let offset' = offset + of_nat (length buf); percent = flash_percent file_size offset'
                   in flash_loop file_size session_id channel_id file offset' percent
                        (show_percent channel_id last_percent percent s2)))"
  by pat_completeness auto

lemma show_percent_fs [simp]: "sv_fs (show_percent ch l p s) = sv_fs s"
  by (simp add: show_percent_def answer_def on_tcp_def split: prod.splits)

termination flash_loop
  by (relation "measure (\<lambda>(_, _, _, h, _, _, s). length (remaining h (sv_fs s)))")
    (auto intro: stream_round [OF sym _ _ sym] simp: CHUNK_SIZE_def MAX_SIZE_IOBUF_def)

declare flash_loop.simps [simp del]

section \<open>The task\<close>

definition flash_check_msg :: "u32 \<Rightarrow> nat \<Rightarrow> string list \<Rightarrow> string \<Rightarrow> bool \<Rightarrow> task_message" where
  "flash_check_msg channel_id file_size params local_path is_update =
    task_msg channel_id FlashdCheck (replicate 8 0 @ serialize_transfer_config
      (transfer_config_default\<lparr>tc_file_size := of_nat file_size, tc_options := join '' '' params, tc_path := local_path,
         tc_optional_name := (case path_file_name local_path of Some n \<Rightarrow> n | None \<Rightarrow> []),
         tc_function_name := (if is_update then ''flashd_update'' else ''flashd_flash'')\<rparr>))"

definition flash_image :: "u32 \<Rightarrow> u32 \<Rightarrow> string list \<Rightarrow> bool \<Rightarrow> (rx_event list \<times> server, unit) io" where
  "flash_image session_id channel_id params is_update =
    io_bind (io_lift (parse_flashd_file_args params is_update)) (\<lambda>(local_path, _).
    io_bind (io_lift (validate_flashd_file local_path)) (\<lambda>_.
    io_match (on_sv (on_host_fs (file_len local_path)))
      (\<lambda>e. io_fail (Error NotFound (''Flashd file not found: '' @ err_message e)))
      (\<lambda>file_size.
    io_bind (on_sv (send_task session_id (flash_check_msg channel_id file_size params local_path is_update))) (\<lambda>_.
    io_bind (\<lambda>(evs, s). case wait_flashd_response FlashdBegin channel_id evs of (r, evs') \<Rightarrow> (r, (evs', s))) (\<lambda>_.
    io_bind (on_sv (io_ignore (answer channel_id (as_bytes (progress_text 0))))) (\<lambda>_.
    io_bind (on_sv (on_host_fs (file_open local_path))) (\<lambda>file.
    io_bind (on_sv (flash_loop file_size session_id channel_id file 0 0)) (\<lambda>_.
    io_bind (on_sv (send_task session_id (task_msg channel_id FlashdFinish [1]))) (\<lambda>_.
    \<lambda>(evs, s). wait_flashd_finish channel_id evs s)))))))))"

definition flashd_task :: "u32 \<Rightarrow> u32 \<Rightarrow> hdc_command \<Rightarrow> string list \<Rightarrow> (rx_event list \<times> server, unit) io" where
  "flashd_task session_id channel_id cmd params =
    (if cmd = FlashdUpdateInit \<or> cmd = FlashdFlashInit
     then flash_image session_id channel_id params (cmd = FlashdUpdateInit)
     else if cmd = FlashdErase \<or> cmd = FlashdFormat then
       io_bind (on_sv (send_task session_id (task_msg channel_id cmd (as_bytes (join '' '' params))))) (\<lambda>_.
       \<lambda>(evs, s). wait_flashd_finish channel_id evs s)
     else io_return ())"

definition handle_server_flashd :: "u32 \<Rightarrow> u32 \<Rightarrow> hdc_command \<Rightarrow> string list \<Rightarrow> (rx_event list \<times> server, unit) io" where
  "handle_server_flashd session_id channel_id cmd params =
    with_responses session_id channel_id
      (io_bind (flashd_task session_id channel_id cmd params) (\<lambda>_. on_sv (maybe_end_channel channel_id)))"

section \<open>The progress display\<close>

lemma flash_percent_bound:
  assumes "unat offset \<le> file_size" "file_size < 2 ^ 53"
  shows "flash_percent file_size offset \<le> 100"
proof (cases "file_size = 0")
  case False
  obtain n where n: "unat offset = n" by blast
  let ?q = "f64_div (f64_of_nat n) (f64_of_nat file_size)"
  have ex: "f64_of_nat n = of_nat n" "f64_of_nat file_size = of_nat file_size"
    using assms n by (simp_all add: f64_of_nat_exact)
  have "of_nat n / (of_nat file_size :: rat) \<le> of_nat 1"
    using False assms(1) n by (simp add: divide_le_eq)
  then have "?q \<le> of_nat 1" unfolding f64_div_def ex by (intro f64_round_le_100) auto
  then have "f64_mul ?q 100 \<le> of_nat 100" unfolding f64_mul_def by (intro f64_round_le_100) auto
  then have "nat (floor (f64_mul ?q 100)) \<le> 100" by linarith
  then have "f64_as_u8 (f64_mul ?q 100) \<le> 100" unfolding f64_as_u8_def by (rule min.coboundedI2)
  then show ?thesis by (simp add: flash_percent_def n)
qed (simp add: flash_percent_def)

lemma flash_percent_end:
  assumes "file_size < 2 ^ 53"
  shows "flash_percent file_size (of_nat file_size) = 100"
proof (cases "file_size = 0")
  case False
  have "unat (of_nat file_size :: u64) = file_size" using assms by (simp add: unat_of_nat take_bit_nat_eq_self)
  moreover have "f64_of_nat 1 = 1" "f64_of_nat 100 = 100" by (simp_all add: f64_of_nat_exact)
  then have "f64_round 1 = 1" "f64_round 100 = 100" by (simp_all add: f64_of_nat_def)
  ultimately show ?thesis
    using assms False by (simp add: flash_percent_def f64_of_nat_exact f64_div_def f64_mul_def f64_as_u8_def)
qed (simp add: flash_percent_def)

section \<open>An image is sent\<close>

primrec shown_percents :: "nat \<Rightarrow> nat \<Rightarrow> u64 \<Rightarrow> bytes list \<Rightarrow> nat list" where
  "shown_percents n l off [] = []"
| "shown_percents n l off (c # cs) =
    (let off' = off + of_nat (length c); p = flash_percent n off' in
     (if p \<noteq> l then [p] else []) @ shown_percents n p off' cs)"

definition answered_all :: "u32 \<Rightarrow> string list \<Rightarrow> server \<Rightarrow> server" where
  "answered_all ch ts s = fold (\<lambda>t. answered ch (as_bytes t)) ts s"

lemma answered_host_sent [simp]: "host_sent sid ms (answered ch b s) = answered ch b (host_sent sid ms s)"
  by (simp add: host_sent_def sent_def answered_def)

lemma answered_updates [simp]:
  "answered ch b (s\<lparr>sv_fs := f\<rparr>) = (answered ch b s)\<lparr>sv_fs := f\<rparr>"
  "answered ch b (s\<lparr>sv_usb := u\<rparr>) = (answered ch b s)\<lparr>sv_usb := u\<rparr>"
  by (simp_all add: answered_def)

lemma host_up_answered [simp]: "host_up sid (answered ch b s) = host_up sid s"
  by (simp add: host_up_def session_up_def)

lemma answered_all_simps [simp]:
  "answered_all ch [] s = s" "answered_all ch (t # ts) s = answered_all ch ts (answered ch (as_bytes t) s)"
  by (simp_all add: answered_all_def)

lemma answered_all_fields [simp]:
  "sv_fs (answered_all ch ts s) = sv_fs s" "sv_usb (answered_all ch ts s) = sv_usb s"
  "channel_up ch (answered_all ch ts s) = channel_up ch s" "host_up sid (answered_all ch ts s) = host_up sid s"
  "session_out sid (answered_all ch ts s) = session_out sid s"
  "host_sent sid ms (answered_all ch ts s) = answered_all ch ts (host_sent sid ms s)"
  "answered_all ch ts (s\<lparr>sv_fs := f\<rparr>) = (answered_all ch ts s)\<lparr>sv_fs := f\<rparr>"
  "answered_all ch us (answered_all ch ts s) = answered_all ch (ts @ us) s"
  by (induction ts arbitrary: s) simp_all

lemma answered_all_snoc: "answered_all ch (ts @ [t]) s = answered ch (as_bytes t) (answered_all ch ts s)"
  by (simp add: answered_all_def)

lemma channel_sent_all:
  "channel_up ch s \<Longrightarrow> channel_sent ch (answered_all ch ts s) = channel_sent ch s @ concat (map (\<lambda>t. channel_frame (as_bytes t)) ts)"
  by (induction ts arbitrary: s) simp_all

lemma show_percent_up:
  "channel_up ch s \<Longrightarrow> show_percent ch l p s = answered_all ch (map progress_text (if p \<noteq> l then [p] else [])) s"
  by (simp add: show_percent_def answer_up)

lemma flash_loop_complete:
  "host_up sid s \<Longrightarrow> channel_up ch s \<Longrightarrow> h < length (fs_handles (sv_fs s)) \<Longrightarrow> \<forall>m. ReadError m \<notin> set (fs_reads (sv_fs s)) \<Longrightarrow>
    \<exists>chunks f'. flash_loop n sid ch h off l s =
      (Inr (), (answered_all ch (map progress_text (shown_percents n l off chunks))
        (host_sent sid (data_msgs FlashdData ch off chunks) s))\<lparr>sv_fs := f'\<rparr>)
      \<and> concat chunks = remaining h (sv_fs s)
      \<and> (\<forall>c \<in> set chunks. c \<noteq> [] \<and> length c \<le> CHUNK_SIZE) \<and> fs_files f' = fs_files (sv_fs s)"
proof (induction "length (remaining h (sv_fs s))" arbitrary: s off l rule: less_induct)
  case less
  obtain got f1 where read: "file_read h CHUNK_SIZE (sv_fs s) = (Inr got, f1)" "\<forall>m. ReadError m \<notin> set (fs_reads f1)"
    using file_read_no_error [OF less.prems(3,4)] by blast
  have pos: "0 < CHUNK_SIZE" by (simp add: CHUNK_SIZE_def MAX_SIZE_IOBUF_def)
  note ok = file_read_ok [OF read(1) pos]
  show ?case
  proof (cases "got = []")
    case True
    then have "flash_loop n sid ch h off l s = (Inr (), s\<lparr>sv_fs := f1\<rparr>)"
      using read by (simp add: flash_loop.simps [of n sid ch h off l s] on_host_fs_def)
    moreover have "remaining h (sv_fs s) = []" "fs_files f1 = fs_files (sv_fs s)" using ok True by blast+
    ultimately show ?thesis using less.prems(1) by (intro exI [of _ "[]"] exI [of _ f1] conjI) simp_all
  next
    case False
    let ?m = "task_msg ch FlashdData (chunk_payload off got)" and ?off = "off + of_nat (length got)"
    let ?p = "flash_percent n ?off"
    let ?ts = "map progress_text (if ?p \<noteq> l then [?p] else [])"
    let ?s = "answered_all ch ?ts (host_sent sid [?m] (s\<lparr>sv_fs := f1\<rparr>))"
    have "length (remaining h (sv_fs ?s)) < length (remaining h (sv_fs s))" using ok False by simp
    moreover have "host_up sid ?s" "channel_up ch ?s" "h < length (fs_handles (sv_fs ?s))"
      "\<forall>m. ReadError m \<notin> set (fs_reads (sv_fs ?s))"
      using less.prems ok read by auto
    ultimately obtain chunks f' where rest: "flash_loop n sid ch h ?off ?p ?s =
        (Inr (), (answered_all ch (map progress_text (shown_percents n ?p ?off chunks))
          (host_sent sid (data_msgs FlashdData ch ?off chunks) ?s))\<lparr>sv_fs := f'\<rparr>)"
      "concat chunks = remaining h f1" "\<forall>c \<in> set chunks. c \<noteq> [] \<and> length c \<le> CHUNK_SIZE" "fs_files f' = fs_files f1"
      using less.hyps [of ?s ?off ?p] by (auto simp del: map_append)
    have "flash_loop n sid ch h off l s = flash_loop n sid ch h ?off ?p ?s"
      using read False less.prems(1,2)
      by (simp add: flash_loop.simps [of n sid ch h off l s] on_host_fs_def send_task_up show_percent_up Let_def)
    then have "flash_loop n sid ch h off l s =
        (Inr (), (answered_all ch (map progress_text (shown_percents n l off (got # chunks)))
          (host_sent sid (data_msgs FlashdData ch off (got # chunks)) s))\<lparr>sv_fs := f'\<rparr>)"
      using rest(1) by (simp add: Let_def)
    moreover have "concat (got # chunks) = remaining h (sv_fs s)" "fs_files f' = fs_files (sv_fs s)"
      "length got \<le> CHUNK_SIZE"
      using ok rest(2,4) by simp_all
    ultimately show ?thesis
      using rest(3) False by (intro exI [of _ "got # chunks"] exI [of _ f'] conjI) simp_all
  qed
qed

lemma shown_percents_bound:
  assumes "n < 2 ^ 53"
  shows "unat off + length (concat cs) \<le> n \<Longrightarrow> \<forall>p \<in> set (shown_percents n l off cs). p \<le> 100"
proof (induction cs arbitrary: l off)
  case (Cons c cs)
  have "unat (off + of_nat (length c)) = unat off + length c"
    using Cons.prems assms by (simp add: unat_word_ariths unat_of_nat take_bit_nat_eq_self)
  then show ?case
    using Cons.IH [of "off + of_nat (length c)"] flash_percent_bound [OF _ assms, of "off + of_nat (length c)"] Cons.prems
    by (auto simp: Let_def)
qed simp

definition flash_msgs :: "u32 \<Rightarrow> nat \<Rightarrow> string list \<Rightarrow> string \<Rightarrow> bool \<Rightarrow> bytes list \<Rightarrow> task_message list" where
  "flash_msgs ch n params path is_update chunks =
    [flash_check_msg ch n params path is_update] @ data_msgs FlashdData ch 0 chunks @ [task_msg ch FlashdFinish [1]]"

definition flash_texts :: "nat \<Rightarrow> bytes list \<Rightarrow> string \<Rightarrow> string list" where
  "flash_texts n chunks info =
    map progress_text (0 # shown_percents n 0 0 chunks) @ [flash_result_text info]"

lemma flash_image_complete:
  assumes up: "host_up sid s" "channel_up ch s"
    and cmd: "cmd = FlashdUpdateInit \<or> cmd = FlashdFlashInit"
    and args: "parse_flashd_file_args params (cmd = FlashdUpdateInit) = Inr (path, force)" "validate_flashd_file path = Inr ()"
    and local: "fs_deny (sv_fs s) path = None" "fs_files (sv_fs s) path = Some c"
      "\<forall>m. ReadError m \<notin> set (fs_reads (sv_fs s))"
    and opens: "tm_channel_id begin = ch" "tm_command begin = FlashdBegin"
    and fin: "tm_channel_id fin = ch" "tm_command fin = FlashdFinish" "tm_payload fin = x # level_u8 LevelOk # text"
  shows "\<exists>chunks s'. handle_server_flashd sid ch cmd params (Received begin # Received fin # evs, s) = (Inr (), (evs, s'))
    \<and> concat chunks = c \<and> (\<forall>b \<in> set chunks. b \<noteq> [] \<and> length b \<le> CHUNK_SIZE)
    \<and> session_out sid s' = session_out sid s
        @ concat (map concat_pack (flash_msgs ch (length c) params path (cmd = FlashdUpdateInit) chunks))
    \<and> channel_sent ch s' = channel_sent ch s
        @ concat (map (\<lambda>t. channel_frame (as_bytes t)) (flash_texts (length c) chunks (from_utf8_lossy text)))
    \<and> fs_files (sv_fs s') = fs_files (sv_fs s)
    \<and> map_of (response_channels (sv_usb s')) (sid, ch) = None"
proof -
  let ?s0 = "s\<lparr>sv_usb := usb_register_response_channel sid ch \<lparr>mq_items = [], mq_open = True\<rparr> (sv_usb s)\<rparr>"
  let ?check = "flash_check_msg ch (length c) params path (cmd = FlashdUpdateInit)"
  let ?h = "length (fs_handles (sv_fs s))"
  let ?s1 = "(answered ch (as_bytes (progress_text 0)) (host_sent sid [?check] ?s0))
    \<lparr>sv_fs := (sv_fs s)\<lparr>fs_handles := fs_handles (sv_fs s) @ [(path, 0)]\<rparr>\<rparr>"
  have up1: "host_up sid ?s0" "host_up sid ?s1" "channel_up ch ?s1" using up by simp_all
  have rem: "remaining ?h (sv_fs ?s1) = c" using local(2) by (simp add: remaining_def contents_def nth_append)
  obtain chunks f' where loop: "flash_loop (length c) sid ch ?h 0 0 ?s1 =
      (Inr (), (answered_all ch (map progress_text (shown_percents (length c) 0 0 chunks))
        (host_sent sid (data_msgs FlashdData ch 0 chunks) ?s1))\<lparr>sv_fs := f'\<rparr>)"
    "concat chunks = c" "\<forall>b \<in> set chunks. b \<noteq> [] \<and> length b \<le> CHUNK_SIZE" "fs_files f' = fs_files (sv_fs s)"
    using flash_loop_complete [OF up1(2,3), of ?h "length c" 0 0] local(3) rem by auto
  let ?ms = "flash_msgs ch (length c) params path (cmd = FlashdUpdateInit) chunks"
  let ?s2 = "(answered_all ch (flash_texts (length c) chunks (from_utf8_lossy text)) (host_sent sid ?ms ?s0))\<lparr>sv_fs := f'\<rparr>"
  have "flash_image sid ch params (cmd = FlashdUpdateInit) (Received begin # Received fin # evs, ?s0) = (Inr (), (evs, ?s2))"
    using up1 up args local(1,2) opens fin loop(1)
    by (simp add: flash_image_def io_bind_def io_match_def on_sv_def on_host_fs_def file_len_def file_open_def
        send_task_up answer_up flash_msgs_def flash_texts_def answered_all_snoc Let_def)
  then have task: "flashd_task sid ch cmd params (Received begin # Received fin # evs, ?s0) = (Inr (), (evs, ?s2))"
    using cmd by (auto simp: flashd_task_def)
  let ?s3 = "channel_ended ch ?s2"
  let ?s4 = "?s3\<lparr>sv_usb := usb_unregister_response_channel sid ch (sv_usb ?s3)\<rparr>"
  from task have "handle_server_flashd sid ch cmd params (Received begin # Received fin # evs, s) = (Inr (), (evs, ?s4))"
    by (simp add: handle_server_flashd_def with_responses_def io_bind_def on_sv_def maybe_end_channel_ended)
  moreover have "session_up sid ?s0" using up(1) by (simp add: host_up_def)
  ultimately show ?thesis
    using loop(2-4) up(2)
    by (intro exI [of _ chunks] exI [of _ ?s4])
      (simp add: session_out_host_sent usb_unregister_response_channel_def channel_sent_all)
qed

end
