(* ===== verification/Daemon_Core.thy ===== *)
theory Daemon_Core
  imports Tcp_Transport Rust_Fs Rust_Map
begin

text \<open>
  The state of the daemon that its handlers share, and the two ways in which they answer:
  \<open>send_shared\<close> (\<open>hdcd/src/task.rs\<close>) sends a message on the connection of the session,
  \<open>echo_client\<close> (one copy in each of \<open>task.rs\<close>, \<open>file.rs\<close>, \<open>app.rs\<close>, \<open>forward.rs\<close>) sends a
  text with a level.
\<close>

section \<open>State\<close>

datatype transfer_direction = TransferSend | TransferRecv

text \<open>
  The field \<open>file\<close> of the source is a shared cell. Every handler that assigns it also stores the
  state it belongs to, so the cell is the handle in the stored state.
\<close>

record file_transfer_state =
  ft_session_id :: u32
  ft_channel_id :: u32
  ft_local_path :: string
  ft_remote_path :: string
  ft_file :: "nat option"
  ft_total_size :: u64
  ft_received_size :: u64
  ft_direction :: transfer_direction

text \<open>
  Port forwarding: the senders of the bridge tasks with what was sent through them so far, and the
  queue of each reverse listener. \<open>fw_os\<close> are the operating system's answers to the coming attempts
  to connect or bind (\<open>None\<close> for success, also beyond the list), \<open>fw_calls\<close> the attempts made,
  \<open>fw_spawned\<close> the tasks that were started and \<open>fw_aborted\<close> the channels whose listener task was
  aborted.
\<close>

datatype endpoint = TcpPort nat | AbstractSocket string | UnixPath string

datatype os_call = ConnectTo endpoint | BindTo endpoint

datatype rport_msg =
    CheckResult u32 bool | ActiveMaster u32 | RportData u32 bytes | FreeContext u32 | Shutdown

record fport_conn =
  fc_channel_id :: u32
  fc_sent :: "bytes list"

datatype spawned = BridgeTasks u32 u32 endpoint | RportListener u32 string string endpoint

record forward_state =
  fw_fport :: "(u32 \<times> fport_conn) list"
  fw_rport :: "u32 \<Rightarrow> rport_msg list option"
  fw_os :: "io_error option list"
  fw_calls :: "os_call list"
  fw_spawned :: "spawned list"
  fw_aborted :: "u32 list"

text \<open>
  \<open>d_procs\<close> are the outcomes of the coming commands, \<open>d_runs\<close> the commands that were run.
\<close>

record daemon =
  d_aead :: aead
  d_link :: link
  d_tasks :: "u32 \<times> u32 \<Rightarrow> file_transfer_state option"
  d_fs :: fs
  d_procs :: "proc_result list"
  d_runs :: "(string \<times> string list) list"
  d_forward :: forward_state

section \<open>Operations on the state\<close>

definition on_fs :: "(fs, 'r) io \<Rightarrow> (daemon, 'r) io" where
  "on_fs m d = (case m (d_fs d) of (r, f) \<Rightarrow> (r, d\<lparr>d_fs := f\<rparr>))"

definition file_map_put :: "u32 \<Rightarrow> u32 \<Rightarrow> file_transfer_state \<Rightarrow> (daemon, unit) io" where
  "file_map_put session_id channel_id state d =
    (Inr (), d\<lparr>d_tasks := (d_tasks d)((session_id, channel_id) \<mapsto> state)\<rparr>)"

definition file_map_get :: "u32 \<Rightarrow> u32 \<Rightarrow> (daemon, file_transfer_state option) io" where
  "file_map_get session_id channel_id d = (Inr (d_tasks d (session_id, channel_id)), d)"

definition file_map_remove :: "u32 \<Rightarrow> u32 \<Rightarrow> (daemon, unit) io" where
  "file_map_remove session_id channel_id d =
    (Inr (), d\<lparr>d_tasks := (d_tasks d)((session_id, channel_id) := None)\<rparr>)"

definition run_command :: "string \<Rightarrow> string list \<Rightarrow> (daemon, proc_result) io" where
  "run_command prog args d =
    (case d_procs d of
       [] \<Rightarrow> (Inr (ProcFailed (err_message no_such_file)), d\<lparr>d_runs := d_runs d @ [(prog, args)]\<rparr>)
     | r # rs \<Rightarrow> (Inr r, d\<lparr>d_procs := rs, d_runs := d_runs d @ [(prog, args)]\<rparr>))"

definition send_shared :: "u32 \<Rightarrow> task_message \<Rightarrow> (daemon, unit) io" where
  "send_shared session_id msg d =
    (case daemon_send_message (d_aead d) session_id msg (d_link d) of (r, l) \<Rightarrow> (r, d\<lparr>d_link := l\<rparr>))"

definition level_prefix :: "message_level \<Rightarrow> string" where
  "level_prefix level = (case level of LevelFail \<Rightarrow> ''[Fail]'' | LevelInfo \<Rightarrow> ''[Info]'' | LevelOk \<Rightarrow> '''')"

definition echo_msg_of :: "u32 \<Rightarrow> string \<Rightarrow> message_level \<Rightarrow> task_message" where
  "echo_msg_of channel_id text level =
    \<lparr>tm_channel_id = channel_id, tm_command = KernelEcho,
     tm_payload = level_u8 level # as_bytes (level_prefix level @ text @ [CHR 0x0D, CHR 0x0A])\<rparr>"

definition echo_client :: "u32 \<Rightarrow> u32 \<Rightarrow> string \<Rightarrow> message_level \<Rightarrow> (daemon, unit) io" where
  "echo_client session_id channel_id text level = send_shared session_id (echo_msg_of channel_id text level)"

definition close_msg :: "u32 \<Rightarrow> task_message" where
  "close_msg channel_id = \<lparr>tm_channel_id = channel_id, tm_command = KernelChannelClose, tm_payload = [0]\<rparr>"

section \<open>Sending touches only the link\<close>

lemma send_shared_frame:
  assumes "send_shared sid msg d = (r, d')"
  shows "d' = d\<lparr>d_link := d_link d'\<rparr>"
  using assms by (auto simp: send_shared_def split: prod.splits)

lemma send_shared_fields:
  assumes "send_shared sid msg d = (r, d')"
  shows "d_tasks d' = d_tasks d" "d_fs d' = d_fs d" "d_aead d' = d_aead d" "d_procs d' = d_procs d"
    "d_runs d' = d_runs d" "d_forward d' = d_forward d"
  using assms by (auto simp: send_shared_def split: prod.splits)

text \<open>
  A session whose connection is up and in the clear: what is sent is appended to the stream.
\<close>

definition link_up :: "u32 \<Rightarrow> daemon \<Rightarrow> bool" where
  "link_up sid d \<longleftrightarrow> get_session_cipher sid (d_link d) = None \<and> out_faults (link_out (d_link d)) = []"

definition sent_bytes :: "daemon \<Rightarrow> bytes" where
  "sent_bytes d = out_bytes (link_out (d_link d))"

text \<open>The daemon after sending a list of messages on such a connection.\<close>

definition after_sends :: "task_message list \<Rightarrow> daemon \<Rightarrow> daemon" where
  "after_sends ms d = d\<lparr>d_link := (d_link d)\<lparr>link_out := (link_out (d_link d))
     \<lparr>out_bytes := sent_bytes d @ concat (map concat_pack ms)\<rparr>\<rparr>\<rparr>"

lemma send_shared_up: "link_up sid d \<Longrightarrow> send_shared sid msg d = (Inr (), after_sends [msg] d)"
  by (simp add: send_shared_def link_up_def daemon_send_message_def on_out_def tcp_write_all_def
      after_sends_def sent_bytes_def)

lemma after_sends_fields [simp]:
  "d_tasks (after_sends ms d) = d_tasks d" "d_fs (after_sends ms d) = d_fs d"
  "d_aead (after_sends ms d) = d_aead d" "d_procs (after_sends ms d) = d_procs d"
  "d_runs (after_sends ms d) = d_runs d" "d_forward (after_sends ms d) = d_forward d"
  "link_up sid (after_sends ms d) = link_up sid d"
  "sent_bytes (after_sends ms d) = sent_bytes d @ concat (map concat_pack ms)"
  by (simp_all add: after_sends_def link_up_def sent_bytes_def get_session_cipher_def)

lemma after_sends_append [simp]: "after_sends ns (after_sends ms d) = after_sends (ms @ ns) d"
  by (simp add: after_sends_def sent_bytes_def)

lemma after_sends_Nil [simp]: "after_sends [] d = d"
  by (simp add: after_sends_def sent_bytes_def)

lemma link_up_updates [simp]:
  "link_up sid (d\<lparr>d_tasks := t\<rparr>) = link_up sid d" "link_up sid (d\<lparr>d_fs := f\<rparr>) = link_up sid d"
  "link_up sid (d\<lparr>d_procs := p\<rparr>) = link_up sid d" "link_up sid (d\<lparr>d_runs := q\<rparr>) = link_up sid d"
  "link_up sid (d\<lparr>d_forward := w\<rparr>) = link_up sid d"
  by (simp_all add: link_up_def)

lemma sent_bytes_updates [simp]:
  "sent_bytes (d\<lparr>d_tasks := t\<rparr>) = sent_bytes d" "sent_bytes (d\<lparr>d_fs := f\<rparr>) = sent_bytes d"
  "sent_bytes (d\<lparr>d_procs := p\<rparr>) = sent_bytes d" "sent_bytes (d\<lparr>d_runs := q\<rparr>) = sent_bytes d"
  "sent_bytes (d\<lparr>d_forward := w\<rparr>) = sent_bytes d"
  by (simp_all add: sent_bytes_def)

lemma echo_client_up:
  "link_up sid d \<Longrightarrow> echo_client sid ch text level d = (Inr (), after_sends [echo_msg_of ch text level] d)"
  by (simp add: echo_client_def send_shared_up)

section \<open>What the basic operations keep\<close>

lemma keeps_send_shared [intro, simp]:
  "keeps d_tasks (send_shared sid msg)" "keeps d_fs (send_shared sid msg)"
  "keeps d_runs (send_shared sid msg)" "keeps d_forward (send_shared sid msg)"
  by (auto intro!: keepsI dest: send_shared_fields)

lemma keeps_echo_client [intro, simp]:
  "keeps d_tasks (echo_client sid ch t lv)" "keeps d_fs (echo_client sid ch t lv)"
  "keeps d_runs (echo_client sid ch t lv)" "keeps d_forward (echo_client sid ch t lv)"
  by (simp_all add: echo_client_def)

lemma keeps_on_fs [intro, simp]:
  "keeps d_tasks (on_fs m)" "keeps d_runs (on_fs m)" "keeps d_forward (on_fs m)" "keeps d_link (on_fs m)"
  by (auto simp: keeps_def on_fs_def split: prod.splits)

lemma keeps_file_map [intro, simp]:
  "keeps d_fs (file_map_put sid ch st)" "keeps d_fs (file_map_get sid ch)" "keeps d_fs (file_map_remove sid ch)"
  "keeps d_runs (file_map_put sid ch st)" "keeps d_runs (file_map_get sid ch)" "keeps d_runs (file_map_remove sid ch)"
  "keeps d_forward (file_map_put sid ch st)" "keeps d_forward (file_map_get sid ch)" "keeps d_forward (file_map_remove sid ch)"
  "keeps d_tasks (file_map_get sid ch)"
  by (auto simp: keeps_def file_map_put_def file_map_get_def file_map_remove_def)

lemma keeps_run_command [intro, simp]:
  "keeps d_tasks (run_command p a)" "keeps d_fs (run_command p a)" "keeps d_forward (run_command p a)"
  "keeps d_link (run_command p a)"
  by (auto simp: keeps_def run_command_def split: list.splits)

text \<open>A single entry of the task table.\<close>

lemma keeps_entry [intro]: "keeps d_tasks m \<Longrightarrow> keeps (\<lambda>d. d_tasks d k) m"
  by (simp add: keeps_def)

lemma keeps_entry_file_map [intro, simp]:
  "k \<noteq> (sid, ch) \<Longrightarrow> keeps (\<lambda>d. d_tasks d k) (file_map_put sid ch st)"
  "k \<noteq> (sid, ch) \<Longrightarrow> keeps (\<lambda>d. d_tasks d k) (file_map_remove sid ch)"
  by (auto simp: keeps_def file_map_put_def file_map_remove_def)

end
