(* ===== verification/Daemon_File.thy ===== *)
theory Daemon_File
  imports Daemon_Core
begin

text \<open>
  The file transfer handlers of the daemon (\<open>hdcd/src/file.rs\<close>). A transfer lives in the task
  table under its session and channel. Upload: \<open>FileInit\<close>, \<open>FileCheck\<close>, \<open>FileBegin\<close>, any number of
  \<open>FileData\<close>, \<open>FileFinish\<close>. Download: \<open>FileRecvInit\<close>, then \<open>FileBegin\<close> makes the daemon send the
  whole file.
\<close>

section \<open>Handlers\<close>

definition parse_file_paths :: "bytes \<Rightarrow> (string \<times> string) option" where
  "parse_file_paths payload =
    (let parts = split_on CHR '' '' (from_utf8_lossy payload) in
     if length parts < 4 then None
     else
       let idx = (if parts ! 2 = ''-cwd'' then 4 else 2) in
       if idx + 2 \<le> length parts then Some (parts ! idx, parts ! (idx + 1)) else None)"

definition handle_file_init :: "task_message \<Rightarrow> u32 \<Rightarrow> (daemon, unit) io" where
  "handle_file_init msg session_id =
    (case parse_file_paths (tm_payload msg) of
       None \<Rightarrow> echo_client session_id (tm_channel_id msg) ''Invalid file init parameters'' LevelFail
     | Some (local_path, remote_path) \<Rightarrow>
         io_bind (file_map_put session_id (tm_channel_id msg)
           \<lparr>ft_session_id = session_id, ft_channel_id = tm_channel_id msg, ft_local_path = local_path,
            ft_remote_path = remote_path, ft_file = None, ft_total_size = 0, ft_received_size = 0,
            ft_direction = TransferSend\<rparr>) (\<lambda>_.
         send_shared session_id \<lparr>tm_channel_id = tm_channel_id msg, tm_command = FileCheck,
           tm_payload = serialize_transfer_config (transfer_config_default\<lparr>tc_path := remote_path\<rparr>)\<rparr>))"

definition handle_file_check :: "task_message \<Rightarrow> u32 \<Rightarrow> (daemon, unit) io" where
  "handle_file_check msg session_id =
    (case deserialize_transfer_config (tm_payload msg) of
       Inl _ \<Rightarrow> echo_client session_id (tm_channel_id msg) ''Invalid transfer config'' LevelFail
     | Inr config \<Rightarrow>
         io_bind (file_map_get session_id (tm_channel_id msg)) (\<lambda>st.
         io_bind (case st of
             None \<Rightarrow> io_return ()
           | Some state \<Rightarrow> file_map_put session_id (tm_channel_id msg)
               (state\<lparr>ft_total_size := tc_file_size config, ft_remote_path := tc_path config\<rparr>)) (\<lambda>_.
         send_shared session_id \<lparr>tm_channel_id = tm_channel_id msg, tm_command = FileBegin, tm_payload = []\<rparr>)))"

text \<open>
  The loop of \<open>handle_daemon_file_send\<close>: read a block, send it, until the end of the file. The result
  tells whether the loop ended at the end of the file (\<open>True\<close>) or by an early return.
\<close>

definition file_data_msg :: "u32 \<Rightarrow> bytes \<Rightarrow> task_message" where
  "file_data_msg channel_id data = \<lparr>tm_channel_id = channel_id, tm_command = FileData, tm_payload = data\<rparr>"

function send_file_loop :: "u32 \<Rightarrow> u32 \<Rightarrow> nat \<Rightarrow> (daemon, bool) io" where
  "send_file_loop session_id channel_id file d =
    (case on_fs (file_read file MAX_SIZE_IOBUF) d of
       (Inl e, d') \<Rightarrow>
         io_bind (echo_client session_id channel_id (''Read failed: '' @ err_message e) LevelFail)
           (\<lambda>_. io_return False) d'
     | (Inr buf, d') \<Rightarrow>
         if buf = [] then (Inr True, d')
         else (case send_shared session_id (file_data_msg channel_id buf) d' of
                 (Inl _, d'') \<Rightarrow> (Inr False, d'')
               | (Inr _, d'') \<Rightarrow> send_file_loop session_id channel_id file d''))"
  by pat_completeness auto

text \<open>Every round of the loop leaves less of the file to read.\<close>

lemma send_file_round:
  assumes "on_fs (file_read h MAX_SIZE_IOBUF) d = (Inr buf, d')" "buf \<noteq> []"
    and "send_shared sid m d' = (Inr u, d'')"
  shows "length (remaining h (d_fs d'')) < length (remaining h (d_fs d))"
proof -
  have "file_read h MAX_SIZE_IOBUF (d_fs d) = (Inr buf, d_fs d')"
    using assms(1) by (auto simp: on_fs_def split: prod.splits)
  with file_read_ok [of h MAX_SIZE_IOBUF "d_fs d" buf "d_fs d'"] assms(2) send_shared_fields(2) [OF assms(3)]
  show ?thesis by (simp add: MAX_SIZE_IOBUF_def)
qed

termination send_file_loop
  by (relation "measure (\<lambda>(_, _, h, d). length (remaining h (d_fs d)))")
    (auto intro: send_file_round [OF sym _ sym])

declare send_file_loop.simps [simp del]

definition handle_daemon_file_send :: "u32 \<Rightarrow> u32 \<Rightarrow> string \<Rightarrow> (daemon, unit) io" where
  "handle_daemon_file_send channel_id session_id path =
    io_match (on_fs (file_open path))
      (\<lambda>e. io_bind (echo_client session_id channel_id (''Failed to open file: '' @ err_message e) LevelFail)
           (\<lambda>_. send_shared session_id (close_msg channel_id)))
      (\<lambda>file.
         io_bind (send_file_loop session_id channel_id file) (\<lambda>complete.
           if \<not> complete then io_return ()
           else
             io_bind (send_shared session_id \<lparr>tm_channel_id = channel_id, tm_command = FileFinish, tm_payload = []\<rparr>) (\<lambda>_.
             io_bind (send_shared session_id (close_msg channel_id)) (\<lambda>_.
             file_map_remove session_id channel_id))))"

definition handle_file_begin :: "task_message \<Rightarrow> u32 \<Rightarrow> (daemon, unit) io" where
  "handle_file_begin msg session_id =
    io_bind (file_map_get session_id (tm_channel_id msg)) (\<lambda>st.
    case st of
      None \<Rightarrow> echo_client session_id (tm_channel_id msg) ''File transfer not initialized'' LevelFail
    | Some state \<Rightarrow>
        (case ft_direction state of
           TransferSend \<Rightarrow>
             io_match (on_fs (file_create (ft_remote_path state)))
               (\<lambda>e. echo_client session_id (tm_channel_id msg) (''Failed to create file: '' @ err_message e) LevelFail)
               (\<lambda>file. file_map_put session_id (tm_channel_id msg) (state\<lparr>ft_file := Some file\<rparr>))
         | TransferRecv \<Rightarrow> handle_daemon_file_send (tm_channel_id msg) session_id (ft_remote_path state)))"

definition handle_file_data :: "task_message \<Rightarrow> u32 \<Rightarrow> (daemon, unit) io" where
  "handle_file_data msg session_id =
    io_bind (file_map_get session_id (tm_channel_id msg)) (\<lambda>st.
    case st of
      None \<Rightarrow> echo_client session_id (tm_channel_id msg) ''File transfer not initialized'' LevelFail
    | Some state \<Rightarrow>
        if ft_direction state \<noteq> TransferSend then io_return ()
        else
          (case ft_file state of
             None \<Rightarrow> file_map_put session_id (tm_channel_id msg) state
           | Some file \<Rightarrow>
               io_match (on_fs (file_write_all file (tm_payload msg)))
                 (\<lambda>e. echo_client session_id (tm_channel_id msg) (''Write failed: '' @ err_message e) LevelFail)
                 (\<lambda>_. file_map_put session_id (tm_channel_id msg)
                    (state\<lparr>ft_received_size := ft_received_size state + of_nat (length (tm_payload msg))\<rparr>))))"

definition handle_file_finish :: "task_message \<Rightarrow> u32 \<Rightarrow> (daemon, unit) io" where
  "handle_file_finish msg session_id =
    io_bind (file_map_get session_id (tm_channel_id msg)) (\<lambda>st.
    case st of
      None \<Rightarrow> echo_client session_id (tm_channel_id msg) ''File transfer not initialized'' LevelFail
    | Some state \<Rightarrow>
        io_bind (file_map_remove session_id (tm_channel_id msg)) (\<lambda>_.
        send_shared session_id (close_msg (tm_channel_id msg))))"

definition handle_file_recv_init :: "task_message \<Rightarrow> u32 \<Rightarrow> (daemon, unit) io" where
  "handle_file_recv_init msg session_id =
    (case parse_file_paths (tm_payload msg) of
       None \<Rightarrow> echo_client session_id (tm_channel_id msg) ''Invalid file recv parameters'' LevelFail
     | Some (remote_path, _) \<Rightarrow>
         io_match (on_fs (file_len remote_path))
           (\<lambda>e. io_bind (echo_client session_id (tm_channel_id msg) (''File not found: '' @ err_message e) LevelFail)
                (\<lambda>_. send_shared session_id (close_msg (tm_channel_id msg))))
           (\<lambda>n.
              io_bind (send_shared session_id \<lparr>tm_channel_id = tm_channel_id msg, tm_command = FileCheck,
                  tm_payload = serialize_transfer_config
                    (transfer_config_default\<lparr>tc_path := remote_path, tc_file_size := of_nat n\<rparr>)\<rparr>) (\<lambda>_.
              file_map_put session_id (tm_channel_id msg)
                \<lparr>ft_session_id = session_id, ft_channel_id = tm_channel_id msg, ft_local_path = remote_path,
                 ft_remote_path = remote_path, ft_file = None, ft_total_size = of_nat n,
                 ft_received_size = 0, ft_direction = TransferRecv\<rparr>)))"

definition handle_file_task :: "task_message \<Rightarrow> u32 \<Rightarrow> (daemon, unit) io" where
  "handle_file_task msg session_id =
    (case tm_command msg of
       FileInit \<Rightarrow> handle_file_init msg session_id
     | FileCheck \<Rightarrow> handle_file_check msg session_id
     | FileBegin \<Rightarrow> handle_file_begin msg session_id
     | FileData \<Rightarrow> handle_file_data msg session_id
     | FileFinish \<Rightarrow> handle_file_finish msg session_id
     | FileRecvInit \<Rightarrow> handle_file_recv_init msg session_id
     | _ \<Rightarrow> io_return ())"

section \<open>Isolation\<close>

text \<open>A handler works on the entry of its own session and channel only.\<close>

lemma keeps_send_file_loop [intro, simp]: "keeps d_tasks (send_file_loop sid ch h)"
proof (rule keepsI)
  fix d r d'
  show "send_file_loop sid ch h d = (r, d') \<Longrightarrow> d_tasks d' = d_tasks d"
  proof (induction sid ch h d rule: send_file_loop.induct)
    case (1 sid ch h d)
    obtain r1 d1 where read: "on_fs (file_read h MAX_SIZE_IOBUF) d = (r1, d1)"
      by (cases "on_fs (file_read h MAX_SIZE_IOBUF) d")
    have tasks: "d_tasks d1 = d_tasks d" using keepsD [OF keeps_on_fs(1) read] .
    show ?case
    proof (cases r1)
      case (Inl e)
      then have "keeps d_tasks (io_bind (echo_client sid ch (''Read failed: '' @ err_message e) LevelFail)
          (\<lambda>_. io_return False))" by auto
      then show ?thesis
        using keepsD tasks "1.prems" read Inl by (fastforce simp: send_file_loop.simps [of sid ch h d])
    next
      case (Inr buf)
      show ?thesis
      proof (cases "buf = []")
        case True
        then show ?thesis
          using tasks "1.prems" read Inr by (simp add: send_file_loop.simps [of sid ch h d])
      next
        case False
        obtain r2 d2 where send: "send_shared sid (file_data_msg ch buf) d1 = (r2, d2)"
          by (cases "send_shared sid (file_data_msg ch buf) d1")
        have "d_tasks d2 = d_tasks d1" using keepsD [OF keeps_send_shared(1) send] .
        with tasks show ?thesis
          using "1.IH" [OF read [symmetric] Inr False send [symmetric]] "1.prems" read Inr False send
          by (cases r2) (auto simp: send_file_loop.simps [of sid ch h d])
      qed
    qed
  qed
qed

lemma keeps_direction:
  "keeps f a \<Longrightarrow> keeps f b \<Longrightarrow> keeps f (case x of TransferSend \<Rightarrow> a | TransferRecv \<Rightarrow> b)"
  by (cases x) auto

lemma keeps_handle_file_task:
  assumes "k \<noteq> (sid, tm_channel_id msg)"
  shows "keeps (\<lambda>d. d_tasks d k) (handle_file_task msg sid)"
proof -
  have "keeps (\<lambda>d. d_tasks d k) (handle_file_init msg sid)"
    "keeps (\<lambda>d. d_tasks d k) (handle_file_check msg sid)"
    "keeps (\<lambda>d. d_tasks d k) (handle_file_begin msg sid)"
    "keeps (\<lambda>d. d_tasks d k) (handle_file_data msg sid)"
    "keeps (\<lambda>d. d_tasks d k) (handle_file_finish msg sid)"
    "keeps (\<lambda>d. d_tasks d k) (handle_file_recv_init msg sid)"
    using assms
    unfolding handle_file_init_def handle_file_check_def handle_file_begin_def handle_file_data_def
      handle_file_finish_def handle_file_recv_init_def handle_daemon_file_send_def
    by (intro keeps_rules keeps_direction; auto)+
  then show ?thesis by (cases "tm_command msg") (simp_all add: handle_file_task_def)
qed

section \<open>Upload\<close>

definition file_msg :: "u32 \<Rightarrow> hdc_command \<Rightarrow> bytes \<Rightarrow> task_message" where
  "file_msg ch cmd payload = \<lparr>tm_channel_id = ch, tm_command = cmd, tm_payload = payload\<rparr>"

definition file_tasks :: "u32 \<Rightarrow> task_message list \<Rightarrow> (daemon, unit) io" where
  "file_tasks sid ms = io_all (map (\<lambda>m. handle_file_task m sid) ms)"

lemma file_msg_sel [simp]:
  "tm_channel_id (file_msg ch c p) = ch" "tm_command (file_msg ch c p) = c"
  "tm_payload (file_msg ch c p) = p"
  by (simp_all add: file_msg_def)

lemma file_tasks_simps:
  "file_tasks sid [] d = (Inr (), d)"
  "file_tasks sid (m # ms) d = io_bind (handle_file_task m sid) (\<lambda>_. file_tasks sid ms) d"
  by (simp_all add: file_tasks_def)

lemmas handler_eval = handle_file_task_def io_bind_def io_match_def file_map_get_def file_map_put_def
  file_map_remove_def send_shared_up echo_client_up on_fs_def

text \<open>An upload is open when its entry has a handle at the end of the target file.\<close>

definition upload_open :: "u32 \<Rightarrow> u32 \<Rightarrow> string \<Rightarrow> daemon \<Rightarrow> bool" where
  "upload_open sid ch path d \<longleftrightarrow>
    (\<exists>st h. d_tasks d (sid, ch) = Some st \<and> ft_direction st = TransferSend \<and> ft_file st = Some h
       \<and> h < length (fs_handles (d_fs d)) \<and> fs_files (d_fs d) path \<noteq> None
       \<and> fs_handles (d_fs d) ! h = (path, length (contents (d_fs d) path)))"

lemma upload_chunk:
  assumes "upload_open sid ch path d" "fs_writes (d_fs d) = []"
  shows "\<exists>d'. handle_file_task (file_msg ch FileData data) sid d = (Inr (), d')
    \<and> upload_open sid ch path d' \<and> fs_writes (d_fs d') = []
    \<and> contents (d_fs d') path = contents (d_fs d) path @ data
    \<and> (\<forall>p. p \<noteq> path \<longrightarrow> fs_files (d_fs d') p = fs_files (d_fs d) p)
    \<and> (\<forall>k. k \<noteq> (sid, ch) \<longrightarrow> d_tasks d' k = d_tasks d k) \<and> d_link d' = d_link d
    \<and> d_procs d' = d_procs d \<and> d_runs d' = d_runs d
    \<and> map_option ft_remote_path (d_tasks d' (sid, ch)) = map_option ft_remote_path (d_tasks d (sid, ch))"
proof -
  obtain st h where st: "d_tasks d (sid, ch) = Some st" "ft_direction st = TransferSend"
    "ft_file st = Some h" "h < length (fs_handles (d_fs d))"
    "fs_handles (d_fs d) ! h = (path, length (contents (d_fs d) path))"
    using assms(1) by (auto simp: upload_open_def)
  let ?f = "(file_put h data (d_fs d))\<lparr>fs_writes := []\<rparr>"
  let ?st = "st\<lparr>ft_received_size := ft_received_size st + of_nat (length data)\<rparr>"
  let ?d = "d\<lparr>d_fs := ?f, d_tasks := (d_tasks d)((sid, ch) \<mapsto> ?st)\<rparr>"
  note put = file_put_append [OF st(4,5), where data = data]
  have "handle_file_task (file_msg ch FileData data) sid d = (Inr (), ?d)"
    using st assms(2) by (simp add: handler_eval handle_file_data_def file_write_all_def)
  moreover have same: "contents ?f p = contents (file_put h data (d_fs d)) p" for p
    by (simp add: contents_def)
  moreover have "upload_open sid ch path ?d"
    using st put(1,2) same [of path] by (simp add: upload_open_def) (simp add: file_put_def)
  ultimately show ?thesis
    using put(1,3) st(1) by (intro exI [of _ ?d]) auto
qed

lemma upload_chunks:
  "upload_open sid ch path d \<Longrightarrow> fs_writes (d_fs d) = [] \<Longrightarrow>
    \<exists>d'. file_tasks sid (map (file_msg ch FileData) chunks) d = (Inr (), d')
    \<and> upload_open sid ch path d'
    \<and> contents (d_fs d') path = contents (d_fs d) path @ concat chunks
    \<and> (\<forall>p. p \<noteq> path \<longrightarrow> fs_files (d_fs d') p = fs_files (d_fs d) p)
    \<and> (\<forall>k. k \<noteq> (sid, ch) \<longrightarrow> d_tasks d' k = d_tasks d k) \<and> d_link d' = d_link d
    \<and> d_procs d' = d_procs d \<and> d_runs d' = d_runs d
    \<and> map_option ft_remote_path (d_tasks d' (sid, ch)) = map_option ft_remote_path (d_tasks d (sid, ch))"
proof (induction chunks arbitrary: d)
  case Nil
  then show ?case by (simp add: file_tasks_simps)
next
  case (Cons c chunks)
  obtain d1 where d1: "handle_file_task (file_msg ch FileData c) sid d = (Inr (), d1)"
    "upload_open sid ch path d1" "fs_writes (d_fs d1) = []"
    "contents (d_fs d1) path = contents (d_fs d) path @ c"
    "\<forall>p. p \<noteq> path \<longrightarrow> fs_files (d_fs d1) p = fs_files (d_fs d) p"
    "\<forall>k. k \<noteq> (sid, ch) \<longrightarrow> d_tasks d1 k = d_tasks d k" "d_link d1 = d_link d"
    "d_procs d1 = d_procs d" "d_runs d1 = d_runs d"
    "map_option ft_remote_path (d_tasks d1 (sid, ch)) = map_option ft_remote_path (d_tasks d (sid, ch))"
    using upload_chunk [OF Cons.prems] by blast
  from Cons.IH [OF d1(2,3)] obtain d2 where
    "file_tasks sid (map (file_msg ch FileData) chunks) d1 = (Inr (), d2)" "upload_open sid ch path d2"
    "contents (d_fs d2) path = contents (d_fs d1) path @ concat chunks"
    "\<forall>p. p \<noteq> path \<longrightarrow> fs_files (d_fs d2) p = fs_files (d_fs d1) p"
    "\<forall>k. k \<noteq> (sid, ch) \<longrightarrow> d_tasks d2 k = d_tasks d1 k" "d_link d2 = d_link d1"
    "d_procs d2 = d_procs d1" "d_runs d2 = d_runs d1"
    "map_option ft_remote_path (d_tasks d2 (sid, ch)) = map_option ft_remote_path (d_tasks d1 (sid, ch))"
    by blast
  with d1 show ?case by (auto simp: file_tasks_simps io_bind_def)
qed

definition upload_replies :: "u32 \<Rightarrow> string \<Rightarrow> task_message list" where
  "upload_replies ch remote =
    [file_msg ch FileCheck (serialize_transfer_config (transfer_config_default\<lparr>tc_path := remote\<rparr>)),
     file_msg ch FileBegin []]"

text \<open>The opening three messages create the target file and leave the upload open.\<close>

lemma upload_start:
  assumes "link_up sid d" "parse_file_paths p0 = Some (local, remote)"
    and "deserialize_transfer_config p1 = Inr cfg"
    and "fs_deny (d_fs d) (tc_path cfg) = None" "fs_writes (d_fs d) = []"
  shows "\<exists>d'. file_tasks sid [file_msg ch FileInit p0, file_msg ch FileCheck p1, file_msg ch FileBegin p2] d
      = (Inr (), d')
    \<and> upload_open sid ch (tc_path cfg) d' \<and> fs_writes (d_fs d') = []
    \<and> contents (d_fs d') (tc_path cfg) = []
    \<and> (\<forall>p. p \<noteq> tc_path cfg \<longrightarrow> fs_files (d_fs d') p = fs_files (d_fs d) p)
    \<and> (\<forall>k. k \<noteq> (sid, ch) \<longrightarrow> d_tasks d' k = d_tasks d k)
    \<and> link_up sid d' \<and> sent_bytes d' = sent_bytes d @ concat (map concat_pack (upload_replies ch remote))"
proof -
  define st where "st = \<lparr>ft_session_id = sid, ft_channel_id = ch, ft_local_path = local,
    ft_remote_path = tc_path cfg, ft_file = Some (length (fs_handles (d_fs d))),
    ft_total_size = tc_file_size cfg, ft_received_size = 0, ft_direction = TransferSend\<rparr>"
  define d' where "d' = (after_sends (upload_replies ch remote) d)
    \<lparr>d_tasks := (d_tasks d)((sid, ch) \<mapsto> st),
     d_fs := (d_fs d)\<lparr>fs_files := (fs_files (d_fs d))(tc_path cfg \<mapsto> []),
       fs_handles := fs_handles (d_fs d) @ [(tc_path cfg, 0)]\<rparr>\<rparr>"
  have "file_tasks sid [file_msg ch FileInit p0, file_msg ch FileCheck p1, file_msg ch FileBegin p2] d
      = (Inr (), d')"
    using assms
    by (simp add: file_tasks_simps handler_eval handle_file_init_def handle_file_check_def
        handle_file_begin_def file_create_def)
      (simp add: d'_def st_def upload_replies_def file_msg_def after_sends_def sent_bytes_def)
  then show ?thesis
    using assms(1,5)
    by (intro exI [of _ d'])
      (auto simp: d'_def st_def upload_open_def contents_def link_up_def sent_bytes_def after_sends_def
        get_session_cipher_def)
qed

lemma upload_finish:
  assumes "link_up sid d" "upload_open sid ch path d"
  shows "handle_file_task (file_msg ch FileFinish p) sid d
    = (Inr (), after_sends [close_msg ch] (d\<lparr>d_tasks := (d_tasks d)((sid, ch) := None)\<rparr>))"
  using assms by (auto simp: handler_eval handle_file_finish_def upload_open_def)

lemma upload_complete:
  assumes "link_up sid d" "parse_file_paths p0 = Some (local, remote)"
    and "deserialize_transfer_config p1 = Inr cfg"
    and "fs_deny (d_fs d) (tc_path cfg) = None" "fs_writes (d_fs d) = []"
  shows "\<exists>d'. file_tasks sid ([file_msg ch FileInit p0, file_msg ch FileCheck p1, file_msg ch FileBegin p2]
        @ map (file_msg ch FileData) chunks @ [file_msg ch FileFinish p3]) d = (Inr (), d')
    \<and> fs_files (d_fs d') = (fs_files (d_fs d))(tc_path cfg \<mapsto> concat chunks)
    \<and> d_tasks d' = (d_tasks d)((sid, ch) := None)
    \<and> sent_bytes d' = sent_bytes d
        @ concat (map concat_pack (upload_replies ch remote @ [close_msg ch]))"
proof -
  obtain d1 where d1: "file_tasks sid [file_msg ch FileInit p0, file_msg ch FileCheck p1, file_msg ch FileBegin p2] d
      = (Inr (), d1)" "upload_open sid ch (tc_path cfg) d1" "fs_writes (d_fs d1) = []"
    "contents (d_fs d1) (tc_path cfg) = []" "link_up sid d1"
    "\<forall>p. p \<noteq> tc_path cfg \<longrightarrow> fs_files (d_fs d1) p = fs_files (d_fs d) p"
    "\<forall>k. k \<noteq> (sid, ch) \<longrightarrow> d_tasks d1 k = d_tasks d k"
    "sent_bytes d1 = sent_bytes d @ concat (map concat_pack (upload_replies ch remote))"
    using upload_start [OF assms] by blast
  obtain d2 where d2: "file_tasks sid (map (file_msg ch FileData) chunks) d1 = (Inr (), d2)"
    "upload_open sid ch (tc_path cfg) d2" "d_link d2 = d_link d1"
    "contents (d_fs d2) (tc_path cfg) = contents (d_fs d1) (tc_path cfg) @ concat chunks"
    "\<forall>p. p \<noteq> tc_path cfg \<longrightarrow> fs_files (d_fs d2) p = fs_files (d_fs d1) p"
    "\<forall>k. k \<noteq> (sid, ch) \<longrightarrow> d_tasks d2 k = d_tasks d1 k"
    using upload_chunks [OF d1(2,3)] by blast
  let ?d = "after_sends [close_msg ch] (d2\<lparr>d_tasks := (d_tasks d2)((sid, ch) := None)\<rparr>)"
  have up: "link_up sid d2" using d1(5) d2(3) by (simp add: link_up_def)
  have "file_tasks sid ([file_msg ch FileInit p0, file_msg ch FileCheck p1, file_msg ch FileBegin p2]
        @ map (file_msg ch FileData) chunks @ [file_msg ch FileFinish p3]) d = (Inr (), ?d)"
    using d1(1) d2(1) upload_finish [OF up d2(2), of p3]
    unfolding file_tasks_def map_append io_all_append by (simp add: io_all_append io_bind_def)
  moreover have "fs_files (d_fs d2) = (fs_files (d_fs d))(tc_path cfg \<mapsto> concat chunks)"
  proof
    fix p
    have "fs_files (d_fs d2) (tc_path cfg) \<noteq> None" using d2(2) by (auto simp: upload_open_def)
    then show "fs_files (d_fs d2) p = ((fs_files (d_fs d))(tc_path cfg \<mapsto> concat chunks)) p"
      using d1 d2 by (cases "p = tc_path cfg") (auto simp: contents_def)
  qed
  moreover have "sent_bytes d2 = sent_bytes d1" using d2(3) by (simp add: sent_bytes_def)
  ultimately show ?thesis
    using d1(7,8) d2(6) by (intro exI [of _ ?d]) (auto simp: fun_eq_iff)
qed

section \<open>Download\<close>

text \<open>The loop sends the rest of the file in blocks, however short the single reads are.\<close>

lemma send_file_loop_complete:
  "link_up sid d \<Longrightarrow> h < length (fs_handles (d_fs d)) \<Longrightarrow> \<forall>m. ReadError m \<notin> set (fs_reads (d_fs d)) \<Longrightarrow>
    \<exists>chunks f'. send_file_loop sid ch h d
        = (Inr True, (after_sends (map (file_data_msg ch) chunks) d)\<lparr>d_fs := f'\<rparr>)
      \<and> concat chunks = remaining h (d_fs d)
      \<and> (\<forall>c \<in> set chunks. c \<noteq> [] \<and> length c \<le> MAX_SIZE_IOBUF) \<and> fs_files f' = fs_files (d_fs d)"
proof (induction "length (remaining h (d_fs d))" arbitrary: d rule: less_induct)
  case less
  obtain got f1 where read: "file_read h MAX_SIZE_IOBUF (d_fs d) = (Inr got, f1)"
    "\<forall>m. ReadError m \<notin> set (fs_reads f1)"
    using file_read_no_error [OF less.prems(2,3)] by blast
  have pos: "0 < MAX_SIZE_IOBUF" by (simp add: MAX_SIZE_IOBUF_def)
  note ok = file_read_ok [OF read(1) pos]
  show ?case
  proof (cases "got = []")
    case True
    then have "send_file_loop sid ch h d = (Inr True, (after_sends (map (file_data_msg ch) []) d)\<lparr>d_fs := f1\<rparr>)"
      using read by (simp add: send_file_loop.simps [of sid ch h d] on_fs_def)
    moreover have "remaining h (d_fs d) = []" "fs_files f1 = fs_files (d_fs d)" using ok True by blast+
    ultimately show ?thesis by (intro exI [of _ "[]"] exI [of _ f1] conjI) simp_all
  next
    case False
    let ?d = "after_sends [file_data_msg ch got] (d\<lparr>d_fs := f1\<rparr>)"
    have "length (remaining h (d_fs ?d)) < length (remaining h (d_fs d))" using ok False by simp
    moreover have "link_up sid ?d" "h < length (fs_handles (d_fs ?d))"
      "\<forall>m. ReadError m \<notin> set (fs_reads (d_fs ?d))"
      using less.prems ok read by auto
    ultimately obtain chunks f' where rest:
      "send_file_loop sid ch h ?d = (Inr True, (after_sends (map (file_data_msg ch) chunks) ?d)\<lparr>d_fs := f'\<rparr>)"
      "concat chunks = remaining h f1" "\<forall>c \<in> set chunks. c \<noteq> [] \<and> length c \<le> MAX_SIZE_IOBUF"
      "fs_files f' = fs_files f1"
      using less.hyps [of ?d] by auto
    have "send_file_loop sid ch h d = send_file_loop sid ch h ?d"
      using read False less.prems(1)
      by (simp add: send_file_loop.simps [of sid ch h d] on_fs_def send_shared_up)
    also have "\<dots> = (Inr True, (after_sends (map (file_data_msg ch) (got # chunks)) d)\<lparr>d_fs := f'\<rparr>)"
      using rest(1) by (simp add: after_sends_def sent_bytes_def)
    finally have "send_file_loop sid ch h d
        = (Inr True, (after_sends (map (file_data_msg ch) (got # chunks)) d)\<lparr>d_fs := f'\<rparr>)" .
    moreover have "concat (got # chunks) = remaining h (d_fs d)"
      "fs_files f' = fs_files (d_fs d)" "length got \<le> MAX_SIZE_IOBUF"
      using ok rest(2,4) by simp_all
    ultimately show ?thesis
      using rest(3) False by (intro exI [of _ "got # chunks"] exI [of _ f'] conjI) simp_all
  qed
qed

definition download_check :: "u32 \<Rightarrow> string \<Rightarrow> nat \<Rightarrow> task_message" where
  "download_check ch path n = file_msg ch FileCheck (serialize_transfer_config
     (transfer_config_default\<lparr>tc_path := path, tc_file_size := of_nat n\<rparr>))"

lemma download_complete:
  assumes "link_up sid d" "parse_file_paths p0 = Some (path, local)"
    and "fs_deny (d_fs d) path = None" "fs_files (d_fs d) path = Some c"
    and "\<forall>m. ReadError m \<notin> set (fs_reads (d_fs d))"
  shows "\<exists>d' chunks. file_tasks sid [file_msg ch FileRecvInit p0, file_msg ch FileBegin p1] d = (Inr (), d')
    \<and> concat chunks = c \<and> (\<forall>b \<in> set chunks. b \<noteq> [] \<and> length b \<le> MAX_SIZE_IOBUF)
    \<and> fs_files (d_fs d') = fs_files (d_fs d)
    \<and> d_tasks d' = (d_tasks d)((sid, ch) := None)
    \<and> sent_bytes d' = sent_bytes d @ concat (map concat_pack ([download_check ch path (length c)]
        @ map (file_data_msg ch) chunks @ [file_msg ch FileFinish [], close_msg ch]))"
proof -
  define st where "st = \<lparr>ft_session_id = sid, ft_channel_id = ch, ft_local_path = path,
    ft_remote_path = path, ft_file = None, ft_total_size = of_nat (length c), ft_received_size = 0,
    ft_direction = TransferRecv\<rparr>"
  define d1 where "d1 = (after_sends [download_check ch path (length c)] d)\<lparr>d_tasks := (d_tasks d)((sid, ch) \<mapsto> st)\<rparr>"
  have init: "handle_file_task (file_msg ch FileRecvInit p0) sid d = (Inr (), d1)"
    using assms
    by (simp add: handler_eval handle_file_recv_init_def file_len_def)
      (simp add: d1_def st_def download_check_def file_msg_def after_sends_def sent_bytes_def)
  let ?h = "length (fs_handles (d_fs d))"
  let ?f = "(d_fs d)\<lparr>fs_handles := fs_handles (d_fs d) @ [(path, 0)]\<rparr>"
  let ?d = "d1\<lparr>d_fs := ?f\<rparr>"
  have fs: "d_fs d1 = d_fs d" "link_up sid ?d" using assms(1) by (simp_all add: d1_def link_up_def)
      (simp add: after_sends_def get_session_cipher_def)
  have rem: "remaining ?h (d_fs ?d) = c"
    using assms(4) by (simp add: remaining_def contents_def nth_append)
  obtain chunks f' where loop: "send_file_loop sid ch ?h ?d
      = (Inr True, (after_sends (map (file_data_msg ch) chunks) ?d)\<lparr>d_fs := f'\<rparr>)"
    "concat chunks = c" "\<forall>b \<in> set chunks. b \<noteq> [] \<and> length b \<le> MAX_SIZE_IOBUF"
    "fs_files f' = fs_files (d_fs d)"
    using send_file_loop_complete [OF fs(2), of ?h ch] assms(5) rem by auto
  let ?d2 = "(after_sends (map (file_data_msg ch) chunks) ?d)\<lparr>d_fs := f'\<rparr>"
  let ?d3 = "(after_sends [file_msg ch FileFinish [], close_msg ch] ?d2)\<lparr>d_tasks := (d_tasks d)((sid, ch) := None)\<rparr>"
  have up2: "link_up sid ?d2" using fs(2) by simp
  have "handle_file_task (file_msg ch FileBegin p1) sid d1 = (Inr (), ?d3)"
    using assms(3,4) loop(1) up2 fs(1)
    by (simp add: handler_eval handle_file_begin_def handle_daemon_file_send_def file_open_def d1_def st_def file_msg_def)
  with init have "file_tasks sid [file_msg ch FileRecvInit p0, file_msg ch FileBegin p1] d = (Inr (), ?d3)"
    by (simp add: file_tasks_simps io_bind_def)
  moreover have "sent_bytes ?d3 = sent_bytes d @ concat (map concat_pack ([download_check ch path (length c)]
        @ map (file_data_msg ch) chunks @ [file_msg ch FileFinish [], close_msg ch]))"
    by (simp add: d1_def)
  ultimately show ?thesis
    using loop by (intro exI [of _ ?d3] exI [of _ chunks]) auto
qed

end
