(* ===== verification/Daemon_App.thy ===== *)
theory Daemon_App
  imports Daemon_File
begin

text \<open>
  Application installation (\<open>hdcd/src/app.rs\<close>) and the flashing stub (\<open>hdcd/src/flashd.rs\<close>) of
  the daemon, on Linux. An installation uses the task table of the file transfers; its target is
  a file in the temporary directory, named after the last component of the path the host sends.
\<close>

section \<open>Installation\<close>

definition INSTALL_TMP_DIR :: string where "INSTALL_TMP_DIR = ''/data/local/tmp/''"

definition parse_app_path :: "bytes \<Rightarrow> string option" where
  "parse_app_path payload =
    (let parts = split_on CHR '' '' (from_utf8_lossy payload) in
     if length parts < 2 then None
     else
       let idx = (if 1 + 1 < length parts \<and> parts ! 1 = ''-cwd'' then 1 + 2 else 1) in
       if idx < length parts then Some (parts ! idx) else None)"

definition app_tmp_path :: "string \<Rightarrow> string" where
  "app_tmp_path app_path =
    INSTALL_TMP_DIR @ (case path_file_name app_path of Some n \<Rightarrow> n | None \<Rightarrow> ''app.hap'')"

definition handle_app_init :: "task_message \<Rightarrow> u32 \<Rightarrow> (daemon, unit) io" where
  "handle_app_init msg session_id =
    (case parse_app_path (tm_payload msg) of
       None \<Rightarrow> echo_client session_id (tm_channel_id msg) ''Missing app path'' LevelFail
     | Some app_path \<Rightarrow>
         io_bind (file_map_put session_id (tm_channel_id msg)
           \<lparr>ft_session_id = session_id, ft_channel_id = tm_channel_id msg, ft_local_path = app_path,
            ft_remote_path = app_tmp_path app_path, ft_file = None, ft_total_size = 0,
            ft_received_size = 0, ft_direction = TransferSend\<rparr>) (\<lambda>_.
         send_shared session_id \<lparr>tm_channel_id = tm_channel_id msg, tm_command = AppCheck,
           tm_payload = as_bytes (app_tmp_path app_path)\<rparr>))"

definition handle_app_check :: "task_message \<Rightarrow> u32 \<Rightarrow> (daemon, unit) io" where
  "handle_app_check msg session_id =
    send_shared session_id \<lparr>tm_channel_id = tm_channel_id msg, tm_command = AppBegin, tm_payload = []\<rparr>"

definition handle_app_begin :: "task_message \<Rightarrow> u32 \<Rightarrow> (daemon, unit) io" where
  "handle_app_begin msg session_id =
    io_bind (file_map_get session_id (tm_channel_id msg)) (\<lambda>st.
    case st of
      None \<Rightarrow> echo_client session_id (tm_channel_id msg) ''App install not initialized'' LevelFail
    | Some state \<Rightarrow>
        io_match (on_fs (file_create (ft_remote_path state)))
          (\<lambda>e. echo_client session_id (tm_channel_id msg) (''Failed to create temp file: '' @ err_message e) LevelFail)
          (\<lambda>file. file_map_put session_id (tm_channel_id msg) (state\<lparr>ft_file := Some file\<rparr>)))"

definition handle_app_data :: "task_message \<Rightarrow> u32 \<Rightarrow> (daemon, unit) io" where
  "handle_app_data msg session_id =
    io_bind (file_map_get session_id (tm_channel_id msg)) (\<lambda>st.
    case st of
      None \<Rightarrow> echo_client session_id (tm_channel_id msg) ''App install not initialized'' LevelFail
    | Some state \<Rightarrow>
        (case ft_file state of
           None \<Rightarrow> file_map_put session_id (tm_channel_id msg) state
         | Some file \<Rightarrow>
             io_match (on_fs (file_write_all file (tm_payload msg)))
               (\<lambda>e. echo_client session_id (tm_channel_id msg) (''Write failed: '' @ err_message e) LevelFail)
               (\<lambda>_. file_map_put session_id (tm_channel_id msg)
                  (state\<lparr>ft_received_size := ft_received_size state + of_nat (length (tm_payload msg))\<rparr>))))"

text \<open>
  The report on a finished \<open>bm\<close> command, which installing and uninstalling share: the output
  and the error output if there is any, then the verdict.
\<close>

definition report_command :: "u32 \<Rightarrow> u32 \<Rightarrow> string \<Rightarrow> string \<Rightarrow> proc_result \<Rightarrow> (daemon, unit) io" where
  "report_command session_id channel_id failed command_failed r =
    (case r of
       ProcOutput out err success \<Rightarrow>
         io_bind (if from_utf8_lossy out \<noteq> [] then echo_client session_id channel_id (from_utf8_lossy out) LevelInfo
                  else io_return ()) (\<lambda>_.
         io_bind (if from_utf8_lossy err \<noteq> [] then echo_client session_id channel_id (from_utf8_lossy err) LevelFail
                  else io_return ()) (\<lambda>_.
         if success then echo_client session_id channel_id ''AppMod finish'' LevelOk
         else echo_client session_id channel_id failed LevelFail))
     | ProcFailed e \<Rightarrow> echo_client session_id channel_id (command_failed @ e) LevelFail)"

definition handle_app_finish :: "task_message \<Rightarrow> u32 \<Rightarrow> (daemon, unit) io" where
  "handle_app_finish msg session_id =
    io_bind (file_map_get session_id (tm_channel_id msg)) (\<lambda>st.
    case st of
      None \<Rightarrow> echo_client session_id (tm_channel_id msg) ''App install not initialized'' LevelFail
    | Some state \<Rightarrow>
        io_bind (file_map_remove session_id (tm_channel_id msg)) (\<lambda>_.
        io_bind (run_command ''bm'' [''install'', ''-p'', ft_remote_path state]) (\<lambda>r.
        io_bind (report_command session_id (tm_channel_id msg) ''Install failed'' ''Install command failed: '' r) (\<lambda>_.
        send_shared session_id (close_msg (tm_channel_id msg))))))"

definition handle_app_uninstall :: "task_message \<Rightarrow> u32 \<Rightarrow> (daemon, unit) io" where
  "handle_app_uninstall msg session_id =
    io_bind (run_command ''bm'' [''uninstall'', ''-n'', trim (from_utf8_lossy (tm_payload msg))]) (\<lambda>r.
    io_bind (report_command session_id (tm_channel_id msg) ''Uninstall failed'' ''Uninstall command failed: '' r) (\<lambda>_.
    send_shared session_id (close_msg (tm_channel_id msg))))"

definition handle_app_task :: "task_message \<Rightarrow> u32 \<Rightarrow> (daemon, unit) io" where
  "handle_app_task msg session_id =
    (case tm_command msg of
       AppInit \<Rightarrow> handle_app_init msg session_id
     | AppCheck \<Rightarrow> handle_app_check msg session_id
     | AppBegin \<Rightarrow> handle_app_begin msg session_id
     | AppData \<Rightarrow> handle_app_data msg session_id
     | AppFinish \<Rightarrow> handle_app_finish msg session_id
     | AppUninstall \<Rightarrow> handle_app_uninstall msg session_id
     | _ \<Rightarrow> io_return ())"

section \<open>Flashing stub\<close>

definition flashd_done :: "u32 \<Rightarrow> task_message" where
  "flashd_done channel_id = \<lparr>tm_channel_id = channel_id, tm_command = FlashdFinish,
     tm_payload = [0, level_u8 LevelOk] @ as_bytes ''flashd stub completed''\<rparr>"

definition handle_flashd_task :: "task_message \<Rightarrow> u32 \<Rightarrow> (daemon, unit) io" where
  "handle_flashd_task msg session_id =
    (case tm_command msg of
       FlashdCheck \<Rightarrow>
         send_shared session_id \<lparr>tm_channel_id = tm_channel_id msg, tm_command = FlashdBegin, tm_payload = []\<rparr>
     | FlashdData \<Rightarrow> io_return ()
     | FlashdFinish \<Rightarrow>
         if tm_payload msg \<noteq> [] \<and> hd (tm_payload msg) = 1
         then send_shared session_id (flashd_done (tm_channel_id msg)) else io_return ()
     | FlashdErase \<Rightarrow> send_shared session_id (flashd_done (tm_channel_id msg))
     | FlashdFormat \<Rightarrow> send_shared session_id (flashd_done (tm_channel_id msg))
     | FlashdProgress \<Rightarrow> io_return ()
     | _ \<Rightarrow> io_return ())"

section \<open>Properties\<close>

text \<open>The target of an installation lies directly in the temporary directory.\<close>

lemma app_tmp_path_safe:
  "\<exists>n. app_tmp_path p = INSTALL_TMP_DIR @ n \<and> n \<noteq> [] \<and> CHR ''/'' \<notin> set n \<and> n \<noteq> ''.'' \<and> n \<noteq> ''..''"
proof (cases "path_file_name p")
  case (Some n)
  then show ?thesis using path_file_name_safe [OF Some] by (auto simp: app_tmp_path_def)
qed (auto simp: app_tmp_path_def)

lemma keeps_report_command [intro, simp]:
  "keeps d_tasks (report_command sid ch a b r)" "keeps d_fs (report_command sid ch a b r)"
  "keeps d_forward (report_command sid ch a b r)" "keeps d_runs (report_command sid ch a b r)"
  by (auto simp: report_command_def split: proc_result.splits intro!: keeps_rules)

lemma keeps_handle_app_task:
  assumes "k \<noteq> (sid, tm_channel_id msg)"
  shows "keeps (\<lambda>d. d_tasks d k) (handle_app_task msg sid)"
proof -
  have "keeps (\<lambda>d. d_tasks d k) (handle_app_init msg sid)"
    "keeps (\<lambda>d. d_tasks d k) (handle_app_check msg sid)"
    "keeps (\<lambda>d. d_tasks d k) (handle_app_begin msg sid)"
    "keeps (\<lambda>d. d_tasks d k) (handle_app_data msg sid)"
    "keeps (\<lambda>d. d_tasks d k) (handle_app_finish msg sid)"
    "keeps (\<lambda>d. d_tasks d k) (handle_app_uninstall msg sid)"
    using assms
    unfolding handle_app_init_def handle_app_check_def handle_app_begin_def handle_app_data_def
      handle_app_finish_def handle_app_uninstall_def
    by ((intro keeps_rules)?; auto)+
  then show ?thesis by (cases "tm_command msg") (simp_all add: handle_app_task_def)
qed

text \<open>The flashing stub answers and changes nothing else.\<close>

lemma keeps_flashd [intro, simp]:
  "keeps d_tasks (handle_flashd_task msg sid)" "keeps d_fs (handle_flashd_task msg sid)"
  "keeps d_runs (handle_flashd_task msg sid)" "keeps d_forward (handle_flashd_task msg sid)"
  by (cases "tm_command msg"; auto simp: handle_flashd_task_def intro!: keeps_rules)+

section \<open>A whole installation\<close>

definition app_tasks :: "u32 \<Rightarrow> task_message list \<Rightarrow> (daemon, unit) io" where
  "app_tasks sid ms = io_all (map (\<lambda>m. handle_app_task m sid) ms)"

text \<open>The messages that report on a finished command.\<close>

definition command_report :: "u32 \<Rightarrow> string \<Rightarrow> string \<Rightarrow> proc_result \<Rightarrow> task_message list" where
  "command_report ch failed command_failed r =
    (case r of
       ProcOutput out err success \<Rightarrow>
         (if from_utf8_lossy out = [] then [] else [echo_msg_of ch (from_utf8_lossy out) LevelInfo])
         @ (if from_utf8_lossy err = [] then [] else [echo_msg_of ch (from_utf8_lossy err) LevelFail])
         @ [if success then echo_msg_of ch ''AppMod finish'' LevelOk else echo_msg_of ch failed LevelFail]
     | ProcFailed e \<Rightarrow> [echo_msg_of ch (command_failed @ e) LevelFail])"

lemma report_command_up:
  "link_up sid d \<Longrightarrow> report_command sid ch a b r d = (Inr (), after_sends (command_report ch a b r) d)"
  by (cases r) (simp_all add: report_command_def command_report_def io_bind_def echo_client_up)

text \<open>On an open transfer the data handlers of the two task kinds do the same.\<close>

lemma app_data_as_file_data:
  assumes "upload_open sid ch path d"
  shows "handle_app_task (file_msg ch AppData data) sid d = handle_file_task (file_msg ch FileData data) sid d"
  using assms
  by (auto simp: upload_open_def handle_app_task_def handle_file_task_def handle_app_data_def
      handle_file_data_def io_bind_def file_map_get_def)

lemma app_chunks:
  "upload_open sid ch path d \<Longrightarrow> fs_writes (d_fs d) = [] \<Longrightarrow>
    app_tasks sid (map (file_msg ch AppData) chunks) d = file_tasks sid (map (file_msg ch FileData) chunks) d"
proof (induction chunks arbitrary: d)
  case (Cons c chunks)
  obtain d1 where d1: "handle_file_task (file_msg ch FileData c) sid d = (Inr (), d1)"
    "upload_open sid ch path d1" "fs_writes (d_fs d1) = []"
    using upload_chunk [OF Cons.prems] by blast
  then show ?case
    using Cons.IH [OF d1(2,3)] app_data_as_file_data [OF Cons.prems(1)]
    by (simp add: app_tasks_def file_tasks_def io_bind_def)
qed (simp add: app_tasks_def file_tasks_def)

lemma app_start:
  assumes "link_up sid d" "parse_app_path p0 = Some path"
    and "fs_deny (d_fs d) (app_tmp_path path) = None" "fs_writes (d_fs d) = []"
  shows "\<exists>d'. app_tasks sid [file_msg ch AppInit p0, file_msg ch AppBegin p1] d = (Inr (), d')
    \<and> upload_open sid ch (app_tmp_path path) d' \<and> fs_writes (d_fs d') = []
    \<and> contents (d_fs d') (app_tmp_path path) = []
    \<and> (\<forall>p. p \<noteq> app_tmp_path path \<longrightarrow> fs_files (d_fs d') p = fs_files (d_fs d) p)
    \<and> (\<forall>k. k \<noteq> (sid, ch) \<longrightarrow> d_tasks d' k = d_tasks d k)
    \<and> link_up sid d' \<and> d_procs d' = d_procs d \<and> d_runs d' = d_runs d
    \<and> (\<exists>st. d_tasks d' (sid, ch) = Some st \<and> ft_remote_path st = app_tmp_path path)
    \<and> sent_bytes d' = sent_bytes d @ concat_pack (file_msg ch AppCheck (as_bytes (app_tmp_path path)))"
proof -
  define st where "st = \<lparr>ft_session_id = sid, ft_channel_id = ch, ft_local_path = path,
    ft_remote_path = app_tmp_path path, ft_file = Some (length (fs_handles (d_fs d))),
    ft_total_size = 0, ft_received_size = 0, ft_direction = TransferSend\<rparr>"
  define d' where "d' = (after_sends [file_msg ch AppCheck (as_bytes (app_tmp_path path))] d)
    \<lparr>d_tasks := (d_tasks d)((sid, ch) \<mapsto> st),
     d_fs := (d_fs d)\<lparr>fs_files := (fs_files (d_fs d))(app_tmp_path path \<mapsto> []),
       fs_handles := fs_handles (d_fs d) @ [(app_tmp_path path, 0)]\<rparr>\<rparr>"
  have "app_tasks sid [file_msg ch AppInit p0, file_msg ch AppBegin p1] d = (Inr (), d')"
    using assms
    by (simp add: app_tasks_def handler_eval handle_app_task_def handle_app_init_def handle_app_begin_def
        file_create_def)
      (simp add: d'_def st_def file_msg_def after_sends_def sent_bytes_def)
  then show ?thesis
    using assms(1,4)
    by (intro exI [of _ d'])
      (auto simp: d'_def st_def upload_open_def contents_def link_up_def sent_bytes_def after_sends_def
        get_session_cipher_def)
qed

lemma install_complete:
  assumes "link_up sid d" "parse_app_path p0 = Some path"
    and "fs_deny (d_fs d) (app_tmp_path path) = None" "fs_writes (d_fs d) = []"
    and "d_procs d = r # rs"
  shows "\<exists>d'. app_tasks sid ([file_msg ch AppInit p0, file_msg ch AppBegin p1]
        @ map (file_msg ch AppData) chunks @ [file_msg ch AppFinish p2]) d = (Inr (), d')
    \<and> fs_files (d_fs d') = (fs_files (d_fs d))(app_tmp_path path \<mapsto> concat chunks)
    \<and> d_runs d' = d_runs d @ [(''bm'', [''install'', ''-p'', app_tmp_path path])]
    \<and> d_tasks d' = (d_tasks d)((sid, ch) := None)
    \<and> sent_bytes d' = sent_bytes d @ concat (map concat_pack
        (file_msg ch AppCheck (as_bytes (app_tmp_path path))
         # command_report ch ''Install failed'' ''Install command failed: '' r @ [close_msg ch]))"
proof -
  let ?p = "app_tmp_path path"
  obtain d1 st where d1: "app_tasks sid [file_msg ch AppInit p0, file_msg ch AppBegin p1] d = (Inr (), d1)"
    "upload_open sid ch ?p d1" "fs_writes (d_fs d1) = []" "contents (d_fs d1) ?p = []" "link_up sid d1"
    "\<forall>p. p \<noteq> ?p \<longrightarrow> fs_files (d_fs d1) p = fs_files (d_fs d) p"
    "\<forall>k. k \<noteq> (sid, ch) \<longrightarrow> d_tasks d1 k = d_tasks d k"
    "d_procs d1 = r # rs" "d_runs d1 = d_runs d" "d_tasks d1 (sid, ch) = Some st" "ft_remote_path st = ?p"
    "sent_bytes d1 = sent_bytes d @ concat_pack (file_msg ch AppCheck (as_bytes ?p))"
    using app_start [OF assms(1-4), of ch p1] unfolding assms(5) by blast
  obtain d2 where d2: "app_tasks sid (map (file_msg ch AppData) chunks) d1 = (Inr (), d2)"
    "upload_open sid ch ?p d2" "d_link d2 = d_link d1"
    "contents (d_fs d2) ?p = concat chunks"
    "\<forall>p. p \<noteq> ?p \<longrightarrow> fs_files (d_fs d2) p = fs_files (d_fs d1) p"
    "\<forall>k. k \<noteq> (sid, ch) \<longrightarrow> d_tasks d2 k = d_tasks d1 k" "d_procs d2 = r # rs" "d_runs d2 = d_runs d"
    "map_option ft_remote_path (d_tasks d2 (sid, ch)) = Some ?p"
    using upload_chunks [OF d1(2,3), of chunks, folded app_chunks [OF d1(2,3)]]
    unfolding d1(4,8,9,10) option.map(2) d1(11) append_Nil by blast
  then obtain st2 where st2: "d_tasks d2 (sid, ch) = Some st2" "ft_remote_path st2 = ?p" by auto
  let ?d = "after_sends (command_report ch ''Install failed'' ''Install command failed: '' r @ [close_msg ch])
    (d2\<lparr>d_tasks := (d_tasks d2)((sid, ch) := None), d_procs := rs,
       d_runs := d_runs d2 @ [(''bm'', [''install'', ''-p'', ?p])]\<rparr>)"
  have up: "link_up sid d2" "sent_bytes d2 = sent_bytes d1"
    using d1(5) d2(3) by (simp_all add: link_up_def sent_bytes_def)
  have "handle_app_task (file_msg ch AppFinish p2) sid d2 = (Inr (), ?d)"
    using st2 up(1) d2(7)
    by (simp add: handler_eval handle_app_task_def handle_app_finish_def run_command_def report_command_up)
  then have "app_tasks sid ([file_msg ch AppInit p0, file_msg ch AppBegin p1]
        @ map (file_msg ch AppData) chunks @ [file_msg ch AppFinish p2]) d = (Inr (), ?d)"
    using d1(1) d2(1) unfolding app_tasks_def map_append io_all_append
    by (simp add: io_all_append io_bind_def)
  moreover have "fs_files (d_fs d2) = (fs_files (d_fs d))(?p \<mapsto> concat chunks)"
  proof
    fix p
    have "fs_files (d_fs d2) ?p \<noteq> None" using d2(2) by (auto simp: upload_open_def)
    then show "fs_files (d_fs d2) p = ((fs_files (d_fs d))(?p \<mapsto> concat chunks)) p"
      using d1(6) d2(4,5) by (cases "p = ?p") (auto simp: contents_def)
  qed
  ultimately show ?thesis
    using d1(7,12) d2(6,8) up(2) by (intro exI [of _ ?d]) (auto simp: fun_eq_iff)
qed

end
