(* ===== verification/Daemon_Forward.thy ===== *)
theory Daemon_Forward
  imports Daemon_Core
begin

text \<open>
  Port forwarding on the daemon (\<open>hdcd/src/forward.rs\<close>), on Linux. The handler layer works on the
  forward state of the daemon. The tasks it starts are modelled on their own inputs: the bridge from
  a remote socket to the host, the writer that drains a queue into a socket, the reverse listener as
  a state machine over the events it waits for, and a reverse connection. The random numbers the
  source draws are arguments.
\<close>

section \<open>Endpoints\<close>

definition on_forward :: "(forward_state \<Rightarrow> forward_state) \<Rightarrow> (daemon, unit) io" where
  "on_forward f d = (Inr (), d\<lparr>d_forward := f (d_forward d)\<rparr>)"

text \<open>One attempt to connect or bind: the next answer of the operating system.\<close>

definition os_attempt :: "os_call \<Rightarrow> (daemon, unit) io" where
  "os_attempt c d =
    (let w = d_forward d; d' = d\<lparr>d_forward := w\<lparr>fw_os := tl (fw_os w), fw_calls := fw_calls w @ [c]\<rparr>\<rparr>
     in case fw_os w of Some e # _ \<Rightarrow> (Inl e, d') | _ \<Rightarrow> (Inr (), d'))"

definition parse_null_terminated :: "bytes \<Rightarrow> string" where
  "parse_null_terminated data = from_utf8_lossy (takeWhile (\<lambda>b. b \<noteq> 0) data)"

text \<open>\<open>target.parse::<u16>()\<close> with the error of the callers.\<close>

definition parse_port :: "string \<Rightarrow> nat io_result" where
  "parse_port target =
    (case parse_uint_res 65535 target of
       Inl e \<Rightarrow> Inl (Error InvalidInput (''Invalid port: '' @ e))
     | Inr port \<Rightarrow> Inr port)"

text \<open>The length of \<open>sun_path\<close> is 108, of which the first byte is the zero of an abstract name.\<close>

definition name_too_long :: io_error where
  "name_too_long = Error InvalidInput ''abstract socket name too long''"

definition connect_abstract_socket :: "string \<Rightarrow> (daemon, endpoint) io" where
  "connect_abstract_socket name =
    (if 108 - 1 < length name then io_fail name_too_long
     else io_bind (os_attempt (ConnectTo (AbstractSocket name))) (\<lambda>_. io_return (AbstractSocket name)))"

definition listen_abstract_socket :: "string \<Rightarrow> (daemon, endpoint) io" where
  "listen_abstract_socket name =
    (if 108 - 1 < length name then io_fail name_too_long
     else io_bind (os_attempt (BindTo (AbstractSocket name))) (\<lambda>_. io_return (AbstractSocket name)))"

definition check_remote_reachable :: "string \<Rightarrow> (daemon, unit) io" where
  "check_remote_reachable spec =
    (case split_once CHR '':'' spec of
       None \<Rightarrow> io_fail (Error InvalidInput (''Invalid remote spec: '' @ spec))
     | Some (proto, target) \<Rightarrow>
         if proto = ''tcp'' then
           io_bind (io_lift (parse_port target)) (\<lambda>port. os_attempt (ConnectTo (TcpPort port)))
         else if proto = ''localabstract'' then
           io_bind (connect_abstract_socket target) (\<lambda>_. io_return ())
         else io_fail (Error InvalidInput (''Unsupported forward proto: '' @ proto)))"

definition connect_remote :: "string \<Rightarrow> (daemon, endpoint) io" where
  "connect_remote spec =
    (case split_once CHR '':'' spec of
       None \<Rightarrow> io_fail (Error InvalidInput (''Invalid remote spec: '' @ spec))
     | Some (proto, target) \<Rightarrow>
         if proto = ''tcp'' then
           io_bind (io_lift (parse_port target)) (\<lambda>port.
           io_bind (os_attempt (ConnectTo (TcpPort port))) (\<lambda>_. io_return (TcpPort port)))
         else if proto = ''localabstract'' then connect_abstract_socket target
         else io_fail (Error InvalidInput (''Unsupported forward proto: '' @ proto)))"

definition start_listener :: "string \<Rightarrow> (daemon, endpoint) io" where
  "start_listener spec =
    (case split_once CHR '':'' spec of
       None \<Rightarrow> io_fail (Error InvalidInput (''Invalid forward spec: '' @ spec))
     | Some (proto, target) \<Rightarrow>
         if proto = ''tcp'' then
           io_bind (io_lift (parse_port target)) (\<lambda>port.
           io_bind (os_attempt (BindTo (TcpPort port))) (\<lambda>_. io_return (TcpPort port)))
         else if proto = ''localabstract'' then listen_abstract_socket target
         else if proto = ''localfilesystem'' then
           io_bind (os_attempt (BindTo (UnixPath target))) (\<lambda>_. io_return (UnixPath target))
         else if proto = ''localreserved'' then
           let path = ''/dev/unix/socket/'' @ target in
           io_match (on_fs (file_remove path))
             (\<lambda>_. io_bind (os_attempt (BindTo (UnixPath path))) (\<lambda>_. io_return (UnixPath path)))
             (\<lambda>_. io_bind (os_attempt (BindTo (UnixPath path))) (\<lambda>_. io_return (UnixPath path)))
         else io_fail (Error InvalidInput (''Unsupported rport listener proto: '' @ proto)))"

section \<open>Messages\<close>

text \<open>A context number, eight zero bytes and a zero-terminated text.\<close>

definition spec_payload :: "u32 \<Rightarrow> string \<Rightarrow> bytes" where
  "spec_payload ctx_id spec = to_be 4 ctx_id @ replicate 8 0 @ as_bytes spec @ [0]"

definition check_result_payload :: "u32 \<Rightarrow> u8 \<Rightarrow> bytes" where
  "check_result_payload ctx_id flag = ((to_be 4 ctx_id @ replicate 9 0)[12 := flag])"

definition forward_data_msg :: "u32 \<Rightarrow> u32 \<Rightarrow> bytes \<Rightarrow> task_message" where
  "forward_data_msg channel_id forward_id data =
    \<lparr>tm_channel_id = channel_id, tm_command = ForwardData, tm_payload = to_be 4 forward_id @ data\<rparr>"

definition free_context_msg :: "u32 \<Rightarrow> u32 \<Rightarrow> task_message" where
  "free_context_msg channel_id forward_id =
    \<lparr>tm_channel_id = channel_id, tm_command = ForwardFreeContext, tm_payload = to_be 4 forward_id\<rparr>"

text \<open>The context number at the front of a payload.\<close>

definition ctx_of :: "bytes \<Rightarrow> u32" where
  "ctx_of payload = from_be (take 4 payload)"

section \<open>Handlers\<close>

definition handle_channel_close :: "u32 \<Rightarrow> (daemon, bool) io" where
  "handle_channel_close channel_id d =
    (let w = d_forward d;
         listener = fw_rport w channel_id;
         w1 = (case listener of
                 None \<Rightarrow> w
               | Some _ \<Rightarrow> w\<lparr>fw_rport := (fw_rport w)(channel_id := None),
                              fw_aborted := fw_aborted w @ [channel_id]\<rparr>);
         before = length (fw_fport w1);
         kept = hm_retain (\<lambda>_ conn. fc_channel_id conn \<noteq> channel_id) (fw_fport w1)
     in (Inr (listener \<noteq> None \<or> length kept \<noteq> before), d\<lparr>d_forward := w1\<lparr>fw_fport := kept\<rparr>\<rparr>))"

text \<open>
  What a message to a channel with a reverse listener becomes: \<open>None\<close> when it is not for the
  listener, \<open>Some None\<close> when it is dropped as too short.
\<close>

definition rport_route :: "task_message \<Rightarrow> rport_msg option option" where
  "rport_route msg =
    (let p = tm_payload msg in
     case tm_command msg of
       ForwardCheckResult \<Rightarrow> Some (if 5 \<le> length p then Some (CheckResult (ctx_of p) (p ! 4 \<noteq> 0)) else None)
     | ForwardActiveMaster \<Rightarrow> Some (if 4 \<le> length p then Some (ActiveMaster (ctx_of p)) else None)
     | ForwardData \<Rightarrow> Some (if 4 \<le> length p then Some (RportData (ctx_of p) (drop 4 p)) else None)
     | ForwardFreeContext \<Rightarrow> Some (if 4 \<le> length p then Some (FreeContext (ctx_of p)) else None)
     | _ \<Rightarrow> None)"

definition handle_rport_init :: "task_message \<Rightarrow> u32 \<Rightarrow> (daemon, unit) io" where
  "handle_rport_init msg session_id =
    (let parts = split_whitespace (from_utf8_lossy (tm_payload msg)) in
     if length parts < 2 then
       echo_client session_id (tm_channel_id msg)
         ''Invalid rport parameters, expected: remote_spec local_spec'' LevelFail
     else
       let remote_spec = parts ! 0; local_spec = parts ! 1 in
       io_match (start_listener remote_spec)
         (\<lambda>e. echo_client session_id (tm_channel_id msg)
            (''Failed to bind '' @ remote_spec @ '': '' @ err_message e) LevelFail)
         (\<lambda>listener. on_forward (\<lambda>w. w
            \<lparr>fw_spawned := fw_spawned w @ [RportListener (tm_channel_id msg) remote_spec local_spec listener],
             fw_rport := (fw_rport w)(tm_channel_id msg \<mapsto> [])\<rparr>)))"

definition handle_forward_check :: "task_message \<Rightarrow> u32 \<Rightarrow> (daemon, unit) io" where
  "handle_forward_check msg session_id =
    (if length (tm_payload msg) < 12 + 1 then io_return ()
     else
       let ctx_id = ctx_of (tm_payload msg);
           remote_spec = parse_null_terminated (drop 12 (tm_payload msg));
           answer = (\<lambda>flag. send_shared session_id
             \<lparr>tm_channel_id = tm_channel_id msg, tm_command = ForwardCheckResult,
              tm_payload = check_result_payload ctx_id flag\<rparr>)
       in io_match (check_remote_reachable remote_spec) (\<lambda>_. answer 0) (\<lambda>_. answer 1))"

definition handle_active_slave :: "task_message \<Rightarrow> u32 \<Rightarrow> (daemon, unit) io" where
  "handle_active_slave msg session_id =
    (if length (tm_payload msg) < 12 + 1 then io_return ()
     else
       let forward_id = ctx_of (tm_payload msg);
           remote_spec = parse_null_terminated (drop 12 (tm_payload msg))
       in io_match (connect_remote remote_spec)
            (\<lambda>_. io_match (send_shared session_id (free_context_msg (tm_channel_id msg) forward_id))
                    (\<lambda>_. io_return ()) (\<lambda>_. io_return ()))
            (\<lambda>stream. io_bind (on_forward (\<lambda>w. w
                 \<lparr>fw_fport := hm_insert forward_id \<lparr>fc_channel_id = tm_channel_id msg, fc_sent = []\<rparr> (fw_fport w),
                  fw_spawned := fw_spawned w @ [BridgeTasks forward_id (tm_channel_id msg) stream]\<rparr>))
               (\<lambda>_. send_shared session_id \<lparr>tm_channel_id = tm_channel_id msg, tm_command = ForwardActiveMaster,
                  tm_payload = spec_payload forward_id remote_spec\<rparr>)))"

definition handle_forward_data :: "task_message \<Rightarrow> (daemon, unit) io" where
  "handle_forward_data msg =
    (if length (tm_payload msg) < 4 then io_return ()
     else on_forward (\<lambda>w. w\<lparr>fw_fport := hm_modify (ctx_of (tm_payload msg))
            (\<lambda>conn. conn\<lparr>fc_sent := fc_sent conn @ [drop 4 (tm_payload msg)]\<rparr>) (fw_fport w)\<rparr>))"

definition handle_free_context :: "task_message \<Rightarrow> (daemon, unit) io" where
  "handle_free_context msg =
    (if length (tm_payload msg) < 4 then io_return ()
     else on_forward (\<lambda>w. w\<lparr>fw_fport := hm_remove (ctx_of (tm_payload msg)) (fw_fport w)\<rparr>))"

definition forward_command :: "task_message \<Rightarrow> u32 \<Rightarrow> (daemon, unit) io" where
  "forward_command msg session_id =
    (case tm_command msg of
       ForwardInit \<Rightarrow> handle_rport_init msg session_id
     | ForwardRportInit \<Rightarrow> handle_rport_init msg session_id
     | ForwardCheck \<Rightarrow> handle_forward_check msg session_id
     | ForwardActiveSlave \<Rightarrow> handle_active_slave msg session_id
     | ForwardData \<Rightarrow> handle_forward_data msg
     | ForwardFreeContext \<Rightarrow> handle_free_context msg
     | ForwardList \<Rightarrow> echo_client session_id (tm_channel_id msg) [] LevelOk
     | ForwardRportList \<Rightarrow> echo_client session_id (tm_channel_id msg) [] LevelOk
     | ForwardRemove \<Rightarrow> echo_client session_id (tm_channel_id msg) ''Forward removed'' LevelOk
     | ForwardRportRemove \<Rightarrow> echo_client session_id (tm_channel_id msg) ''Forward removed'' LevelOk
     | ForwardSuccess \<Rightarrow> io_return ()
     | _ \<Rightarrow> echo_client session_id (tm_channel_id msg) ''Command not implemented'' LevelFail)"

definition handle_forward_task :: "task_message \<Rightarrow> u32 \<Rightarrow> (daemon, unit) io" where
  "handle_forward_task msg session_id d =
    (case fw_rport (d_forward d) (tm_channel_id msg) of
       None \<Rightarrow> forward_command msg session_id d
     | Some queue \<Rightarrow>
         (case rport_route msg of
            None \<Rightarrow> forward_command msg session_id d
          | Some None \<Rightarrow> (Inr (), d)
          | Some (Some m) \<Rightarrow>
              on_forward (\<lambda>w. w\<lparr>fw_rport := (fw_rport w)(tm_channel_id msg \<mapsto> queue @ [m])\<rparr>) d))"

section \<open>Bridge tasks\<close>

text \<open>
  From a socket to the host: each read becomes a data message, until the end of the stream, a read
  error or a send error. The same loop serves a forwarded and a reverse connection.
\<close>

function bridge_loop :: "u32 \<Rightarrow> u32 \<Rightarrow> u32 \<Rightarrow> tcp_in \<Rightarrow> daemon \<Rightarrow> tcp_in \<times> daemon" where
  "bridge_loop session_id channel_id forward_id rd d =
    (case tcp_read 4096 rd of
       (Inl _, rd') \<Rightarrow> (rd', d)
     | (Inr buf, rd') \<Rightarrow>
         if buf = [] then (rd', d)
         else (case send_shared session_id (forward_data_msg channel_id forward_id buf) d of
                 (Inl _, d') \<Rightarrow> (rd', d')
               | (Inr _, d') \<Rightarrow> bridge_loop session_id channel_id forward_id rd' d'))"
  by pat_completeness auto

lemma tcp_read_shrinks:
  "tcp_read cap s = (Inr got, s') \<Longrightarrow> got \<noteq> [] \<Longrightarrow> length (in_contents s') < length (in_contents s)"
  by (auto simp: tcp_read_def in_contents_def split: list.splits tcp_end.splits if_splits)

termination bridge_loop
  by (relation "measure (\<lambda>(_, _, _, rd, _). length (in_contents rd))")
    (auto intro: tcp_read_shrinks [OF sym])

declare bridge_loop.simps [simp del]

definition fport_remote_to_host :: "u32 \<Rightarrow> u32 \<Rightarrow> u32 \<Rightarrow> tcp_in \<Rightarrow> daemon \<Rightarrow> daemon" where
  "fport_remote_to_host session_id channel_id forward_id rd d =
    snd (send_shared session_id (free_context_msg channel_id forward_id)
      (snd (bridge_loop session_id channel_id forward_id rd d)))"

text \<open>From a queue to a socket: write until the queue is closed or a write fails.\<close>

primrec drain_queue :: "bytes list \<Rightarrow> tcp_out \<Rightarrow> tcp_out" where
  "drain_queue [] wr = wr"
| "drain_queue (data # queue) wr =
    (case tcp_write_all data wr of (Inl _, wr') \<Rightarrow> wr' | (Inr _, wr') \<Rightarrow> drain_queue queue wr')"

section \<open>Reverse listener\<close>

text \<open>
  The wait for the host's answer to the check: the messages of other contexts are skipped. The list
  is what arrives before the channel is closed.
\<close>

datatype check_wait = Checked bool | CheckShutdown

primrec wait_check :: "u32 \<Rightarrow> rport_msg list \<Rightarrow> check_wait \<times> rport_msg list" where
  "wait_check listener_id [] = (Checked False, [])"
| "wait_check listener_id (m # ms) =
    (case m of
       CheckResult ctx_id ok \<Rightarrow> if ctx_id = listener_id then (Checked ok, ms) else wait_check listener_id ms
     | Shutdown \<Rightarrow> (CheckShutdown, ms)
     | _ \<Rightarrow> wait_check listener_id ms)"

definition cleanup_rport_listener :: "u32 \<Rightarrow> daemon \<Rightarrow> daemon" where
  "cleanup_rport_listener channel_id d =
    d\<lparr>d_forward := (d_forward d)\<lparr>fw_rport := (fw_rport (d_forward d))(channel_id := None)\<rparr>\<rparr>"

text \<open>
  The opening of the listener task: the check, the wait and the confirmation. The result is the
  messages left for the accept loop, or \<open>None\<close> when the task has ended.
\<close>

definition rport_open :: "u32 \<Rightarrow> u32 \<Rightarrow> u32 \<Rightarrow> string \<Rightarrow> string \<Rightarrow> rport_msg list \<Rightarrow> daemon \<Rightarrow> rport_msg list option \<times> daemon" where
  "rport_open session_id channel_id listener_id remote_spec local_spec msgs d =
    (case send_shared session_id \<lparr>tm_channel_id = channel_id, tm_command = ForwardCheck,
            tm_payload = spec_payload listener_id local_spec\<rparr> d of
       (Inl _, d1) \<Rightarrow> (None, cleanup_rport_listener channel_id d1)
     | (Inr _, d1) \<Rightarrow>
         (case wait_check listener_id msgs of
            (Checked True, rest) \<Rightarrow>
              (Some rest, snd (send_shared session_id \<lparr>tm_channel_id = channel_id, tm_command = ForwardSuccess,
                 tm_payload = as_bytes (''0|'' @ remote_spec @ '' '' @ local_spec)\<rparr> d1))
          | (Checked False, _) \<Rightarrow> (None, cleanup_rport_listener channel_id d1)
          | (CheckShutdown, _) \<Rightarrow> (None, cleanup_rport_listener channel_id d1)))"

text \<open>
  The accept loop with its dispatcher task. \<open>rl_conns\<close> are the registered connections with what was
  sent to each so far, \<open>rl_closed\<close> the queues whose sender was dropped, the latest first, and
  \<open>rl_spawned\<close> the connection tasks started so far. The dispatcher is a task of its own: it can end
  before the loop notices it, and it goes on when the listener task is aborted.
\<close>

datatype rport_conn_msg = ConnActiveMaster | ConnData bytes | ConnShutdown

record rport_loop =
  rl_conns :: "(u32 \<times> rport_conn_msg list) list"
  rl_closed :: "(u32 \<times> rport_conn_msg list) list"
  rl_spawned :: "u32 list"
  rl_dispatching :: bool
  rl_running :: bool

definition rport_push :: "u32 \<Rightarrow> rport_conn_msg \<Rightarrow> rport_loop \<Rightarrow> rport_loop" where
  "rport_push conn_id m s = s\<lparr>rl_conns := hm_modify conn_id (\<lambda>q. q @ [m]) (rl_conns s)\<rparr>"

definition rport_drop :: "u32 \<Rightarrow> rport_loop \<Rightarrow> rport_loop" where
  "rport_drop conn_id s =
    (case map_of (rl_conns s) conn_id of
       None \<Rightarrow> s
     | Some q \<Rightarrow> s\<lparr>rl_conns := hm_remove conn_id (rl_conns s), rl_closed := (conn_id, q) # rl_closed s\<rparr>)"

definition rport_dispatch :: "rport_msg \<Rightarrow> rport_loop \<Rightarrow> rport_loop" where
  "rport_dispatch m s =
    (case m of
       Shutdown \<Rightarrow> s\<lparr>rl_dispatching := False\<rparr>
     | ActiveMaster conn_id \<Rightarrow> rport_push conn_id ConnActiveMaster s
     | RportData conn_id data \<Rightarrow> rport_push conn_id (ConnData data) s
     | FreeContext conn_id \<Rightarrow> rport_drop conn_id s
     | CheckResult _ _ \<Rightarrow> s)"

definition rport_accept :: "u32 \<Rightarrow> rport_loop \<Rightarrow> rport_loop" where
  "rport_accept conn_id s = (let s' = rport_drop conn_id s in
    s'\<lparr>rl_conns := hm_insert conn_id [] (rl_conns s'), rl_spawned := rl_spawned s' @ [conn_id]\<rparr>)"

text \<open>The end of the loop: every registered connection is told to shut down and is dropped.\<close>

definition rport_finish :: "rport_loop \<Rightarrow> rport_loop" where
  "rport_finish s = s\<lparr>rl_conns := [],
     rl_closed := map (\<lambda>(c, q). (c, q @ [ConnShutdown])) (rl_conns s) @ rl_closed s,
     rl_running := False, rl_dispatching := False\<rparr>"

datatype rport_event =
    HostMsg rport_msg | HostGone | DispatcherEnded | Accepted u32 | AcceptFailed | ConnDone u32 | Aborted

inductive rport_step :: "rport_loop \<Rightarrow> rport_event \<Rightarrow> rport_loop \<Rightarrow> bool" where
  host_msg: "rl_dispatching s \<Longrightarrow> rport_step s (HostMsg m) (rport_dispatch m s)"
| host_gone: "rl_dispatching s \<Longrightarrow> rport_step s HostGone (s\<lparr>rl_dispatching := False\<rparr>)"
| dispatcher_ended: "\<not> rl_dispatching s \<Longrightarrow> rl_running s \<Longrightarrow> rport_step s DispatcherEnded (rport_finish s)"
| accepted: "rl_running s \<Longrightarrow> rport_step s (Accepted c) (rport_accept c s)"
| accept_failed: "rl_running s \<Longrightarrow> rport_step s AcceptFailed (rport_finish s)"
| conn_done: "c \<in> set (rl_spawned s) \<Longrightarrow> rport_step s (ConnDone c) (rport_drop c s)"
| aborted: "rl_running s \<Longrightarrow> rport_step s Aborted (s\<lparr>rl_running := False\<rparr>)"

inductive_cases rport_stepE [elim!]:
  "rport_step s (HostMsg m) s'" "rport_step s HostGone s'" "rport_step s DispatcherEnded s'"
  "rport_step s (Accepted c) s'" "rport_step s AcceptFailed s'" "rport_step s (ConnDone c) s'"
  "rport_step s Aborted s'"

inductive rport_steps :: "rport_loop \<Rightarrow> rport_event list \<Rightarrow> rport_loop \<Rightarrow> bool" where
  none: "rport_steps s [] s"
| snoc: "rport_steps s evs s' \<Longrightarrow> rport_step s' e s'' \<Longrightarrow> rport_steps s (evs @ [e]) s''"

definition rport_loop_start :: rport_loop where
  "rport_loop_start =
    \<lparr>rl_conns = [], rl_closed = [], rl_spawned = [], rl_dispatching = True, rl_running = True\<rparr>"

section \<open>Reverse connection\<close>

text \<open>
  The wait for the activation. The list is what arrives within ten seconds and before the queue is
  closed.
\<close>

primrec wait_active :: "rport_conn_msg list \<Rightarrow> bool \<times> rport_conn_msg list" where
  "wait_active [] = (False, [])"
| "wait_active (m # ms) =
    (case m of ConnActiveMaster \<Rightarrow> (True, ms) | ConnShutdown \<Rightarrow> (False, ms) | ConnData _ \<Rightarrow> wait_active ms)"

primrec drain_conn :: "rport_conn_msg list \<Rightarrow> tcp_out \<Rightarrow> tcp_out" where
  "drain_conn [] wr = wr"
| "drain_conn (m # ms) wr =
    (case m of
       ConnData data \<Rightarrow>
         (case tcp_write_all data wr of (Inl _, wr') \<Rightarrow> wr' | (Inr _, wr') \<Rightarrow> drain_conn ms wr')
     | ConnShutdown \<Rightarrow> wr
     | ConnActiveMaster \<Rightarrow> drain_conn ms wr)"

text \<open>
  The connection task. \<open>msgs\<close> is its queue, \<open>rd\<close> and \<open>wr\<close> the accepted socket; the two directions
  share no state, so their interleaving does not matter.
\<close>

definition run_rport_connection :: "u32 \<Rightarrow> u32 \<Rightarrow> u32 \<Rightarrow> string \<Rightarrow> rport_conn_msg list \<Rightarrow> tcp_in \<Rightarrow> tcp_out \<Rightarrow> daemon \<Rightarrow> tcp_out \<times> daemon" where
  "run_rport_connection session_id channel_id conn_id local_spec msgs rd wr d =
    (case send_shared session_id \<lparr>tm_channel_id = channel_id, tm_command = ForwardActiveSlave,
            tm_payload = spec_payload conn_id local_spec\<rparr> d of
       (Inl _, d1) \<Rightarrow> (wr, d1)
     | (Inr _, d1) \<Rightarrow>
         (case wait_active msgs of
            (False, _) \<Rightarrow> (wr, snd (send_shared session_id (free_context_msg channel_id conn_id) d1))
          | (True, rest) \<Rightarrow>
              (drain_conn rest wr,
               snd (send_shared session_id (free_context_msg channel_id conn_id)
                 (snd (bridge_loop session_id channel_id conn_id rd d1))))))"

section \<open>Bridges deliver everything in order\<close>

lemma drain_queue_all:
  "out_faults wr = [] \<Longrightarrow> drain_queue queue wr = wr\<lparr>out_bytes := out_bytes wr @ concat queue\<rparr>"
  by (induction queue arbitrary: wr) (simp_all add: tcp_write_all_def)

text \<open>Whatever the writes do, what reaches the socket is a beginning of what was queued.\<close>

lemma drain_queue_prefix: "\<exists>n. out_bytes (drain_queue queue wr) = out_bytes wr @ take n (concat queue)"
proof (induction queue arbitrary: wr)
  case (Cons data queue)
  show ?case
  proof (cases "tcp_write_all data wr")
    case (Pair r wr')
    show ?thesis
    proof (cases r)
      case (Inl e)
      then obtain k where "out_bytes wr' = out_bytes wr @ take k data"
        using Pair by (auto simp: tcp_write_all_def split: list.splits option.splits)
      then have "out_bytes (drain_queue (data # queue) wr)
          = out_bytes wr @ take (min k (length data)) (concat (data # queue))"
        using Pair Inl by (simp add: min_def)
      then show ?thesis by blast
    next
      case (Inr u)
      obtain n where "out_bytes (drain_queue queue wr') = out_bytes wr' @ take n (concat queue)"
        using Cons.IH by blast
      then have "out_bytes (drain_queue (data # queue) wr)
          = out_bytes wr @ take (length data + n) (concat (data # queue))"
        using Pair Inr tcp_write_all_ok [of data wr u wr'] by simp
      then show ?thesis by blast
    qed
  qed
qed simp

lemma bridge_loop_complete:
  "link_up sid d \<Longrightarrow> in_ok rd \<Longrightarrow>
    \<exists>chunks rd'. bridge_loop sid ch fid rd d = (rd', after_sends (map (forward_data_msg ch fid) chunks) d)
      \<and> concat chunks = in_contents rd \<and> (\<forall>c \<in> set chunks. c \<noteq> [] \<and> length c \<le> 4096)"
proof (induction "length (in_contents rd)" arbitrary: rd d rule: less_induct)
  case less
  show ?case
  proof (cases "in_contents rd = []")
    case True
    then have "in_segs rd = []"
      using less.prems(2) by (cases "in_segs rd") (auto simp: in_contents_def in_ok_def)
    then have "bridge_loop sid ch fid rd d = (rd, after_sends (map (forward_data_msg ch fid) []) d)"
      by (simp add: bridge_loop.simps [of sid ch fid rd] tcp_read_def split: tcp_end.splits)
    then show ?thesis using True by (intro exI [of _ "[]"] exI [of _ rd]) simp
  next
    case False
    then obtain got rd1 where got: "tcp_read 4096 rd = (Inr got, rd1)" "got \<noteq> []" "length got \<le> 4096"
      "in_contents rd = got @ in_contents rd1" "in_ok rd1"
      using tcp_read_some [OF less.prems(2), of 4096] by auto
    let ?d = "after_sends [forward_data_msg ch fid got] d"
    obtain chunks rd' where rest:
      "bridge_loop sid ch fid rd1 ?d = (rd', after_sends (map (forward_data_msg ch fid) chunks) ?d)"
      "concat chunks = in_contents rd1" "\<forall>c \<in> set chunks. c \<noteq> [] \<and> length c \<le> 4096"
      using less.hyps [of rd1 ?d] got less.prems by auto
    have "bridge_loop sid ch fid rd d = (rd', after_sends (map (forward_data_msg ch fid) (got # chunks)) d)"
      using got rest(1) less.prems(1) by (simp add: bridge_loop.simps [of sid ch fid rd] send_shared_up)
    moreover have "concat (got # chunks) = in_contents rd" using got(4) rest(2) by simp
    ultimately show ?thesis
      using got(2,3) rest(3) by (intro exI [of _ "got # chunks"] exI [of _ rd'] conjI) auto
  qed
qed

section \<open>A reverse connection sees its own messages\<close>

text \<open>
  The specification of one connection: how each event changes what it sees. Only events that name
  the connection, or end the loop, matter.
\<close>

datatype conn_view = Absent | Open "rport_conn_msg list" | Closed "rport_conn_msg list"

definition view_add :: "rport_conn_msg \<Rightarrow> conn_view \<Rightarrow> conn_view" where
  "view_add m v = (case v of Open q \<Rightarrow> Open (q @ [m]) | _ \<Rightarrow> v)"

definition view_close :: "conn_view \<Rightarrow> conn_view" where
  "view_close v = (case v of Open q \<Rightarrow> Closed q | _ \<Rightarrow> v)"

definition view_event :: "u32 \<Rightarrow> rport_event \<Rightarrow> conn_view \<Rightarrow> conn_view" where
  "view_event c e v =
    (case e of
       HostMsg (ActiveMaster c') \<Rightarrow> if c' = c then view_add ConnActiveMaster v else v
     | HostMsg (RportData c' data) \<Rightarrow> if c' = c then view_add (ConnData data) v else v
     | HostMsg (FreeContext c') \<Rightarrow> if c' = c then view_close v else v
     | Accepted c' \<Rightarrow> if c' = c then Open [] else v
     | ConnDone c' \<Rightarrow> if c' = c then view_close v else v
     | DispatcherEnded \<Rightarrow> view_close (view_add ConnShutdown v)
     | AcceptFailed \<Rightarrow> view_close (view_add ConnShutdown v)
     | _ \<Rightarrow> v)"

definition conn_view_of :: "u32 \<Rightarrow> rport_loop \<Rightarrow> conn_view" where
  "conn_view_of c s =
    (case map_of (rl_conns s) c of
       Some q \<Rightarrow> Open q
     | None \<Rightarrow> (case map_of (rl_closed s) c of Some q \<Rightarrow> Closed q | None \<Rightarrow> Absent))"

lemmas view_defs = conn_view_of_def view_event_def view_add_def view_close_def

lemma view_push: "conn_view_of c (rport_push c' m s) = (if c' = c then view_add m (conn_view_of c s) else conn_view_of c s)"
  by (auto simp: rport_push_def view_defs hm_get_modify split: option.splits)

lemma view_drop: "conn_view_of c (rport_drop c' s) = (if c' = c then view_close (conn_view_of c s) else conn_view_of c s)"
  by (auto simp: rport_drop_def view_defs split: option.splits)

lemma map_of_append_msg: "map_of (map (\<lambda>(c, q). (c, q @ [m])) xs) c = map_option (\<lambda>q. q @ [m]) (map_of xs c)"
  by (induction xs) auto

lemma view_finish: "conn_view_of c (rport_finish s) = view_close (view_add ConnShutdown (conn_view_of c s))"
  by (auto simp: rport_finish_def view_defs map_of_append_msg map_add_def split: option.splits)

lemma view_accept: "conn_view_of c (rport_accept c' s) = (if c' = c then Open [] else conn_view_of c s)"
  using view_drop [of c c' s] by (auto simp: rport_accept_def Let_def conn_view_of_def split: option.splits if_splits)

lemma view_flags:
  "conn_view_of c (s\<lparr>rl_dispatching := b\<rparr>) = conn_view_of c s"
  "conn_view_of c (s\<lparr>rl_running := b\<rparr>) = conn_view_of c s"
  by (simp_all add: conn_view_of_def split: option.splits)

lemma view_step:
  assumes "rport_step s e s'"
  shows "conn_view_of c s' = view_event c e (conn_view_of c s)"
  using assms
proof cases
  case (host_msg m)
  then show ?thesis
    by (cases m) (simp_all add: rport_dispatch_def view_push view_drop view_event_def view_flags)
qed (simp_all add: view_event_def view_finish view_accept view_drop view_flags)

lemma rport_conn_refinement:
  assumes "rport_steps s evs s'"
  shows "conn_view_of c s' = fold (view_event c) evs (conn_view_of c s)"
  using assms by induction (simp_all add: view_step)

text \<open>Invariant: the table has one entry per key, and only connections that were accepted.\<close>

definition rport_inv :: "rport_loop \<Rightarrow> bool" where
  "rport_inv s \<longleftrightarrow> hm_ok (rl_conns s)
    \<and> fst ` set (rl_conns s) \<subseteq> set (rl_spawned s) \<and> fst ` set (rl_closed s) \<subseteq> set (rl_spawned s)"

lemma rport_inv_drop: "rport_inv s \<Longrightarrow> rport_inv (rport_drop c s)"
  by (auto simp: rport_inv_def rport_drop_def hm_remove_def split: option.splits dest!: map_of_SomeD)

lemma rport_inv_push: "rport_inv s \<Longrightarrow> rport_inv (rport_push c m s)"
proof -
  have "fst ` set (hm_modify c f xs) = fst ` set xs" for f :: "rport_conn_msg list \<Rightarrow> _" and xs
    by (metis keys_hm_modify list.set_map)
  then show "rport_inv s \<Longrightarrow> rport_inv (rport_push c m s)"
    by (simp add: rport_inv_def rport_push_def hm_ok_def)
qed

lemma rport_inv_step: "rport_step s e s' \<Longrightarrow> rport_inv s \<Longrightarrow> rport_inv s'"
proof (induction rule: rport_step.induct)
  case (host_msg s m)
  then show ?case
    by (cases m) (simp_all add: rport_dispatch_def rport_inv_push rport_inv_drop, simp add: rport_inv_def)
next
  case (accepted s c)
  from rport_inv_drop [OF accepted(2), of c] show ?case
    by (auto simp: rport_accept_def Let_def rport_inv_def hm_insert_def hm_ok_def distinct_map_filter)
next
  case (conn_done c s)
  then show ?case using rport_inv_drop by blast
qed (auto simp: rport_inv_def rport_finish_def)

lemma rport_reachable_inv: "rport_steps rport_loop_start evs s \<Longrightarrow> rport_inv s"
  by (induction rport_loop_start evs s rule: rport_steps.induct)
    (simp add: rport_inv_def rport_loop_start_def, blast intro: rport_inv_step)

section \<open>The handler layer\<close>

definition forward_tasks :: "u32 \<Rightarrow> task_message list \<Rightarrow> (daemon, unit) io" where
  "forward_tasks sid ms = io_all (map (\<lambda>m. handle_forward_task m sid) ms)"

lemma ctx_of_payload [simp]: "ctx_of (to_be 4 fid @ rest) = fid"
  by (simp add: ctx_of_def)

lemma forward_data:
  assumes "fw_rport (d_forward d) ch = None"
  shows "handle_forward_task (forward_data_msg ch fid data) sid d
    = (Inr (), d\<lparr>d_forward := (d_forward d)\<lparr>fw_fport :=
        hm_modify fid (\<lambda>c. c\<lparr>fc_sent := fc_sent c @ [data]\<rparr>) (fw_fport (d_forward d))\<rparr>\<rparr>)"
  using assms
  by (simp add: handle_forward_task_def forward_command_def handle_forward_data_def forward_data_msg_def
      on_forward_def)

lemma forward_data_list:
  assumes "fw_rport (d_forward d) ch = None" "map_of (fw_fport (d_forward d)) fid = Some conn"
  shows "\<exists>w'. forward_tasks sid (map (forward_data_msg ch fid) datas) d = (Inr (), d\<lparr>d_forward := w'\<rparr>)
    \<and> map_of (fw_fport w') fid = Some (conn\<lparr>fc_sent := fc_sent conn @ datas\<rparr>)
    \<and> (\<forall>k. k \<noteq> fid \<longrightarrow> map_of (fw_fport w') k = map_of (fw_fport (d_forward d)) k)"
  using assms
proof (induction datas arbitrary: d conn)
  case Nil
  then show ?case by (intro exI [of _ "d_forward d"]) (simp add: forward_tasks_def)
next
  case (Cons data datas)
  let ?w = "(d_forward d)\<lparr>fw_fport :=
    hm_modify fid (\<lambda>c. c\<lparr>fc_sent := fc_sent c @ [data]\<rparr>) (fw_fport (d_forward d))\<rparr>"
  let ?d = "d\<lparr>d_forward := ?w\<rparr>"
  from Cons.IH [of ?d "conn\<lparr>fc_sent := fc_sent conn @ [data]\<rparr>"] Cons.prems
  obtain w' where w': "forward_tasks sid (map (forward_data_msg ch fid) datas) ?d = (Inr (), ?d\<lparr>d_forward := w'\<rparr>)"
    "map_of (fw_fport w') fid = Some (conn\<lparr>fc_sent := fc_sent conn @ data # datas\<rparr>)"
    "\<forall>k. k \<noteq> fid \<longrightarrow> map_of (fw_fport w') k = map_of (fw_fport (d_forward d)) k"
    by (auto simp: hm_get_modify)
  have "forward_tasks sid (map (forward_data_msg ch fid) (data # datas)) d = (Inr (), d\<lparr>d_forward := w'\<rparr>)"
    using w'(1) forward_data [OF Cons.prems(1), of fid data sid] by (simp add: forward_tasks_def io_bind_def)
  with w'(2,3) show ?case by auto
qed

text \<open>Activating a forward to a port that accepts the connection.\<close>

definition active_slave_msg :: "u32 \<Rightarrow> u32 \<Rightarrow> string \<Rightarrow> task_message" where
  "active_slave_msg ch fid spec = \<lparr>tm_channel_id = ch, tm_command = ForwardActiveSlave, tm_payload = spec_payload fid spec\<rparr>"

definition active_master_msg :: "u32 \<Rightarrow> u32 \<Rightarrow> string \<Rightarrow> task_message" where
  "active_master_msg ch fid spec = \<lparr>tm_channel_id = ch, tm_command = ForwardActiveMaster, tm_payload = spec_payload fid spec\<rparr>"

definition tcp_spec :: "nat \<Rightarrow> string" where
  "tcp_spec port = ''tcp:'' @ show_nat port"

lemma show_nat_bytes: "0 \<notin> set (as_bytes (show_nat n))"
proof
  assume "0 \<in> set (as_bytes (show_nat n))"
  then obtain c where c: "c \<in> set (show_nat n)" "byte_of_char c = 0" by (auto simp: as_bytes_def)
  then have "(of_char c :: nat) = 0" by (metis unat_0 unat_byte_of_char)
  then show False using show_nat_digits [OF c(1)] by (simp add: digit_val_def)
qed

lemma tcp_spec_ascii: "is_ascii (tcp_spec port)"
  using show_nat_ascii [of port] by (simp add: tcp_spec_def is_ascii_def)

lemma parse_tcp_spec: "parse_null_terminated (as_bytes (tcp_spec port) @ [0]) = tcp_spec port"
proof -
  have "as_bytes ''tcp:'' = [116, 99, 112, 58]" by code_simp
  then have "0 \<notin> set (as_bytes (tcp_spec port))"
    unfolding tcp_spec_def as_bytes_append using show_nat_bytes by simp
  then have "takeWhile (\<lambda>b. b \<noteq> 0) (as_bytes (tcp_spec port) @ [0]) = as_bytes (tcp_spec port)"
    by (subst takeWhile_append2) auto
  then show ?thesis
    using wf_str_ascii [OF tcp_spec_ascii] by (simp add: parse_null_terminated_def from_utf8_lossy_def wf_str_def)
qed

lemma split_tcp_spec: "split_once CHR '':'' (tcp_spec port) = Some (''tcp'', show_nat port)"
  using split_once_first [of "CHR '':''" "''tcp''" "show_nat port"] by (simp add: tcp_spec_def)

lemma active_slave_ok:
  assumes "port \<le> 65535" "link_up sid d" "fw_rport (d_forward d) ch = None" "fw_os (d_forward d) = []"
  shows "\<exists>w'. handle_forward_task (active_slave_msg ch fid (tcp_spec port)) sid d
      = (Inr (), after_sends [active_master_msg ch fid (tcp_spec port)] (d\<lparr>d_forward := w'\<rparr>))
    \<and> map_of (fw_fport w') fid = Some \<lparr>fc_channel_id = ch, fc_sent = []\<rparr>
    \<and> (\<forall>k. k \<noteq> fid \<longrightarrow> map_of (fw_fport w') k = map_of (fw_fport (d_forward d)) k)
    \<and> fw_rport w' = fw_rport (d_forward d)
    \<and> fw_calls w' = fw_calls (d_forward d) @ [ConnectTo (TcpPort port)]
    \<and> fw_spawned w' = fw_spawned (d_forward d) @ [BridgeTasks fid ch (TcpPort port)]"
proof -
  let ?w = "d_forward d"
  let ?w' = "?w\<lparr>fw_os := [], fw_calls := fw_calls ?w @ [ConnectTo (TcpPort port)],
    fw_fport := hm_insert fid \<lparr>fc_channel_id = ch, fc_sent = []\<rparr> (fw_fport ?w),
    fw_spawned := fw_spawned ?w @ [BridgeTasks fid ch (TcpPort port)]\<rparr>"
  have port: "parse_port (show_nat port) = Inr port"
    unfolding parse_port_def parse_uint_res_show_nat [OF assms(1)] by simp
  have "handle_forward_task (active_slave_msg ch fid (tcp_spec port)) sid d
      = (Inr (), after_sends [active_master_msg ch fid (tcp_spec port)] (d\<lparr>d_forward := ?w'\<rparr>))"
    using assms(2-4)
    by (simp add: handle_forward_task_def forward_command_def handle_active_slave_def active_slave_msg_def
        active_master_msg_def spec_payload_def parse_tcp_spec connect_remote_def split_tcp_spec port
        io_match_def io_bind_def os_attempt_def on_forward_def send_shared_up Let_def)
  then show ?thesis by (intro exI [of _ ?w']) simp
qed

lemma forward_session:
  assumes "port \<le> 65535" "link_up sid d" "fw_rport (d_forward d) ch = None" "fw_os (d_forward d) = []"
  shows "\<exists>w'. forward_tasks sid (active_slave_msg ch fid (tcp_spec port) # map (forward_data_msg ch fid) datas) d
      = (Inr (), after_sends [active_master_msg ch fid (tcp_spec port)] (d\<lparr>d_forward := w'\<rparr>))
    \<and> map_of (fw_fport w') fid = Some \<lparr>fc_channel_id = ch, fc_sent = datas\<rparr>
    \<and> (\<forall>k. k \<noteq> fid \<longrightarrow> map_of (fw_fport w') k = map_of (fw_fport (d_forward d)) k)"
proof -
  obtain w1 where w1: "handle_forward_task (active_slave_msg ch fid (tcp_spec port)) sid d
      = (Inr (), after_sends [active_master_msg ch fid (tcp_spec port)] (d\<lparr>d_forward := w1\<rparr>))"
    "map_of (fw_fport w1) fid = Some \<lparr>fc_channel_id = ch, fc_sent = []\<rparr>"
    "\<forall>k. k \<noteq> fid \<longrightarrow> map_of (fw_fport w1) k = map_of (fw_fport (d_forward d)) k"
    "fw_rport w1 = fw_rport (d_forward d)"
    using active_slave_ok [OF assms] by blast
  let ?d = "after_sends [active_master_msg ch fid (tcp_spec port)] (d\<lparr>d_forward := w1\<rparr>)"
  obtain w' where "forward_tasks sid (map (forward_data_msg ch fid) datas) ?d = (Inr (), ?d\<lparr>d_forward := w'\<rparr>)"
    "map_of (fw_fport w') fid = Some \<lparr>fc_channel_id = ch, fc_sent = datas\<rparr>"
    "\<forall>k. k \<noteq> fid \<longrightarrow> map_of (fw_fport w') k = map_of (fw_fport w1) k"
    using forward_data_list [of ?d ch fid "\<lparr>fc_channel_id = ch, fc_sent = []\<rparr>" sid datas] w1(2,4) assms(3)
    by auto
  then show ?thesis
    using w1 by (intro exI [of _ w']) (auto simp: forward_tasks_def io_bind_def after_sends_def sent_bytes_def)
qed

text \<open>Closing a channel removes exactly what belongs to it, and tells whether there was anything.\<close>

lemma channel_close_exact:
  assumes "hm_ok (fw_fport (d_forward d))" "handle_channel_close ch d = (r, d')"
  shows "map_of (fw_fport (d_forward d')) k
      = (case map_of (fw_fport (d_forward d)) k of
           None \<Rightarrow> None | Some c \<Rightarrow> if fc_channel_id c = ch then None else Some c)"
    and "fw_rport (d_forward d') = (fw_rport (d_forward d))(ch := None)"
    and "r = Inr (fw_rport (d_forward d) ch \<noteq> None
           \<or> (\<exists>(k, c) \<in> set (fw_fport (d_forward d)). fc_channel_id c = ch))"
    and "d_tasks d' = d_tasks d" "d_link d' = d_link d" "hm_ok (fw_fport (d_forward d'))"
proof -
  note defs = assms(2) [unfolded handle_channel_close_def Let_def]
  show "map_of (fw_fport (d_forward d')) k
      = (case map_of (fw_fport (d_forward d)) k of
           None \<Rightarrow> None | Some c \<Rightarrow> if fc_channel_id c = ch then None else Some c)"
    using defs hm_get_retain [OF assms(1)] by (auto split: option.splits)
  show "fw_rport (d_forward d') = (fw_rport (d_forward d))(ch := None)"
    using defs by (auto split: option.splits)
  show "r = Inr (fw_rport (d_forward d) ch \<noteq> None
           \<or> (\<exists>(k, c) \<in> set (fw_fport (d_forward d)). fc_channel_id c = ch))"
    using defs length_hm_retain [of "\<lambda>_ c. fc_channel_id c \<noteq> ch" "fw_fport (d_forward d)"]
    by (auto split: option.splits)
  show "d_tasks d' = d_tasks d" "d_link d' = d_link d" "hm_ok (fw_fport (d_forward d'))"
    using defs assms(1) by (auto split: option.splits)
qed

end
