(* ===== verification/Daemon_Task.thy ===== *)
theory Daemon_Task
  imports Daemon_App Daemon_Forward
begin

text \<open>
  The task dispatcher of the daemon (\<open>hdcd/src/task.rs\<close>), on Linux, with the handlers it has itself:
  shell commands, the interactive prompt, reboot, remount, run mode and log. It sends every message
  to the handler of its command.
\<close>

section \<open>Shell commands\<close>

definition trim_quotation_for_cmd :: "string \<Rightarrow> string" where
  "trim_quotation_for_cmd cmd_input =
    (let cmd = trim cmd_input in
     if cmd \<noteq> [] \<and> hd cmd = CHR 0x22 \<and> last cmd = CHR 0x22
     then (let inner = tl cmd in if inner \<noteq> [] \<and> last inner = CHR 0x22 then butlast inner else inner)
     else cmd)"

definition echo_raw_msg :: "u32 \<Rightarrow> string \<Rightarrow> task_message" where
  "echo_raw_msg channel_id text =
    \<lparr>tm_channel_id = channel_id, tm_command = KernelEchoRaw, tm_payload = as_bytes text\<rparr>"

text \<open>
  The security label that the shell's process gives itself before it starts: \<open>current\<close> is what the
  process reads of its own label, if it can.
\<close>

definition shell_child_label :: "bytes option \<Rightarrow> string option" where
  "shell_child_label current =
    (case current of
       None \<Rightarrow> None
     | Some buf \<Rightarrow>
         let label = trim_end_matches (\<lambda>c. c = CHR 0x0A) (from_utf8_lossy (take 255 buf)) in
         if buf \<noteq> [] \<and> (label = ''u:r:hdcd:s0'' \<or> label = ''u:r:updater:s0'') then Some ''u:r:sh:s0'' else None)"

definition handle_shell :: "task_message \<Rightarrow> u32 \<Rightarrow> (daemon, unit) io" where
  "handle_shell msg session_id =
    (let ch = tm_channel_id msg in
     case utf8_error 0 (tm_payload msg) of
       Some e \<Rightarrow> io_fail (Error InvalidData (''invalid utf8: '' @ utf8_error_text e))
     | None \<Rightarrow>
         let cmd = trim_quotation_for_cmd (of_bytes (tm_payload msg)) in
         io_bind (run_command ''sh'' [''-c'', cmd]) (\<lambda>output.
           case output of
             ProcOutput out err _ \<Rightarrow>
               io_bind (if from_utf8_lossy out \<noteq> [] then send_shared session_id (echo_raw_msg ch (from_utf8_lossy out))
                        else io_return ()) (\<lambda>_.
               io_bind (if from_utf8_lossy err \<noteq> [] then send_shared session_id (echo_raw_msg ch (from_utf8_lossy err))
                        else io_return ()) (\<lambda>_.
               send_shared session_id (close_msg ch)))
           | ProcFailed e \<Rightarrow>
               io_bind (echo_client session_id ch (''Execute failed: '' @ e) LevelFail) (\<lambda>_.
               send_shared session_id (close_msg ch))))"

definition handle_interactive_shell :: "task_message \<Rightarrow> u32 \<Rightarrow> (daemon, unit) io" where
  "handle_interactive_shell msg session_id = send_shared session_id (echo_raw_msg (tm_channel_id msg) ''$ '')"

section \<open>System commands\<close>

definition handle_reboot :: "task_message \<Rightarrow> u32 \<Rightarrow> (daemon, unit) io" where
  "handle_reboot msg session_id =
    io_bind (run_command ''reboot'' []) (\<lambda>result.
    io_bind (case result of
        ProcFailed e \<Rightarrow> echo_client session_id (tm_channel_id msg) (''Reboot failed: '' @ e) LevelFail
      | ProcOutput _ _ _ \<Rightarrow> io_return ()) (\<lambda>_.
    send_shared session_id (close_msg (tm_channel_id msg))))"

definition handle_remount :: "task_message \<Rightarrow> u32 \<Rightarrow> (daemon, unit) io" where
  "handle_remount msg session_id =
    io_bind (run_command ''mount'' [''-o'', ''remount,rw'', ''/'']) (\<lambda>result.
    io_bind (case result of
        ProcOutput _ _ success \<Rightarrow>
          if success then echo_client session_id (tm_channel_id msg) ''Mount finish'' LevelOk
          else echo_client session_id (tm_channel_id msg) ''Mount failed'' LevelFail
      | ProcFailed _ \<Rightarrow> echo_client session_id (tm_channel_id msg) ''Mount failed'' LevelFail) (\<lambda>_.
    send_shared session_id (close_msg (tm_channel_id msg))))"

definition handle_runmode :: "task_message \<Rightarrow> u32 \<Rightarrow> (daemon, unit) io" where
  "handle_runmode msg session_id =
    io_bind (echo_client session_id (tm_channel_id msg) (''Runmode: '' @ from_utf8_lossy (tm_payload msg)) LevelInfo) (\<lambda>_.
    send_shared session_id (close_msg (tm_channel_id msg)))"

definition handle_hilog :: "task_message \<Rightarrow> u32 \<Rightarrow> (daemon, unit) io" where
  "handle_hilog msg session_id =
    io_bind (send_shared session_id (echo_raw_msg (tm_channel_id msg)
      (if tm_payload msg = [104] then ''hilog help output...'' else ''hilog output...''))) (\<lambda>_.
    send_shared session_id (close_msg (tm_channel_id msg)))"

section \<open>Dispatch\<close>

definition handle_close :: "task_message \<Rightarrow> u32 \<Rightarrow> (daemon, unit) io" where
  "handle_close msg session_id =
    io_bind (handle_channel_close (tm_channel_id msg)) (\<lambda>handled.
    if handled then send_shared session_id (close_msg (tm_channel_id msg))
    else io_bind (send_shared session_id (close_msg (tm_channel_id msg)))
           (\<lambda>_. io_fail (Error ConnectionAborted ''channel closed'')))"

definition file_commands :: "hdc_command list" where
  "file_commands = [FileInit, FileCheck, FileBegin, FileData, FileFinish, FileRecvInit]"

definition app_commands :: "hdc_command list" where
  "app_commands = [AppInit, AppCheck, AppBegin, AppData, AppFinish, AppUninstall]"

definition flashd_commands :: "hdc_command list" where
  "flashd_commands = [FlashdCheck, FlashdBegin, FlashdData, FlashdFinish, FlashdErase, FlashdFormat, FlashdProgress]"

definition forward_commands :: "hdc_command list" where
  "forward_commands = [ForwardInit, ForwardCheck, ForwardCheckResult, ForwardActiveSlave, ForwardActiveMaster,
     ForwardData, ForwardFreeContext, ForwardList, ForwardRemove, ForwardSuccess, ForwardRportInit,
     ForwardRportList, ForwardRportRemove]"

definition dispatch_task :: "task_message \<Rightarrow> u32 \<Rightarrow> (daemon, unit) io" where
  "dispatch_task msg session_id =
    (let c = tm_command msg in
     if c = KernelHandshake then
       send_shared session_id \<lparr>tm_channel_id = tm_channel_id msg, tm_command = KernelHandshake, tm_payload = as_bytes ''OK''\<rparr>
     else if c = UnityExecute \<or> c = UnityExecuteEx then handle_shell msg session_id
     else if c = ShellInit then handle_interactive_shell msg session_id
     else if c = ShellData then io_return ()
     else if c = UnityReboot then handle_reboot msg session_id
     else if c = UnityRemount then handle_remount msg session_id
     else if c = UnityRunmode then handle_runmode msg session_id
     else if c = UnityHilog then handle_hilog msg session_id
     else if c \<in> set file_commands then handle_file_task msg session_id
     else if c \<in> set app_commands then handle_app_task msg session_id
     else if c \<in> set flashd_commands then handle_flashd_task msg session_id
     else if c \<in> set forward_commands then handle_forward_task msg session_id
     else if c = HeartbeatMsg then send_shared session_id msg
     else if c = KernelChannelClose then handle_close msg session_id
     else echo_client session_id (tm_channel_id msg) ''Command not implemented'' LevelFail)"

section \<open>What dispatching leaves alone\<close>

text \<open>
  A part of the daemon's state that the basic operations of one session leave alone is left alone by
  every handler, and so by the dispatcher.
\<close>

locale kept_part =
  fixes part :: "daemon \<Rightarrow> 'p" and sid :: u32
  assumes keeps_send: "keeps part (send_shared sid m)"
    and part_fs: "part (d\<lparr>d_fs := f\<rparr>) = part d"
    and keeps_put: "keeps part (file_map_put sid ch st)"
    and keeps_get: "keeps part (file_map_get sid ch)"
    and keeps_remove: "keeps part (file_map_remove sid ch)"
    and keeps_run: "keeps part (run_command prog args)"
    and keeps_forward: "keeps part (on_forward w)"
    and keeps_os: "keeps part (os_attempt c)"
    and keeps_close: "keeps part (handle_channel_close ch)"
begin

lemma keeps_fs: "keeps part (on_fs g)"
  by (auto simp: keeps_def on_fs_def part_fs split: prod.splits)

lemma keeps_echo: "keeps part (echo_client sid ch t lv)"
  by (simp add: echo_client_def keeps_send)

lemma keeps_proc:
  "(\<And>a b c. r = ProcOutput a b c \<Longrightarrow> keeps part (f a b c)) \<Longrightarrow> (\<And>e. r = ProcFailed e \<Longrightarrow> keeps part (g e)) \<Longrightarrow>
    keeps part (case r of ProcOutput a b c \<Rightarrow> f a b c | ProcFailed e \<Rightarrow> g e)"
  by (cases r) auto

lemmas kept = keeps_send keeps_fs keeps_put keeps_get keeps_remove keeps_run keeps_forward keeps_os
  keeps_close keeps_echo keeps_rules keeps_basic keeps_proc keeps_direction

lemma keeps_file_loop: "keeps part (send_file_loop sid ch h)"
proof (rule keepsI)
  fix d r d'
  have echo: "keeps part (io_bind (echo_client sid ch t LevelFail) (\<lambda>_. io_return False))" for t
    by (intro kept)
  show "send_file_loop sid ch h d = (r, d') \<Longrightarrow> part d' = part d"
  proof (induction "length (remaining h (d_fs d))" arbitrary: d rule: less_induct)
    case less
    obtain r1 d1 where read: "on_fs (file_read h MAX_SIZE_IOBUF) d = (r1, d1)"
      by (cases "on_fs (file_read h MAX_SIZE_IOBUF) d")
    have p1: "part d1 = part d" using keepsD [OF keeps_fs read] .
    show ?case
    proof (cases r1)
      case (Inl e)
      then show ?thesis
        using keepsD [OF echo] p1 less.prems read by (fastforce simp: send_file_loop.simps [of sid ch h d])
    next
      case (Inr buf)
      obtain r2 d2 where send: "send_shared sid (file_data_msg ch buf) d1 = (r2, d2)"
        by (cases "send_shared sid (file_data_msg ch buf) d1")
      have p2: "part d2 = part d1" using keepsD [OF keeps_send send] .
      show ?thesis
      proof (cases "buf = [] \<or> (\<exists>e. r2 = Inl e)")
        case True
        then show ?thesis
          using p1 p2 less.prems read Inr send by (auto simp: send_file_loop.simps [of sid ch h d] split: if_splits)
      next
        case False
        then obtain u where "r2 = Inr u" "buf \<noteq> []" by (cases r2) auto
        then show ?thesis
          using less.hyps [OF send_file_round [OF read [unfolded Inr] _ send [unfolded \<open>r2 = Inr u\<close>]]]
            less.prems read Inr send p1 p2
          by (simp add: send_file_loop.simps [of sid ch h d])
      qed
    qed
  qed
qed

lemma keeps_file_task: "keeps part (handle_file_task msg sid)"
proof -
  have "keeps part (handle_file_init msg sid)" "keeps part (handle_file_check msg sid)"
    "keeps part (handle_file_begin msg sid)" "keeps part (handle_file_data msg sid)"
    "keeps part (handle_file_finish msg sid)" "keeps part (handle_file_recv_init msg sid)"
    unfolding handle_file_init_def handle_file_check_def handle_file_begin_def handle_file_data_def
      handle_file_finish_def handle_file_recv_init_def handle_daemon_file_send_def
    by (intro kept keeps_file_loop)+
  then show ?thesis by (cases "tm_command msg") (simp_all add: handle_file_task_def)
qed

lemma keeps_report: "keeps part (report_command sid ch a b r)"
  unfolding report_command_def by (intro kept)

lemma keeps_app_task: "keeps part (handle_app_task msg sid)"
proof -
  have "keeps part (handle_app_init msg sid)" "keeps part (handle_app_check msg sid)"
    "keeps part (handle_app_begin msg sid)" "keeps part (handle_app_data msg sid)"
    "keeps part (handle_app_finish msg sid)" "keeps part (handle_app_uninstall msg sid)"
    unfolding handle_app_init_def handle_app_check_def handle_app_begin_def handle_app_data_def
      handle_app_finish_def handle_app_uninstall_def
    by (intro kept keeps_report)+
  then show ?thesis by (cases "tm_command msg") (simp_all add: handle_app_task_def)
qed

lemma keeps_flashd_task: "keeps part (handle_flashd_task msg sid)"
  by (cases "tm_command msg") (auto simp: handle_flashd_task_def keeps_send)

lemma keeps_remote: "keeps part (connect_remote spec)" "keeps part (check_remote_reachable spec)"
  "keeps part (start_listener spec)"
  unfolding connect_remote_def check_remote_reachable_def start_listener_def connect_abstract_socket_def
    listen_abstract_socket_def Let_def
  by (intro kept)+

lemma keeps_forward_command: "keeps part (forward_command msg sid)"
proof -
  have "keeps part (handle_rport_init msg sid)" "keeps part (handle_forward_check msg sid)"
    "keeps part (handle_active_slave msg sid)" "keeps part (handle_forward_data msg)"
    "keeps part (handle_free_context msg)"
    unfolding handle_rport_init_def handle_forward_check_def handle_active_slave_def handle_forward_data_def
      handle_free_context_def Let_def
    by (intro kept keeps_remote)+
  then show ?thesis by (cases "tm_command msg") (simp_all add: forward_command_def keeps_echo)
qed

lemma keeps_forward_task: "keeps part (handle_forward_task msg sid)"
proof (rule keepsI)
  fix d r d' assume "handle_forward_task msg sid d = (r, d')"
  then show "part d' = part d"
    using keepsD [OF keeps_forward_command, of msg d] keepsD [OF keeps_forward]
    by (auto simp: handle_forward_task_def split: option.split_asm)
qed

lemma keeps_dispatch_task: "keeps part (dispatch_task msg sid)"
  unfolding dispatch_task_def Let_def handle_shell_def handle_interactive_shell_def handle_reboot_def
    handle_remount_def handle_runmode_def handle_hilog_def handle_close_def
  by (intro kept keeps_file_task keeps_app_task keeps_flashd_task keeps_forward_task)

end

text \<open>The reader of the connection, the ciphers of the other sessions, and the cryptographic parameter.\<close>

definition d_in :: "daemon \<Rightarrow> tcp_in" where
  "d_in d = link_in (d_link d)"

definition other_ciphers :: "u32 \<Rightarrow> daemon \<Rightarrow> u32 \<Rightarrow> psk_cipher option" where
  "other_ciphers sid d = (link_ciphers (d_link d))(sid := None)"

definition cipher_keys :: "u32 \<Rightarrow> daemon \<Rightarrow> (bytes \<times> bytes) option" where
  "cipher_keys sid d = map_option (\<lambda>c. (send_key c, recv_key c)) (link_ciphers (d_link d) sid)"

lemma send_message_keys:
  assumes "daemon_send_message A sid msg l = (r, l')"
  shows "map_option (\<lambda>c. (send_key c, recv_key c)) (link_ciphers l' k)
    = map_option (\<lambda>c. (send_key c, recv_key c)) (link_ciphers l k)"
proof (cases "link_ciphers l sid")
  case (Some c)
  obtain x c' where enc: "psk_encrypt A c (concat_pack msg) = (x, c')" by fastforce
  then have "send_key c' = send_key c" "recv_key c' = recv_key c" using psk_encrypt_keys by (metis snd_conv)+
  then show ?thesis
    using assms Some enc
    by (cases x) (auto simp: daemon_send_message_def get_session_cipher_def set_session_cipher_def on_out_def
        io_bind_def Let_def split: prod.splits sum.splits)
qed (use assms in \<open>auto simp: daemon_send_message_def get_session_cipher_def on_out_def Let_def split: prod.splits\<close>)

lemma send_message_frame:
  assumes "daemon_send_message A sid msg l = (r, l')"
  shows "link_in l' = link_in l" "(link_ciphers l')(sid := None) = (link_ciphers l)(sid := None)"
  using assms
  by (auto simp: daemon_send_message_def on_out_def io_bind_def set_session_cipher_def Let_def
      split: option.splits prod.splits sum.splits)

lemma keeps_basic_parts:
  "keeps d_in (send_shared sid m)" "keeps (other_ciphers sid) (send_shared sid m)" "keeps d_aead (send_shared sid m)"
  "d_in (d\<lparr>d_fs := f\<rparr>) = d_in d" "other_ciphers sid (d\<lparr>d_fs := f\<rparr>) = other_ciphers sid d"
  "d_aead (d\<lparr>d_fs := f\<rparr>) = d_aead d"
  "keeps d_in (run_command p a)" "keeps (other_ciphers sid) (run_command p a)" "keeps d_aead (run_command p a)"
  "keeps d_in (handle_channel_close ch)" "keeps (other_ciphers sid) (handle_channel_close ch)"
  "keeps d_aead (handle_channel_close ch)"
  by (auto simp: keeps_def d_in_def other_ciphers_def send_shared_def on_fs_def run_command_def
      handle_channel_close_def Let_def dest: send_message_frame split: prod.splits list.splits)

lemma keeps_key_parts:
  "keeps (cipher_keys k) (send_shared sid m)" "cipher_keys k (d\<lparr>d_fs := f\<rparr>) = cipher_keys k d"
  "keeps (cipher_keys k) (run_command p a)" "keeps (cipher_keys k) (handle_channel_close ch)"
  "keeps (cipher_keys k) (file_map_put i ch st)" "keeps (cipher_keys k) (file_map_get i ch)"
  "keeps (cipher_keys k) (file_map_remove i ch)" "keeps (cipher_keys k) (on_forward w)"
  "keeps (cipher_keys k) (os_attempt c)"
  by (auto simp: keeps_def cipher_keys_def send_shared_def run_command_def file_map_put_def file_map_get_def
      file_map_remove_def on_forward_def os_attempt_def handle_channel_close_def Let_def
      dest: send_message_keys split: prod.splits list.splits option.splits)

lemma keeps_table_parts:
  "keeps d_in (file_map_put i ch st)" "keeps d_in (file_map_get i ch)" "keeps d_in (file_map_remove i ch)"
  "keeps (other_ciphers sid) (file_map_put i ch st)" "keeps (other_ciphers sid) (file_map_get i ch)"
  "keeps (other_ciphers sid) (file_map_remove i ch)"
  "keeps d_aead (file_map_put i ch st)" "keeps d_aead (file_map_get i ch)" "keeps d_aead (file_map_remove i ch)"
  "keeps d_in (on_forward w)" "keeps (other_ciphers sid) (on_forward w)" "keeps d_aead (on_forward w)"
  "keeps d_in (os_attempt c)" "keeps (other_ciphers sid) (os_attempt c)" "keeps d_aead (os_attempt c)"
  by (auto simp: keeps_def d_in_def other_ciphers_def file_map_put_def file_map_get_def file_map_remove_def
      on_forward_def os_attempt_def Let_def split: list.splits option.splits)

interpretation in_part: kept_part d_in sid for sid
  by unfold_locales (rule keeps_basic_parts keeps_table_parts)+

interpretation cipher_part: kept_part "other_ciphers sid" sid for sid
  by unfold_locales (rule keeps_basic_parts keeps_table_parts)+

interpretation key_part: kept_part "cipher_keys k" sid for k sid
  by unfold_locales (rule keeps_key_parts)+

interpretation aead_part: kept_part d_aead sid for sid
  by unfold_locales (rule keeps_basic_parts keeps_table_parts)+

section \<open>What dispatching does not look at\<close>

text \<open>
  A change of the state that commutes with the basic operations of one session commutes with the
  dispatcher.
\<close>

locale inert_change =
  fixes chg :: "daemon \<Rightarrow> daemon" and sid :: u32
  assumes com_send: "commutes chg (send_shared sid m)"
    and com_put: "commutes chg (file_map_put sid ch st)"
    and com_get: "commutes chg (file_map_get sid ch)"
    and com_remove: "commutes chg (file_map_remove sid ch)"
    and com_run: "commutes chg (run_command prog args)"
    and com_forward: "commutes chg (on_forward w)"
    and com_os: "commutes chg (os_attempt c)"
    and com_close: "commutes chg (handle_channel_close ch)"
    and chg_fs: "chg (d\<lparr>d_fs := f\<rparr>) = (chg d)\<lparr>d_fs := f\<rparr>"
    and fs_chg: "d_fs (chg d) = d_fs d"
    and forward_chg: "d_forward (chg d) = d_forward d"
begin

lemma com_fs: "commutes chg (on_fs g)"
  by (auto simp: commutes_def on_fs_def chg_fs fs_chg split: prod.splits)

lemma com_echo: "commutes chg (echo_client sid ch t lv)"
  by (simp add: echo_client_def com_send)

lemma com_proc:
  "(\<And>a b c. r = ProcOutput a b c \<Longrightarrow> commutes chg (f a b c)) \<Longrightarrow>
    (\<And>e. r = ProcFailed e \<Longrightarrow> commutes chg (g e)) \<Longrightarrow>
    commutes chg (case r of ProcOutput a b c \<Rightarrow> f a b c | ProcFailed e \<Rightarrow> g e)"
  by (cases r) auto

lemma com_direction:
  "commutes chg a \<Longrightarrow> commutes chg b \<Longrightarrow> commutes chg (case x of TransferSend \<Rightarrow> a | TransferRecv \<Rightarrow> b)"
  by (cases x) auto

lemmas inert = com_send com_put com_get com_remove com_run com_forward com_os com_close com_fs com_echo
  com_proc com_direction commutes_rules

lemma com_file_loop: "commutes chg (send_file_loop sid ch h)"
proof (rule commutesI)
  fix d r d'
  have echo: "commutes chg (io_bind (echo_client sid ch t LevelFail) (\<lambda>_. io_return False))" for t
    by (intro inert)
  show "send_file_loop sid ch h d = (r, d') \<Longrightarrow> send_file_loop sid ch h (chg d) = (r, chg d')"
  proof (induction "length (remaining h (d_fs d))" arbitrary: d rule: less_induct)
    case less
    obtain r1 d1 where read: "on_fs (file_read h MAX_SIZE_IOBUF) d = (r1, d1)"
      by (cases "on_fs (file_read h MAX_SIZE_IOBUF) d")
    note read' = commutesD [OF com_fs read]
    note unf = send_file_loop.simps [of sid ch h d] send_file_loop.simps [of sid ch h "chg d"]
    show ?case
    proof (cases r1)
      case (Inl e)
      then show ?thesis using commutesD [OF echo] less.prems read read' by (simp add: unf)
    next
      case (Inr buf)
      obtain r2 d2 where send: "send_shared sid (file_data_msg ch buf) d1 = (r2, d2)"
        by (cases "send_shared sid (file_data_msg ch buf) d1")
      note send' = commutesD [OF com_send send]
      show ?thesis
      proof (cases "buf = [] \<or> (\<exists>e. r2 = Inl e)")
        case True
        then show ?thesis using less.prems read read' Inr send send' by (auto simp: unf split: if_splits)
      next
        case False
        then obtain u where u: "r2 = Inr u" "buf \<noteq> []" by (cases r2) auto
        then show ?thesis
          using less.hyps [OF send_file_round [OF read [unfolded Inr] _ send [unfolded u(1)]]]
            less.prems read read' Inr send send'
          by (simp add: unf)
      qed
    qed
  qed
qed

lemma com_file_task: "commutes chg (handle_file_task msg sid)"
proof -
  have "commutes chg (handle_file_init msg sid)" "commutes chg (handle_file_check msg sid)"
    "commutes chg (handle_file_begin msg sid)" "commutes chg (handle_file_data msg sid)"
    "commutes chg (handle_file_finish msg sid)" "commutes chg (handle_file_recv_init msg sid)"
    unfolding handle_file_init_def handle_file_check_def handle_file_begin_def handle_file_data_def
      handle_file_finish_def handle_file_recv_init_def handle_daemon_file_send_def
    by (intro inert com_file_loop)+
  then show ?thesis by (cases "tm_command msg") (simp_all add: handle_file_task_def commutes_basic)
qed

lemma com_report: "commutes chg (report_command sid ch a b r)"
  unfolding report_command_def by (intro inert)

lemma com_app_task: "commutes chg (handle_app_task msg sid)"
proof -
  have "commutes chg (handle_app_init msg sid)" "commutes chg (handle_app_check msg sid)"
    "commutes chg (handle_app_begin msg sid)" "commutes chg (handle_app_data msg sid)"
    "commutes chg (handle_app_finish msg sid)" "commutes chg (handle_app_uninstall msg sid)"
    unfolding handle_app_init_def handle_app_check_def handle_app_begin_def handle_app_data_def
      handle_app_finish_def handle_app_uninstall_def
    by (intro inert com_report)+
  then show ?thesis by (cases "tm_command msg") (simp_all add: handle_app_task_def commutes_basic)
qed

lemma com_flashd_task: "commutes chg (handle_flashd_task msg sid)"
  by (cases "tm_command msg") (auto simp: handle_flashd_task_def com_send commutes_basic)

lemma com_remote: "commutes chg (connect_remote spec)" "commutes chg (check_remote_reachable spec)"
  "commutes chg (start_listener spec)"
  unfolding connect_remote_def check_remote_reachable_def start_listener_def connect_abstract_socket_def
    listen_abstract_socket_def Let_def
  by (intro inert)+

lemma com_forward_command: "commutes chg (forward_command msg sid)"
proof -
  have "commutes chg (handle_rport_init msg sid)" "commutes chg (handle_forward_check msg sid)"
    "commutes chg (handle_active_slave msg sid)" "commutes chg (handle_forward_data msg)"
    "commutes chg (handle_free_context msg)"
    unfolding handle_rport_init_def handle_forward_check_def handle_active_slave_def handle_forward_data_def
      handle_free_context_def Let_def
    by (intro inert com_remote)+
  then show ?thesis by (cases "tm_command msg") (simp_all add: forward_command_def com_echo commutes_basic)
qed

lemma com_forward_task: "commutes chg (handle_forward_task msg sid)"
proof (rule commutesI)
  fix d r d' assume "handle_forward_task msg sid d = (r, d')"
  then show "handle_forward_task msg sid (chg d) = (r, chg d')"
    using commutesD [OF com_forward_command, of msg d] commutesD [OF com_forward]
    by (auto simp: handle_forward_task_def forward_chg split: option.split_asm)
qed

lemma com_dispatch_task: "commutes chg (dispatch_task msg sid)"
  unfolding dispatch_task_def Let_def handle_shell_def handle_interactive_shell_def handle_reboot_def
    handle_remount_def handle_runmode_def handle_hilog_def handle_close_def
  by (intro inert com_file_task com_app_task com_flashd_task com_forward_task)

end

text \<open>
  What receiving changes: the reader of the connection, and the receive counter of the session's
  cipher.
\<close>

definition set_recv :: "u32 \<Rightarrow> tcp_in \<Rightarrow> u64 \<Rightarrow> daemon \<Rightarrow> daemon" where
  "set_recv sid i n d = d\<lparr>d_link := (d_link d)\<lparr>link_in := i,
     link_ciphers := (link_ciphers (d_link d))(sid :=
       map_option (\<lambda>c. c\<lparr>recv_counter := n\<rparr>) (link_ciphers (d_link d) sid))\<rparr>\<rparr>"

lemma set_recv_fields [simp]:
  "d_aead (set_recv sid i n d) = d_aead d" "d_tasks (set_recv sid i n d) = d_tasks d"
  "d_fs (set_recv sid i n d) = d_fs d" "d_procs (set_recv sid i n d) = d_procs d"
  "d_runs (set_recv sid i n d) = d_runs d" "d_forward (set_recv sid i n d) = d_forward d"
  by (simp_all add: set_recv_def)

lemma send_commutes: "commutes (set_recv sid i n) (send_shared sid m)"
proof (rule commutesI)
  fix d r d' assume send: "send_shared sid m d = (r, d')"
  show "send_shared sid m (set_recv sid i n d) = (r, set_recv sid i n d')"
  proof (cases "link_ciphers (d_link d) sid")
    case None
    then show ?thesis
      using send by (auto simp: send_shared_def daemon_send_message_def get_session_cipher_def set_recv_def
          on_out_def Let_def split: prod.splits)
  next
    case (Some c)
    obtain x c' where enc: "psk_encrypt (d_aead d) c (concat_pack m) = (x, c')" by fastforce
    then show ?thesis
      using send Some
      by (cases x)
        (auto simp: send_shared_def daemon_send_message_def get_session_cipher_def psk_encrypt_recv
          set_recv_def set_session_cipher_def on_out_def io_bind_def Let_def split: prod.splits sum.splits)
  qed
qed

interpretation recv_change: inert_change "set_recv sid i n" sid for sid i n
  by unfold_locales
    (simp_all add: send_commutes,
     simp_all add: commutes_def set_recv_def file_map_put_def file_map_get_def file_map_remove_def run_command_def
        on_forward_def os_attempt_def handle_channel_close_def Let_def split: list.splits option.splits)

end
