(* ===== verification/Daemon_Session.thy ===== *)
theory Daemon_Session
  imports Daemon_Task Auth_Tlv
begin

text \<open>
  A connection to the daemon (\<open>handle_client\<close> of \<open>hdcd/src/main.rs\<close>): the handshake, the optional
  key exchange, and the message loop; and the bridge of an interactive shell
  (\<open>hdcd/src/shell.rs\<close>). The environment variables, the random numbers, the RSA and Base64 packages
  and the ten-second limit are arguments. The message loop is a total function: every round takes at
  least one byte off the connection.
\<close>

section \<open>Environment\<close>

record rsa_lib =
  rsa_public_key :: "string \<Rightarrow> string + bytes"
  rsa_encrypt :: "bytes \<Rightarrow> bytes \<Rightarrow> string + bytes"
  base64_encode :: "bytes \<Rightarrow> string"

record session_env =
  se_encrypt_channel :: "string option"
  se_hostname :: "string option"
  se_computername :: "string option"
  se_daemon_port :: "string option"
  se_random_id :: u32
  se_psk :: bytes
  se_rsa :: rsa_lib
  se_ack_in_time :: bool

definition get_daemon_port :: "session_env \<Rightarrow> u16" where
  "get_daemon_port env =
    (case se_daemon_port env of
       None \<Rightarrow> DAEMON_PORT
     | Some s \<Rightarrow> (case parse_uint 65535 s of None \<Rightarrow> DAEMON_PORT | Some n \<Rightarrow> of_nat n))"

definition encrypt_psk_with_pubkey :: "rsa_lib \<Rightarrow> string \<Rightarrow> bytes \<Rightarrow> bytes io_result" where
  "encrypt_psk_with_pubkey R pubkey_pem psk =
    (let parts = split_on HDC_HOST_DAEMON_BUF_SEPARATOR pubkey_pem;
         pem = (if 1 < length parts then parts ! 1 else pubkey_pem)
     in case rsa_public_key R pem of
          Inl e \<Rightarrow> Inl (Error InvalidData (''Invalid host public key: '' @ e))
        | Inr public_key \<Rightarrow>
            (case rsa_encrypt R public_key psk of
               Inl e \<Rightarrow> Inl (Error OtherKind (''RSA encrypt PSK failed: '' @ e))
             | Inr ct \<Rightarrow> Inr ct))"

section \<open>Receiving\<close>

definition recv_task :: "u32 \<Rightarrow> (daemon, task_message) io" where
  "recv_task session_id d =
    (case daemon_unpack_task_message (d_aead d) session_id (d_link d) of (r, l) \<Rightarrow> (r, d\<lparr>d_link := l\<rparr>))"

lemma on_in_Inr: "on_in m l = (Inr x, l') \<longleftrightarrow> (\<exists>i. m (link_in l) = (Inr x, i) \<and> l' = l\<lparr>link_in := i\<rparr>)"
  by (cases "m (link_in l)") (auto simp: on_in_def)

lemma daemon_unpack_consumes:
  assumes "daemon_unpack_task_message A sid l = (Inr msg, l')"
  shows "length (in_contents (link_in l')) < length (in_contents (link_in l))"
proof (cases "get_session_cipher sid l")
  case None
  then show ?thesis
    using assms recv_raw_frame_consumes
    by (auto simp: daemon_unpack_task_message_def io_bind_eq_Inr on_in_Inr io_lift_def)
next
  case (Some c)
  then show ?thesis
    using assms
    by (auto simp: daemon_unpack_task_message_def io_bind_eq_Inr on_in_Inr io_lift_def set_session_cipher_def
        case_prod_beta dest!: read_frame_consumes)
qed

lemma recv_task_consumes:
  "recv_task sid d = (Inr msg, d') \<Longrightarrow> length (in_contents (d_in d')) < length (in_contents (d_in d))"
  by (auto simp: recv_task_def d_in_def split: prod.splits dest: daemon_unpack_consumes)

section \<open>Message loop\<close>

text \<open>How a connection ends: closed, or handed to the shell bridge of a channel.\<close>

datatype session_end = SessionClosed | ShellBridge u32

function session_loop :: "u32 \<Rightarrow> daemon \<Rightarrow> session_end \<times> daemon" where
  "session_loop session_id d =
    (case recv_task session_id d of
       (Inl _, d1) \<Rightarrow> (SessionClosed, d1)
     | (Inr msg, d1) \<Rightarrow>
         if tm_command msg = ShellInit then (ShellBridge (tm_channel_id msg), d1)
         else (case dispatch_task msg session_id d1 of
                 (Inl e, d2) \<Rightarrow>
                   if err_kind e = ConnectionAborted then (SessionClosed, d2) else session_loop session_id d2
               | (Inr _, d2) \<Rightarrow> session_loop session_id d2))"
  by pat_completeness auto

lemma session_round:
  assumes "recv_task sid d = (Inr msg, d1)" "dispatch_task msg sid d1 = (r, d2)"
  shows "length (in_contents (d_in d2)) < length (in_contents (d_in d))"
  using recv_task_consumes [OF assms(1)] keepsD [OF in_part.keeps_dispatch_task assms(2)] by simp

termination session_loop
  by (relation "measure (\<lambda>(_, d). length (in_contents (d_in d)))")
    (auto intro: session_round [OF sym sym])

declare session_loop.simps [simp del]

section \<open>Handshake\<close>

definition daemon_version :: string where
  "daemon_version = get_version @ ''47d583e40754ffe6''"

definition plain_response :: "session_env \<Rightarrow> u32 \<Rightarrow> string \<Rightarrow> session_handshake" where
  "plain_response env session_id connect_key =
    \<lparr>hs_banner = HANDSHAKE_MESSAGE, hs_auth_type = AUTH_TYPE_OK, hs_session_id = session_id,
     hs_connect_key = connect_key,
     hs_buf = build_daemon_auth_buf (se_hostname env) (se_computername env) (se_encrypt_channel env),
     hs_version = daemon_version\<rparr>"

text \<open>The response and, with encryption, the key; \<open>None\<close> when parsing the host's records panics.\<close>

definition session_response :: "session_env \<Rightarrow> u32 \<Rightarrow> string \<Rightarrow> string \<Rightarrow> bool \<Rightarrow> (session_handshake \<times> bytes option) io_result option" where
  "session_response env session_id connect_key host_hs_buf encrypt_enabled =
    (if encrypt_enabled then
       (case extract_host_pubkey host_hs_buf of
          None \<Rightarrow> None
        | Some None \<Rightarrow> Some (Inr (plain_response env session_id connect_key, None))
        | Some (Some pubkey_info) \<Rightarrow> Some (
            and_then (encrypt_psk_with_pubkey (se_rsa env) pubkey_info (se_psk env)) (\<lambda>encrypted_psk.
            Inr (\<lparr>hs_banner = HANDSHAKE_MESSAGE, hs_auth_type = AUTH_TYPE_SSL_TLS_PSK, hs_session_id = session_id,
                  hs_connect_key = connect_key, hs_buf = base64_encode (se_rsa env) encrypted_psk,
                  hs_version = daemon_version\<rparr>, Some (se_psk env)))))
     else Some (Inr (plain_response env session_id connect_key, None)))"

definition set_cipher :: "u32 \<Rightarrow> psk_cipher \<Rightarrow> daemon \<Rightarrow> daemon" where
  "set_cipher session_id c d = d\<lparr>d_link := set_session_cipher session_id c (d_link d)\<rparr>"

definition remove_cipher :: "u32 \<Rightarrow> daemon \<Rightarrow> daemon" where
  "remove_cipher session_id d = d\<lparr>d_link := remove_session_cipher session_id (d_link d)\<rparr>"

text \<open>The wait for the acknowledgement of the key.\<close>

definition wait_psk_ack :: "session_env \<Rightarrow> u32 \<Rightarrow> (daemon, unit) io" where
  "wait_psk_ack env session_id d =
    (if \<not> se_ack_in_time env then (Inl (Error TimedOut ''PSK-ACK timeout''), remove_cipher session_id d)
     else (case recv_task session_id d of
             (Inl e, d') \<Rightarrow> (Inl e, remove_cipher session_id d')
           | (Inr msg, d') \<Rightarrow>
               if tm_command msg \<noteq> KernelHandshake
               then (Inl (Error InvalidData ''PSK-ACK expected''), remove_cipher session_id d')
               else (Inr (), d')))"

text \<open>The messages after the handshake, and the end of the connection.\<close>

definition serve_session :: "u32 \<Rightarrow> (daemon, session_end) io" where
  "serve_session session_id d =
    (case session_loop session_id d of
       (SessionClosed, d') \<Rightarrow> (Inr SessionClosed, remove_cipher session_id d')
     | (ShellBridge ch, d') \<Rightarrow> (Inr (ShellBridge ch), d'))"

text \<open>From the response on: send it, switch the cipher on, wait for the acknowledgement, serve.\<close>

definition start_session :: "session_env \<Rightarrow> u32 \<Rightarrow> bool \<Rightarrow> task_message \<Rightarrow> bytes option \<Rightarrow> (daemon, session_end) io" where
  "start_session env session_id encrypt_enabled response psk_option =
    io_bind (send_shared session_id response) (\<lambda>_.
    io_bind (\<lambda>d. (Inr (), case psk_option of
        None \<Rightarrow> d | Some psk \<Rightarrow> set_cipher session_id (psk_new psk False) d)) (\<lambda>_.
    io_bind (if encrypt_enabled then wait_psk_ack env session_id else io_return ()) (\<lambda>_.
    serve_session session_id)))"

definition handle_client :: "session_env \<Rightarrow> daemon \<Rightarrow> (session_end io_result \<times> daemon) option" where
  "handle_client env d =
    (case recv_task 0 d of
       (Inl e, d1) \<Rightarrow> Some (Inl e, d1)
     | (Inr first_msg, d1) \<Rightarrow>
         let (session_id, connect_key, host_hs_buf) =
               (case deserialize_session_handshake (tm_payload first_msg) of
                  Inr hs \<Rightarrow> (hs_session_id hs, hs_connect_key hs, hs_buf hs)
                | Inl _ \<Rightarrow> (se_random_id env, [], []))
         in
         case (if se_encrypt_channel env = Some ''1'' then host_supports_encrypt host_hs_buf else Some False) of
           None \<Rightarrow> None
         | Some encrypt_enabled \<Rightarrow>
             (case session_response env session_id connect_key host_hs_buf encrypt_enabled of
                None \<Rightarrow> None
              | Some (Inl e) \<Rightarrow> Some (Inl e, d1)
              | Some (Inr (response_hs, psk_option)) \<Rightarrow> Some (
                  start_session env session_id encrypt_enabled
                    \<lparr>tm_channel_id = tm_channel_id first_msg, tm_command = KernelHandshake,
                     tm_payload = serialize_session_handshake response_hs\<rparr> psk_option d1)))"

section \<open>Interactive shell\<close>

text \<open>
  What the bridge waits for: a message from the host or output of the terminal. When both sources
  are closed the \<open>select!\<close> of the source has no branch left and panics: the end of the event list
  gives \<open>None\<close>. \<open>pty\<close> is what was passed to the terminal.
\<close>

datatype bridge_event = BridgeMsg task_message | PtyData bytes

fun shell_bridge_loop :: "u32 \<Rightarrow> u32 \<Rightarrow> bridge_event list \<Rightarrow> bytes list \<Rightarrow> daemon \<Rightarrow> (bytes list \<times> daemon) option" where
  "shell_bridge_loop session_id channel_id [] pty d = None"
| "shell_bridge_loop session_id channel_id (BridgeMsg msg # evs) pty d =
    (if tm_command msg = ShellData then
       shell_bridge_loop session_id channel_id evs (pty @ [tm_payload msg]) d
     else if tm_command msg = HeartbeatMsg then
       shell_bridge_loop session_id channel_id evs pty
         (snd (send_shared session_id \<lparr>tm_channel_id = channel_id, tm_command = HeartbeatMsg,
            tm_payload = tm_payload msg\<rparr> d))
     else if tm_command msg = KernelChannelClose then Some (pty, d)
     else shell_bridge_loop session_id channel_id evs pty d)"
| "shell_bridge_loop session_id channel_id (PtyData data # evs) pty d =
    (case send_shared session_id \<lparr>tm_channel_id = channel_id, tm_command = ShellData, tm_payload = data\<rparr> d of
       (Inl _, d') \<Rightarrow> Some (pty, d')
     | (Inr _, d') \<Rightarrow> shell_bridge_loop session_id channel_id evs pty d')"

definition send_echo :: "u32 \<Rightarrow> u32 \<Rightarrow> string \<Rightarrow> (daemon, unit) io" where
  "send_echo session_id channel_id text = send_shared session_id
    \<lparr>tm_channel_id = channel_id, tm_command = KernelEcho,
     tm_payload = 2 # as_bytes (text @ [CHR 0x0D, CHR 0x0A])\<rparr>"

text \<open>The terminal may fail to open, the shell to start, the reader to be cloned.\<close>

datatype pty_start = PtyOpenFailed | SpawnFailed | ReaderFailed | PtyReady

definition run_shell_bridge :: "u32 \<Rightarrow> u32 \<Rightarrow> pty_start \<Rightarrow> bridge_event list \<Rightarrow> daemon \<Rightarrow> (bytes list \<times> daemon) option" where
  "run_shell_bridge session_id channel_id start evs d =
    (case start of
       PtyOpenFailed \<Rightarrow> Some ([], snd (send_echo session_id channel_id ''Shell initialize failed'' d))
     | SpawnFailed \<Rightarrow> Some ([], snd (send_echo session_id channel_id ''Shell initialize failed'' d))
     | ReaderFailed \<Rightarrow> Some ([], d)
     | PtyReady \<Rightarrow> shell_bridge_loop session_id channel_id evs [] d)"

section \<open>The loop serves the messages in order\<close>

text \<open>
  The specification of the loop on the list of messages that arrive: each is dispatched on the state
  that the previous one left, until the list ends, a shell is asked for or a handler aborts.
\<close>

fun serve_spec :: "u32 \<Rightarrow> task_message list \<Rightarrow> daemon \<Rightarrow> session_end \<times> daemon" where
  "serve_spec sid [] d = (SessionClosed, d)"
| "serve_spec sid (m # ms) d =
    (if tm_command m = ShellInit then (ShellBridge (tm_channel_id m), d)
     else (case dispatch_task m sid d of
             (Inl e, d') \<Rightarrow> if err_kind e = ConnectionAborted then (SessionClosed, d') else serve_spec sid ms d'
           | (Inr _, d') \<Rightarrow> serve_spec sid ms d'))"

lemma serve_spec_recv:
  "serve_spec sid ms (set_recv sid i n d)
    = (fst (serve_spec sid ms d), set_recv sid i n (snd (serve_spec sid ms d)))"
proof (induction ms arbitrary: d)
  case (Cons m ms)
  obtain r d' where "dispatch_task m sid d = (r, d')" by (cases "dispatch_task m sid d")
  then show ?case
    using Cons.IH commutesD [OF recv_change.com_dispatch_task, of m sid d r d'] by (cases r) simp_all
qed simp

lemma set_recv_twice [simp]: "set_recv sid i n (set_recv sid j k d) = set_recv sid i n d"
  by (simp add: set_recv_def option.map_comp comp_def)

lemma set_recv_id: "\<exists>n. d\<lparr>d_link := (d_link d)\<lparr>link_in := i\<rparr>\<rparr> = set_recv sid i n d"
proof (cases "link_ciphers (d_link d) sid")
  case (Some c)
  then have "d\<lparr>d_link := (d_link d)\<lparr>link_in := i\<rparr>\<rparr> = set_recv sid i (recv_counter c) d"
    by (simp add: set_recv_def fun_upd_idem)
  then show ?thesis by blast
qed (auto simp: set_recv_def fun_upd_idem)

lemma set_recv_cipher: "link_ciphers (d_link d) sid = Some c \<Longrightarrow>
    d\<lparr>d_link := (d_link d)\<lparr>link_in := i, link_ciphers := (link_ciphers (d_link d))(sid \<mapsto> c\<lparr>recv_counter := n\<rparr>)\<rparr>\<rparr>
      = set_recv sid i n d"
  by (simp add: set_recv_def)

text \<open>Receiving changes the reader and the receive counter, and nothing else.\<close>

lemma recv_task_frame:
  assumes "recv_task sid d = (r, d')"
  shows "\<exists>i n. d' = set_recv sid i n d"
proof (cases "link_ciphers (d_link d) sid")
  case None
  then obtain i where "d' = d\<lparr>d_link := (d_link d)\<lparr>link_in := i\<rparr>\<rparr>"
    using assms
    by (auto simp: recv_task_def daemon_unpack_task_message_def get_session_cipher_def io_bind_def on_in_def
        io_lift_def split: prod.splits sum.splits)
  then show ?thesis using set_recv_id by metis
next
  case (Some c)
  obtain r1 i1 where r1: "read_frame 4 (link_in (d_link d)) = (r1, i1)" by fastforce
  show ?thesis
  proof (cases r1)
    case (Inl e)
    then have "d' = d\<lparr>d_link := (d_link d)\<lparr>link_in := i1\<rparr>\<rparr>"
      using assms Some r1
      by (simp add: recv_task_def daemon_unpack_task_message_def get_session_cipher_def io_bind_def on_in_def)
    then show ?thesis using set_recv_id by metis
  next
    case len: (Inr len)
    obtain r2 i2 where r2: "read_frame (unat (from_be len :: u32)) i1 = (r2, i2)" by fastforce
    show ?thesis
    proof (cases r2)
      case (Inl e)
      then have "d' = d\<lparr>d_link := (d_link d)\<lparr>link_in := i2\<rparr>\<rparr>"
        using assms Some r1 r2 len
        by (simp add: recv_task_def daemon_unpack_task_message_def get_session_cipher_def io_bind_def on_in_def)
      then show ?thesis using set_recv_id by metis
    next
      case (Inr ct)
      obtain n where n: "snd (psk_decrypt (d_aead d) c ct) = c\<lparr>recv_counter := n\<rparr>"
        using psk_decrypt_frame by blast
      have "d' = d\<lparr>d_link := (d_link d)\<lparr>link_in := i2,
          link_ciphers := (link_ciphers (d_link d))(sid \<mapsto> c\<lparr>recv_counter := n\<rparr>)\<rparr>\<rparr>"
        using assms Some r1 r2 len Inr n
        by (auto simp: recv_task_def daemon_unpack_task_message_def get_session_cipher_def io_bind_def on_in_def
            set_session_cipher_def io_lift_def case_prod_beta split: sum.splits)
      then show ?thesis using set_recv_cipher [OF Some] by metis
    qed
  qed
qed

locale message_stream =
  fixes stream :: "task_message list \<Rightarrow> daemon \<Rightarrow> bool" and sid :: u32
  assumes recv_next: "stream (m # ms) d \<Longrightarrow> \<exists>d'. recv_task sid d = (Inr m, d') \<and> stream ms d'"
    and recv_end: "stream [] d \<Longrightarrow> \<exists>e d'. recv_task sid d = (Inl e, d')"
    and stream_dispatch: "stream ms d \<Longrightarrow> dispatch_task m sid d = (r, d') \<Longrightarrow> stream ms d'"
begin

lemma session_loop_spec:
  "stream ms d \<Longrightarrow> \<exists>i n. session_loop sid d
    = (fst (serve_spec sid ms d), set_recv sid i n (snd (serve_spec sid ms d)))"
proof (induction ms arbitrary: d)
  case Nil
  then obtain e d' where "recv_task sid d = (Inl e, d')" using recv_end by blast
  then show ?case using recv_task_frame by (fastforce simp: session_loop.simps [of sid d])
next
  case (Cons m ms)
  obtain d1 where d1: "recv_task sid d = (Inr m, d1)" "stream ms d1" using recv_next [OF Cons.prems] by blast
  obtain i n where in1: "d1 = set_recv sid i n d" using recv_task_frame [OF d1(1)] by blast
  obtain r d2 where d2: "dispatch_task m sid d = (r, d2)" by (cases "dispatch_task m sid d")
  have d2': "dispatch_task m sid d1 = (r, set_recv sid i n d2)"
    using commutesD [OF recv_change.com_dispatch_task d2] by (simp add: in1)
  obtain i' n' where "session_loop sid (set_recv sid i n d2)
      = (fst (serve_spec sid ms d2), set_recv sid i' n' (snd (serve_spec sid ms d2)))"
    using Cons.IH [OF stream_dispatch [OF d1(2) d2']] by (auto simp: serve_spec_recv)
  then show ?case
    using d1(1) d2 d2' in1 by (cases r) (auto simp: session_loop.simps [of sid d])
qed

end

text \<open>A connection in the clear, and one under a cipher whose peer has sent the messages.\<close>

definition clear_stream :: "u32 \<Rightarrow> task_message list \<Rightarrow> daemon \<Rightarrow> bool" where
  "clear_stream sid ms d \<longleftrightarrow> cipher_keys sid d = None \<and> (\<forall>m \<in> set ms. wf_task_message m)
    \<and> in_ok (d_in d) \<and> in_contents (d_in d) = concat (map concat_pack ms)"

definition encrypted_stream :: "u32 \<Rightarrow> task_message list \<Rightarrow> daemon \<Rightarrow> bool" where
  "encrypted_stream sid ms d \<longleftrightarrow> (\<exists>h fs h'. aead_correct (d_aead d)
    \<and> cipher_keys sid d = Some (recv_key h, send_key h)
    \<and> length (send_key h) = KEY_LEN \<and> length (recv_key h) = KEY_LEN
    \<and> (\<forall>m \<in> set ms. wf_task_message m)
    \<and> encrypt_all (d_aead d) h (map concat_pack ms) = (Inr fs, h')
    \<and> in_ok (d_in d) \<and> in_contents (d_in d) = concat (map channel_frame fs))"

lemma set_recv_keys [simp]: "cipher_keys sid (set_recv sid i n d) = cipher_keys sid d"
  by (simp add: cipher_keys_def set_recv_def option.map_comp comp_def)

lemma dispatch_parts:
  assumes "dispatch_task m sid d = (r, d')"
  shows "d_in d' = d_in d" "d_aead d' = d_aead d" "cipher_keys sid d' = cipher_keys sid d"
  using keepsD [OF in_part.keeps_dispatch_task assms] keepsD [OF aead_part.keeps_dispatch_task assms]
    keepsD [OF key_part.keeps_dispatch_task assms] by auto

lemma recv_empty:
  assumes "in_ok (d_in d)" "in_contents (d_in d) = []"
  shows "\<exists>e d'. recv_task sid d = (Inl e, d')"
proof -
  have short: "\<exists>e s'. read_frame (Suc n) (link_in (d_link d)) = (Inl e, s')" for n
    using frame_source.get_short [of "link_in (d_link d)" "Suc n"] assms by (simp add: d_in_def)
  obtain e s' where "read_frame 4 (link_in (d_link d)) = (Inl e, s')" using short [of 3] by auto
  moreover obtain e' s'' where "read_frame HEAD_SIZE (link_in (d_link d)) = (Inl e', s'')"
    using short [of 10] by (auto simp: HEAD_SIZE_def)
  ultimately show ?thesis
    by (auto simp: recv_task_def daemon_unpack_task_message_def io_bind_def on_in_def recv_raw_frame_def
        split: option.splits)
qed

interpretation clear: message_stream "clear_stream sid" sid for sid
proof
  fix m ms d assume s: "clear_stream sid (m # ms) d"
  then obtain l' where l': "daemon_unpack_task_message (d_aead d) sid (d_link d) = (Inr m, l')"
    "in_contents (link_in l') = concat (map concat_pack ms)" "in_ok (link_in l')"
    using daemon_recv_clear [of sid "d_link d" m "concat (map concat_pack ms)" "d_aead d"]
    by (auto simp: clear_stream_def d_in_def cipher_keys_def get_session_cipher_def)
  then have r: "recv_task sid d = (Inr m, d\<lparr>d_link := l'\<rparr>)" by (simp add: recv_task_def)
  with recv_task_frame [OF r] s l' show "\<exists>d'. recv_task sid d = (Inr m, d') \<and> clear_stream sid ms d'"
    by (auto simp: clear_stream_def d_in_def)
next
  fix d assume "clear_stream sid [] d"
  then show "\<exists>e d'. recv_task sid d = (Inl e, d')" using recv_empty by (simp add: clear_stream_def)
next
  fix ms d m r d' assume "clear_stream sid ms d" "dispatch_task m sid d = (r, d')"
  then show "clear_stream sid ms d'" using dispatch_parts by (simp add: clear_stream_def)
qed

interpretation encrypted: message_stream "encrypted_stream sid" sid for sid
proof
  fix m ms d assume "encrypted_stream sid (m # ms) d"
  then obtain h fs h' where s: "aead_correct (d_aead d)" "cipher_keys sid d = Some (recv_key h, send_key h)"
    "length (send_key h) = KEY_LEN" "length (recv_key h) = KEY_LEN"
    "wf_task_message m" "\<forall>m \<in> set ms. wf_task_message m"
    "encrypt_all (d_aead d) h (map concat_pack (m # ms)) = (Inr fs, h')"
    "in_ok (d_in d)" "in_contents (d_in d) = concat (map channel_frame fs)"
    by (auto simp: encrypted_stream_def)
  then obtain c where c: "link_ciphers (d_link d) sid = Some c" "send_key c = recv_key h" "recv_key c = send_key h"
    by (auto simp: cipher_keys_def)
  then have peers: "psk_peers h c" using s(3,4) by (simp add: psk_peers_def)
  have len: "length (concat_pack m) < 2 ^ 32" using length_wf_packet [OF s(5)] by simp
  let ?h = "h\<lparr>send_counter := send_counter h + 1\<rparr>"
  obtain f where f: "psk_encrypt (d_aead d) h (concat_pack m) = (Inr f, ?h)"
    "psk_decrypt (d_aead d) c f = (Inr (concat_pack m), c\<lparr>recv_counter := send_counter h + 1\<rparr>)"
    "length f = length (concat_pack m) + 24"
    using psk_frame [OF s(1) peers len] by metis
  then obtain gs where gs: "encrypt_all (d_aead d) ?h (map concat_pack ms) = (Inr gs, h')" "fs = f # gs"
    using s(7) by (auto split: prod.splits sum.splits)
  have "length f < 2 ^ 32" using f(3) length_wf_packet [OF s(5)] by simp
  then obtain l' where l': "daemon_unpack_task_message (d_aead d) sid (d_link d) = (Inr m, l')"
    "in_contents (link_in l') = concat (map channel_frame gs)" "in_ok (link_in l')"
    using daemon_recv_encrypted [of sid "d_link d" c "d_aead d" f m _ "concat (map channel_frame gs)"] c f(2) s(5,8,9) gs(2)
    by (auto simp: get_session_cipher_def d_in_def)
  then have r: "recv_task sid d = (Inr m, d\<lparr>d_link := l'\<rparr>)" by (simp add: recv_task_def)
  then have "cipher_keys sid (d\<lparr>d_link := l'\<rparr>) = cipher_keys sid d" using recv_task_frame [OF r] by auto
  with s l' gs(1) have "encrypted_stream sid ms (d\<lparr>d_link := l'\<rparr>)"
    unfolding encrypted_stream_def by (intro exI [of _ ?h] exI [of _ gs] exI [of _ h']) (simp add: d_in_def)
  with r show "\<exists>d'. recv_task sid d = (Inr m, d') \<and> encrypted_stream sid ms d'" by blast
next
  fix d assume "encrypted_stream sid [] d"
  then show "\<exists>e d'. recv_task sid d = (Inl e, d')" using recv_empty by (auto simp: encrypted_stream_def)
next
  fix ms d m r d' assume "encrypted_stream sid ms d" "dispatch_task m sid d = (r, d')"
  then show "encrypted_stream sid ms d'" using dispatch_parts unfolding encrypted_stream_def by metis
qed

section \<open>Whole connections\<close>

lemma set_recv_clear: "cipher_keys k d = None \<Longrightarrow> set_recv k i n d = d\<lparr>d_link := (d_link d)\<lparr>link_in := i\<rparr>\<rparr>"
  by (simp add: set_recv_def cipher_keys_def fun_upd_idem)

lemma link_up_set_in [simp]: "link_up sid (d\<lparr>d_link := (d_link d)\<lparr>link_in := i\<rparr>\<rparr>) = link_up sid d"
  by (simp add: link_up_def get_session_cipher_def)

text \<open>The first message, in the clear.\<close>

lemma recv_first:
  assumes "cipher_keys 0 d = None" "wf_task_message m" "in_ok (d_in d)" "in_contents (d_in d) = concat_pack m @ rest"
  obtains i where "recv_task 0 d = (Inr m, d\<lparr>d_link := (d_link d)\<lparr>link_in := i\<rparr>\<rparr>)" "in_ok i" "in_contents i = rest"
proof -
  obtain l' where l': "daemon_unpack_task_message (d_aead d) 0 (d_link d) = (Inr m, l')"
    "in_contents (link_in l') = rest" "in_ok (link_in l')"
    using daemon_recv_clear [of 0 "d_link d" m rest "d_aead d"] assms
    by (auto simp: d_in_def cipher_keys_def get_session_cipher_def)
  then have r: "recv_task 0 d = (Inr m, d\<lparr>d_link := l'\<rparr>)" by (simp add: recv_task_def)
  then obtain i n where "d\<lparr>d_link := l'\<rparr> = set_recv 0 i n d" using recv_task_frame by blast
  then have eq: "d\<lparr>d_link := l'\<rparr> = d\<lparr>d_link := (d_link d)\<lparr>link_in := i\<rparr>\<rparr>" using set_recv_clear [OF assms(1)] by simp
  then have "l' = (d_link d)\<lparr>link_in := i\<rparr>" by (metis daemon.select_convs(2) daemon.surjective daemon.update_convs(2))
  with r eq l' show thesis by (intro that [of i]) simp_all
qed

definition handshake_msg :: "u32 \<Rightarrow> session_handshake \<Rightarrow> task_message" where
  "handshake_msg ch hs = \<lparr>tm_channel_id = ch, tm_command = KernelHandshake, tm_payload = serialize_session_handshake hs\<rparr>"

lemma handshake_msg_sel [simp]:
  "tm_channel_id (handshake_msg ch hs) = ch" "tm_command (handshake_msg ch hs) = KernelHandshake"
  "tm_payload (handshake_msg ch hs) = serialize_session_handshake hs"
  by (simp_all add: handshake_msg_def)

text \<open>How a connection ends: the cipher is removed unless the connection goes to the shell bridge.\<close>

definition end_session :: "u32 \<Rightarrow> session_end \<Rightarrow> daemon \<Rightarrow> daemon" where
  "end_session sid e d = (case e of SessionClosed \<Rightarrow> remove_cipher sid d | ShellBridge _ \<Rightarrow> d)"

lemma serve_session_spec:
  assumes "session_loop sid d = (e, d')"
  shows "serve_session sid d = (Inr e, end_session sid e d')"
  using assms by (simp add: serve_session_def end_session_def split: session_end.splits)

lemma after_sends_set_in:
  "after_sends ms (d\<lparr>d_link := (d_link d)\<lparr>link_in := i\<rparr>\<rparr>)
    = (after_sends ms d)\<lparr>d_link := (d_link (after_sends ms d))\<lparr>link_in := i\<rparr>\<rparr>"
  by (simp add: after_sends_def sent_bytes_def)

lemma after_sends_keys [simp]: "cipher_keys k (after_sends ms d) = cipher_keys k d"
  by (simp add: after_sends_def cipher_keys_def)

lemma serve_after_in:
  assumes "message_stream stream sid" "stream ms d'"
    and "d' = d\<lparr>d_link := (d_link d)\<lparr>link_in := i\<rparr>\<rparr>"
  shows "\<exists>j n. session_loop sid d' = (fst (serve_spec sid ms d), set_recv sid j n (snd (serve_spec sid ms d)))"
proof -
  obtain k where "d' = set_recv sid i k d" using set_recv_id [where d = d and i = i and sid = sid] assms(3) by auto
  with message_stream.session_loop_spec [OF assms(1,2)] show ?thesis
    by (simp add: serve_spec_recv)
qed

lemma plain_session:
  assumes env: "se_encrypt_channel env \<noteq> Some ''1''" and hs: "wf_session_handshake hs"
    and keys: "cipher_keys 0 d = None" "cipher_keys (hs_session_id hs) d = None"
    and up: "link_up (hs_session_id hs) d"
    and wf: "wf_task_message (handshake_msg ch hs)" "\<forall>m \<in> set ms. wf_task_message m"
    and str: "in_ok (d_in d)" "in_contents (d_in d) = concat (map concat_pack (handshake_msg ch hs # ms))"
    and spec: "serve_spec (hs_session_id hs) ms
        (after_sends [handshake_msg ch (plain_response env (hs_session_id hs) (hs_connect_key hs))] d) = (e, d')"
  shows "\<exists>i n. handle_client env d = Some (Inr e, end_session (hs_session_id hs) e (set_recv (hs_session_id hs) i n d'))"
proof -
  let ?sid = "hs_session_id hs"
  let ?reply = "handshake_msg ch (plain_response env ?sid (hs_connect_key hs))"
  obtain i where first: "recv_task 0 d = (Inr (handshake_msg ch hs), d\<lparr>d_link := (d_link d)\<lparr>link_in := i\<rparr>\<rparr>)"
    "in_ok i" "in_contents i = concat (map concat_pack ms)"
    using recv_first [OF keys(1) wf(1) str(1)] str(2) by auto
  let ?d = "(after_sends [?reply] d)\<lparr>d_link := (d_link (after_sends [?reply] d))\<lparr>link_in := i\<rparr>\<rparr>"
  have strm: "clear_stream ?sid ms ?d"
    using first(2,3) wf(2) keys(2) by (simp add: clear_stream_def d_in_def cipher_keys_def after_sends_def)
  obtain j n where "session_loop ?sid ?d = (e, set_recv ?sid j n d')"
    using serve_after_in [OF clear.message_stream_axioms strm refl] spec by auto
  then have "serve_session ?sid ?d = (Inr e, end_session ?sid e (set_recv ?sid j n d'))"
    by (rule serve_session_spec)
  moreover have "send_shared ?sid ?reply (d\<lparr>d_link := (d_link d)\<lparr>link_in := i\<rparr>\<rparr>) = (Inr (), ?d)"
    using up by (simp add: send_shared_up after_sends_set_in)
  ultimately have "handle_client env d = Some (Inr e, end_session ?sid e (set_recv ?sid j n d'))"
    using env first(1) session_handshake_round_trip [OF hs]
    by (simp add: handle_client_def start_session_def session_response_def io_bind_def handshake_msg_def)
  then show ?thesis by blast
qed

text \<open>
  With encryption: the first message and the response with the key are in the clear, everything after
  that is encrypted under the key.
\<close>

definition psk_response :: "session_env \<Rightarrow> session_handshake \<Rightarrow> bytes \<Rightarrow> session_handshake" where
  "psk_response env hs epsk = \<lparr>hs_banner = HANDSHAKE_MESSAGE, hs_auth_type = AUTH_TYPE_SSL_TLS_PSK,
     hs_session_id = hs_session_id hs, hs_connect_key = hs_connect_key hs,
     hs_buf = base64_encode (se_rsa env) epsk, hs_version = daemon_version\<rparr>"

lemma set_cipher_set_in:
  "set_cipher sid c (d\<lparr>d_link := (d_link d)\<lparr>link_in := i\<rparr>\<rparr>)
    = (set_cipher sid c d)\<lparr>d_link := (d_link (set_cipher sid c d))\<lparr>link_in := i\<rparr>\<rparr>"
  by (simp add: set_cipher_def set_session_cipher_def)

lemma encrypted_session:
  assumes env: "se_encrypt_channel env = Some ''1''" "se_ack_in_time env" "length (se_psk env) = 32"
    and hs: "wf_session_handshake hs" "hs_buf hs = build_host_auth_buf (Inr info) (Some ''1'')"
    and info: "wf_str info" "length info < 10 ^ 16"
    and rsa: "encrypt_psk_with_pubkey (se_rsa env) info (se_psk env) = Inr epsk"
    and keys: "cipher_keys 0 d = None" and up: "link_up (hs_session_id hs) d" and A: "aead_correct (d_aead d)"
    and wf: "wf_task_message (handshake_msg ch hs)" "wf_task_message ack" "\<forall>m \<in> set ms. wf_task_message m"
    and ack: "tm_command ack = KernelHandshake"
    and enc: "encrypt_all (d_aead d) (psk_new (se_psk env) True) (map concat_pack (ack # ms)) = (Inr fs, h')"
    and str: "in_ok (d_in d)"
      "in_contents (d_in d) = concat_pack (handshake_msg ch hs) @ concat (map channel_frame fs)"
    and spec: "serve_spec (hs_session_id hs) ms (set_cipher (hs_session_id hs) (psk_new (se_psk env) False)
        (after_sends [handshake_msg ch (psk_response env hs epsk)] d)) = (e, d')"
  shows "\<exists>i n. handle_client env d = Some (Inr e, end_session (hs_session_id hs) e (set_recv (hs_session_id hs) i n d'))"
proof -
  let ?sid = "hs_session_id hs"
  let ?reply = "handshake_msg ch (psk_response env hs epsk)"
  let ?c = "psk_new (se_psk env) False" and ?h = "psk_new (se_psk env) True"
  let ?start = "set_cipher ?sid ?c (after_sends [?reply] d)"
  obtain i where first: "recv_task 0 d = (Inr (handshake_msg ch hs), d\<lparr>d_link := (d_link d)\<lparr>link_in := i\<rparr>\<rparr>)"
    "in_ok i" "in_contents i = concat (map channel_frame fs)"
    using recv_first [OF keys wf(1) str] by auto
  let ?d = "?start\<lparr>d_link := (d_link ?start)\<lparr>link_in := i\<rparr>\<rparr>"
  have peers: "psk_peers ?h ?c" using psk_new_peers [OF env(3), of True] by simp
  have "encrypted_stream ?sid (ack # ms) ?d"
    unfolding encrypted_stream_def
    using first(2,3) wf(2,3) A enc peers
    by (rule_tac exI [of _ ?h], rule_tac exI [of _ fs], rule_tac exI [of _ h'])
      (simp add: d_in_def cipher_keys_def set_cipher_def set_session_cipher_def psk_peers_def del: encrypt_all.simps)
  then obtain d1 where d1: "recv_task ?sid ?d = (Inr ack, d1)" "encrypted_stream ?sid ms d1"
    using encrypted.recv_next by blast
  obtain j k where jk: "d1 = set_recv ?sid j k ?start"
    using recv_task_frame [OF d1(1)] set_recv_id [where d = ?start and i = i and sid = ?sid] by fastforce
  obtain j' k' where "session_loop ?sid d1 = (e, set_recv ?sid j' k' d')"
    using encrypted.session_loop_spec [OF d1(2)] spec by (auto simp: jk serve_spec_recv)
  then have serve: "serve_session ?sid d1 = (Inr e, end_session ?sid e (set_recv ?sid j' k' d'))"
    by (rule serve_session_spec)
  have send: "send_shared ?sid ?reply (d\<lparr>d_link := (d_link d)\<lparr>link_in := i\<rparr>\<rparr>)
      = (Inr (), (after_sends [?reply] d)\<lparr>d_link := (d_link (after_sends [?reply] d))\<lparr>link_in := i\<rparr>\<rparr>)"
    using up by (simp add: send_shared_up after_sends_set_in)
  have caps: "host_supports_encrypt (hs_buf hs) = Some True" "extract_host_pubkey (hs_buf hs) = Some (Some info)"
    using host_supports_encrypt_iff [of "Inr info" "Some ''1''"] extract_host_pubkey_eq [of "Inr info" "Some ''1''"]
      info hs(2) by simp_all
  have "handle_client env d = Some (Inr e, end_session ?sid e (set_recv ?sid j' k' d'))"
    using env first(1) session_handshake_round_trip [OF hs(1)] caps rsa send d1(1) ack serve
    by (simp add: handle_client_def start_session_def session_response_def io_bind_def wait_psk_ack_def set_cipher_set_in
        handshake_msg_def psk_response_def)
  then show ?thesis by blast
qed

text \<open>
  A host that announces encryption without a key gets the plain response, but the daemon still waits
  for the acknowledgement of a key: the first command that follows ends the connection.
\<close>

lemma encryption_without_key:
  assumes env: "se_encrypt_channel env = Some ''1''" "se_ack_in_time env"
    and hs: "wf_session_handshake hs" "hs_buf hs = build_host_auth_buf (Inl err) (Some ''1'')"
    and keys: "cipher_keys 0 d = None" "cipher_keys (hs_session_id hs) d = None" and up: "link_up (hs_session_id hs) d"
    and wf: "wf_task_message (handshake_msg ch hs)" "wf_task_message m" and m: "tm_command m \<noteq> KernelHandshake"
    and str: "in_ok (d_in d)" "in_contents (d_in d) = concat_pack (handshake_msg ch hs) @ concat_pack m @ rest"
  shows "\<exists>d'. handle_client env d = Some (Inl (Error InvalidData ''PSK-ACK expected''), d')"
proof -
  let ?sid = "hs_session_id hs"
  let ?reply = "handshake_msg ch (plain_response env ?sid (hs_connect_key hs))"
  obtain i where first: "recv_task 0 d = (Inr (handshake_msg ch hs), d\<lparr>d_link := (d_link d)\<lparr>link_in := i\<rparr>\<rparr>)"
    "in_ok i" "in_contents i = concat_pack m @ rest"
    using recv_first [OF keys(1) wf(1) str] by auto
  let ?d = "(after_sends [?reply] d)\<lparr>d_link := (d_link (after_sends [?reply] d))\<lparr>link_in := i\<rparr>\<rparr>"
  obtain l' where "daemon_unpack_task_message (d_aead ?d) ?sid (d_link ?d) = (Inr m, l')"
    using daemon_recv_clear [of ?sid "d_link ?d" m rest "d_aead ?d"] first(2,3) wf(2) keys(2)
    by (auto simp: get_session_cipher_def cipher_keys_def after_sends_def)
  then have "recv_task ?sid ?d = (Inr m, ?d\<lparr>d_link := l'\<rparr>)" by (simp add: recv_task_def)
  then have "wait_psk_ack env ?sid ?d
      = (Inl (Error InvalidData ''PSK-ACK expected''), remove_cipher ?sid (?d\<lparr>d_link := l'\<rparr>))"
    using env(2) m by (simp add: wait_psk_ack_def)
  moreover have "send_shared ?sid ?reply (d\<lparr>d_link := (d_link d)\<lparr>link_in := i\<rparr>\<rparr>) = (Inr (), ?d)"
    using up by (simp add: send_shared_up after_sends_set_in)
  moreover have "host_supports_encrypt (hs_buf hs) = Some True" "extract_host_pubkey (hs_buf hs) = Some None"
    using host_supports_encrypt_iff [of "Inl err" "Some ''1''"] extract_host_pubkey_eq [of "Inl err" "Some ''1''"]
      hs(2) by simp_all
  ultimately show ?thesis
    using env(1) first(1) session_handshake_round_trip [OF hs(1)]
    by (simp add: handle_client_def start_session_def session_response_def io_bind_def handshake_msg_def)
qed

section \<open>No cipher is left behind\<close>

lemma set_recv_keys_all: "cipher_keys k (set_recv sid i n d) = cipher_keys k d"
  by (cases "k = sid") (simp_all add: cipher_keys_def set_recv_def option.map_comp comp_def)

lemma recv_task_keys: "recv_task sid d = (r, d') \<Longrightarrow> cipher_keys k d' = cipher_keys k d"
  using recv_task_frame set_recv_keys_all by metis

lemma session_loop_keys: "session_loop sid d = (e, d') \<Longrightarrow> cipher_keys k d' = cipher_keys k d"
proof (induction "length (in_contents (d_in d))" arbitrary: d rule: less_induct)
  case less
  obtain r1 d1 where r1: "recv_task sid d = (r1, d1)" by (cases "recv_task sid d")
  note k1 = recv_task_keys [OF r1, of k]
  show ?case
  proof (cases r1)
    case (Inl err)
    then show ?thesis using less.prems r1 k1 by (simp add: session_loop.simps [of sid d])
  next
    case (Inr msg)
    obtain r2 d2 where r2: "dispatch_task msg sid d1 = (r2, d2)" by (cases "dispatch_task msg sid d1")
    have k2: "cipher_keys k d2 = cipher_keys k d1" using keepsD [OF key_part.keeps_dispatch_task r2] .
    have "cipher_keys k d' = cipher_keys k d2" if "session_loop sid d2 = (e, d')"
      using less.hyps [OF session_round [OF r1 [unfolded Inr] r2] that] .
    then show ?thesis
      using less.prems r1 r2 Inr k1 k2
      by (cases r2) (auto simp: session_loop.simps [of sid d] split: if_splits)
  qed
qed

lemma remove_cipher_keys: "cipher_keys k (remove_cipher sid d) = (if k = sid then None else cipher_keys k d)"
  by (simp add: cipher_keys_def remove_cipher_def remove_session_cipher_def)

lemma wait_psk_ack_keys:
  assumes "wait_psk_ack env sid d = (r, d')"
  shows "k \<noteq> sid \<Longrightarrow> cipher_keys k d' = cipher_keys k d" "r = Inl e \<Longrightarrow> cipher_keys sid d' = None"
    "r = Inr u \<Longrightarrow> cipher_keys sid d' = cipher_keys sid d"
proof -
  obtain r1 d1 where r1: "recv_task sid d = (r1, d1)" by (cases "recv_task sid d")
  show "k \<noteq> sid \<Longrightarrow> cipher_keys k d' = cipher_keys k d" "r = Inl e \<Longrightarrow> cipher_keys sid d' = None"
    "r = Inr u \<Longrightarrow> cipher_keys sid d' = cipher_keys sid d"
    using assms r1 recv_task_keys [OF r1]
    by (cases r1; auto simp: wait_psk_ack_def remove_cipher_keys split: if_splits)+
qed

lemma serve_session_keys:
  assumes "serve_session sid d = (r, d')" "\<forall>ch. r \<noteq> Inr (ShellBridge ch)"
  shows "cipher_keys k d' = (if k = sid then None else cipher_keys k d)"
proof (cases "session_loop sid d")
  case (Pair e d1)
  then show ?thesis
    using assms session_loop_keys [OF Pair, of k]
    by (cases e) (auto simp: serve_session_def remove_cipher_keys)
qed

lemma handle_client_keys:
  assumes "handle_client env d = Some (r, d')" "\<forall>ch. r \<noteq> Inr (ShellBridge ch)"
  shows "cipher_keys k d' = cipher_keys k d \<or> cipher_keys k d' = None"
proof (cases "recv_task 0 d")
  case (Pair r1 d1)
  note k1 = recv_task_keys [OF Pair, of k]
  show ?thesis
  proof (cases "\<exists>e. r1 = Inl e \<or> r = Inl e \<and> d' = d1")
    case True
    then show ?thesis using assms(1) Pair k1 by (auto simp: handle_client_def)
  next
    case False
    then obtain first where first: "r1 = Inr first" by (cases r1) auto
    with assms(1) Pair False obtain sid enc reply psk where run: "start_session env sid enc reply psk d1 = (r, d')"
      by (auto simp: handle_client_def Let_def split: prod.split_asm sum.split_asm option.split_asm)
    obtain r2 d2 where r2: "send_shared sid reply d1 = (r2, d2)" by (cases "send_shared sid reply d1")
    have k2: "cipher_keys k d2 = cipher_keys k d1" using keepsD [OF keeps_key_parts(1) r2] .
    let ?d3 = "case psk of None \<Rightarrow> d2 | Some p \<Rightarrow> set_cipher sid (psk_new p False) d2"
    have k3: "k \<noteq> sid \<Longrightarrow> cipher_keys k ?d3 = cipher_keys k d2"
      by (simp add: cipher_keys_def set_cipher_def set_session_cipher_def split: option.splits)
    obtain r4 d4 where r4: "(if enc then wait_psk_ack env sid else io_return ()) ?d3 = (r4, d4)" by fastforce
    have k4: "k \<noteq> sid \<Longrightarrow> cipher_keys k d4 = cipher_keys k ?d3" "\<And>e. r4 = Inl e \<Longrightarrow> cipher_keys sid d4 = None"
      using r4 wait_psk_ack_keys(1,2) [of env sid ?d3 r4 d4] by (auto split: if_splits)
    show ?thesis
    proof (cases r2)
      case (Inl e)
      then show ?thesis using run r2 k1 k2 by (simp add: start_session_def io_bind_def)
    next
      case (Inr u)
      then have "(r, d') = (case r4 of Inl e \<Rightarrow> (Inl e, d4) | Inr _ \<Rightarrow> serve_session sid d4)"
        using run r2 r4 by (simp add: start_session_def io_bind_def)
      then show ?thesis
        using k1 k2 k3 k4 serve_session_keys [of sid d4 r d' k] assms(2)
        by (cases r4; cases "k = sid") auto
    qed
  qed
qed

end
