(* ===== verification/Host_Daemon.thy ===== *)
theory Host_Daemon
  imports Server_App Server_Flashd Daemon_Session
begin

text \<open>
  Host and daemon of this repository talking to each other: the key exchange of an encrypted session,
  and the two file transfers. Each statement runs the host's function on what the daemon's function
  sends and the daemon's function on what the host's function sends.
\<close>

section \<open>A session key is agreed on\<close>

text \<open>
  What the packages of the two programs promise for a key pair of the host: the daemon reads the
  public key that the host prints, the host decrypts what the daemon encrypts, and Base64 text is
  read back.
\<close>

definition key_pair_works :: "rsa_crate \<Rightarrow> rsa_lib \<Rightarrow> bytes \<Rightarrow> bytes \<Rightarrow> string \<Rightarrow> bytes \<Rightarrow> bytes \<Rightarrow> bool" where
  "key_pair_works H D pri pub pem psk epsk \<longleftrightarrow>
    to_public_key_pem H pub = Inr pem
    \<and> (\<exists>k. rsa_public_key D pem = Inr k \<and> rsa_encrypt D k psk = Inr epsk)
    \<and> rsa_decrypt_oaep H pri epsk = Inr psk
    \<and> b64_decode H (base64_encode D epsk) = Inr epsk \<and> is_ascii (base64_encode D epsk)"

lemma ascii_drop: "is_ascii s \<Longrightarrow> is_ascii (drop n s)"
  by (auto simp: is_ascii_def list_all_iff dest: in_set_dropD)

lemma parse_tlv_ascii: "is_ascii s \<Longrightarrow> parse_tlv s \<noteq> None"
proof -
  have "is_ascii r \<Longrightarrow> parse_tlv_loop r m \<noteq> None" for r m
  proof (induction r m rule: parse_tlv_loop.induct)
    case (1 r m)
    show ?case
    proof (cases "length r < 32")
      case True
      then show ?thesis by (simp add: parse_tlv_loop.simps)
    next
      case False
      then obtain a b where ab: "str_slice 0 16 r = Some a" "str_slice 16 32 r = Some b"
        using ascii_slice [OF "1.prems", of 0 16] ascii_slice [OF "1.prems", of 16 32] by auto
      show ?thesis
      proof (cases "parse_uint usize_max (trim_end b)")
        case None
        then show ?thesis using False ab by (simp add: parse_tlv_loop.simps [of r])
      next
        case (Some n)
        show ?thesis
        proof (cases "length (drop 32 r) < n")
          case True
          then show ?thesis using False ab Some by (simp add: parse_tlv_loop.simps [of r])
        next
          case short: False
          then obtain v where v: "str_slice 0 n (drop 32 r) = Some v"
            using ascii_slice [OF ascii_drop [OF "1.prems"], of 0 n 32] by auto
          have "parse_tlv_loop (drop n (drop 32 r)) (m(trim_end a \<mapsto> v)) \<noteq> None"
            using "1.IH" [OF False refl ab Some short v] ascii_drop "1.prems" by blast
          then show ?thesis using False ab Some short v by (simp add: parse_tlv_loop.simps [of r] del: drop_drop)
        qed
      qed
    qed
  qed
  then show "is_ascii s \<Longrightarrow> parse_tlv s \<noteq> None" by (simp add: parse_tlv_def)
qed

lemma psk_for_host_key:
  assumes "HDC_HOST_DAEMON_BUF_SEPARATOR \<notin> set name" "HDC_HOST_DAEMON_BUF_SEPARATOR \<notin> set pem"
    and "key_pair_works H D pri pub pem psk epsk"
  shows "encrypt_psk_with_pubkey D (name @ [HDC_HOST_DAEMON_BUF_SEPARATOR] @ pem) psk = Inr epsk"
proof -
  have "split_on HDC_HOST_DAEMON_BUF_SEPARATOR (name @ [HDC_HOST_DAEMON_BUF_SEPARATOR] @ pem) = [name, pem]"
    using assms(1,2) by (simp add: split_on_append split_on_free)
  then show ?thesis using assms(3) by (auto simp: encrypt_psk_with_pubkey_def key_pair_works_def)
qed

definition with_in :: "tcp_in \<Rightarrow> daemon \<Rightarrow> daemon" where
  "with_in j d = d\<lparr>d_link := (d_link d)\<lparr>link_in := j\<rparr>\<rparr>"

lemma with_in_fields [simp]:
  "d_in (with_in j d) = j" "cipher_keys k (with_in j d) = cipher_keys k d" "link_up sid (with_in j d) = link_up sid d"
  "d_aead (with_in j d) = d_aead d"
  by (simp_all add: with_in_def d_in_def cipher_keys_def link_up_def get_session_cipher_def)

lemma host_hello_msg: "host_handshake_msg hs = handshake_msg 0 hs"
  by (simp add: host_handshake_msg_def handshake_msg_def)

text \<open>
  Both sides of the handshake: the host's bytes drive the daemon and the daemon's response drives the
  host; afterwards everything the host sends under its cipher is served.
\<close>

lemma secure_session:
  assumes host: "check_target_port addr = Inr ()" "in_time 1" "out_faults wr = []" "out_bytes wr = []"
      "session_ciphers (sv_tcp s) sid = None" "keys_stored henv pri pub (sv_fs s)" "he_encrypt_channel henv = Some ''1''"
    and daemon: "se_encrypt_channel denv = Some ''1''" "se_ack_in_time denv" "length (se_psk denv) = 32"
      "cipher_keys 0 d = None" "link_up sid d"
    and aead: "aead_correct (sv_aead s)" "d_aead d = sv_aead s"
    and pair: "key_pair_works (he_rsa henv) (se_rsa denv) pri pub pem (se_psk denv) epsk"
    and info: "info = get_hostname henv @ [HDC_HOST_DAEMON_BUF_SEPARATOR] @ pem" "wf_str info" "length info < 10 ^ 16"
      "HDC_HOST_DAEMON_BUF_SEPARATOR \<notin> set (get_hostname henv)" "HDC_HOST_DAEMON_BUF_SEPARATOR \<notin> set pem"
    and hello: "hello = session_hello henv sid addr (Inr info)" "wf_session_handshake hello"
      "wf_task_message (handshake_msg 0 hello)" "wf_task_message (psk_ack hello)"
    and resp: "resp = psk_response denv hello epsk" "wf_session_handshake resp" "wf_task_message (handshake_msg 0 resp)"
    and rd: "in_ok rd" "in_contents rd = concat_pack (handshake_msg 0 resp) @ rest"
    and ms: "\<forall>m \<in> set ms. wf_task_message m"
  shows "\<exists>rd' s' c fs c'. start_tcp_daemon_session henv in_time sid (Inr (rd, wr)) addr s = Some (Inr rd', s')
    \<and> in_ok rd' \<and> in_contents rd' = rest
    \<and> session_ciphers (sv_tcp s') sid = Some c
    \<and> encrypt_all (sv_aead s) c (map concat_pack ms) = (Inr fs, c')
    \<and> (\<forall>j e d'. in_ok j \<and> in_contents j = session_out sid s' @ concat (map channel_frame fs)
        \<and> serve_spec sid ms (set_cipher sid (psk_new (se_psk denv) False)
            (after_sends [handshake_msg 0 resp] (with_in j d))) = (e, d')
        \<longrightarrow> (\<exists>i n. handle_client denv (with_in j d) = Some (Inr e, end_session sid e (set_recv sid i n d'))))"
proof -
  let ?psk = "se_psk denv" and ?A = "sv_aead s"
  have sid: "hs_session_id hello = sid" "hs_buf hello = build_host_auth_buf (Inr info) (Some ''1'')"
    by (simp_all add: hello(1) session_hello_def host(7))
  have "psk_peers (psk_new ?psk True) (psk_new ?psk False)" using psk_new_peers [OF daemon(3), of True] by simp
  moreover have "\<forall>m \<in> set (psk_ack hello # ms). length (concat_pack m) < 2 ^ 32"
    using hello(4) ms length_wf_packet by fastforce
  ultimately obtain gs c' where all: "encrypt_all ?A (psk_new ?psk True) (map concat_pack (psk_ack hello # ms)) = (Inr gs, c')"
    using decrypt_encrypt_all [OF aead(1), of "map concat_pack (psk_ack hello # ms)" "psk_new ?psk True" "psk_new ?psk False"]
    by auto
  then obtain f c fs where f: "psk_encrypt ?A (psk_new ?psk True) (concat_pack (psk_ack hello)) = (Inr f, c)"
    "encrypt_all ?A c (map concat_pack ms) = (Inr fs, c')" "gs = f # fs"
    by (auto split: prod.splits sum.splits)
  obtain tlv where tlv: "parse_tlv (hs_buf resp) = Some tlv"
    using parse_tlv_ascii pair by (fastforce simp: resp(1) psk_response_def key_pair_works_def)
  have "\<exists>rd' s'. start_tcp_daemon_session henv in_time sid (Inr (rd, wr)) addr s = Some (Inr rd', s')
    \<and> in_ok rd' \<and> in_contents rd' = rest
    \<and> session_out sid s' = out_bytes wr @ concat_pack (host_handshake_msg hello) @ channel_frame f
    \<and> session_ciphers (sv_tcp s') sid = Some c
    \<and> map_option di_session_id (map_of (sv_connect s') addr) = Some sid"
    using pair
    by (intro host_session_psk [where dhs = resp and pri = pri and pub = pub and pem = pem and e = epsk and psk = ?psk
          and m = "handshake_msg 0 resp" and tlv = tlv])
      (use host hello resp tlv rd f(1) daemon(3) info(1) in \<open>simp_all add: key_pair_works_def psk_response_def\<close>)
  then obtain rd' s' where s': "start_tcp_daemon_session henv in_time sid (Inr (rd, wr)) addr s = Some (Inr rd', s')"
    "in_ok rd'" "in_contents rd' = rest" "session_out sid s' = concat_pack (handshake_msg 0 hello) @ channel_frame f"
    "session_ciphers (sv_tcp s') sid = Some c"
    using host(4) by (auto simp: host_hello_msg)
  have "\<exists>i n. handle_client denv (with_in j d) = Some (Inr e, end_session sid e (set_recv sid i n d'))"
    if "in_ok j" "in_contents j = session_out sid s' @ concat (map channel_frame fs)"
      "serve_spec sid ms (set_cipher sid (psk_new ?psk False) (after_sends [handshake_msg 0 resp] (with_in j d))) = (e, d')"
    for j e d'
  proof -
    have enc: "encrypt_psk_with_pubkey (se_rsa denv) info ?psk = Inr epsk"
      using psk_for_host_key [OF info(4,5) pair] info(1) by simp
    show ?thesis
      using encrypted_session [OF daemon(1-3) hello(2) sid(2) info(2,3) enc, of "with_in j d" 0 "psk_ack hello" ms gs c' e d']
        daemon(4,5) aead hello(3,4) ms all that s'(4) f(3) sid(1) resp(1)
      by (simp add: psk_ack_def host_hello_msg del: encrypt_all.simps)
  qed
  then show ?thesis using s' f(2) by blast
qed

section \<open>File transfers between this host and this daemon\<close>

lemma with_responses_run:
  assumes "m (fst x, (snd x)\<lparr>sv_usb := usb_register_response_channel sid ch \<lparr>mq_items = [], mq_open = True\<rparr> (sv_usb (snd x))\<rparr>)
    = (r, (evs, s))"
  shows "with_responses sid ch m x = (r, (evs, s\<lparr>sv_usb := usb_unregister_response_channel sid ch (sv_usb s)\<rparr>))"
  using assms by (simp add: with_responses_def)

text \<open>
  Upload: the daemon has no handler for \<open>KernelWakeupSlavetask\<close> and answers with an error text, which
  the host takes for the answer to its check.
\<close>

lemma upload_refused:
  assumes up: "host_up sid s" "link_up sid d"
    and local: "resolve_file_paths params = Inr (lp, rp)" "fs_deny (sv_fs s) lp = None" "fs_files (sv_fs s) lp = Some c"
  shows "\<exists>ms replies evs s' d'. handle_server_file_send sid ch params (map Received replies, s)
      = (Inl (Error InvalidData ''Expected FileBegin, got KernelEcho''), (evs, s'))
    \<and> session_out sid s' = session_out sid s @ concat (map concat_pack ms)
    \<and> serve_spec sid ms d = (SessionClosed, d')
    \<and> sent_bytes d' = sent_bytes d @ concat (map concat_pack replies)
    \<and> d_fs d' = d_fs d"
proof -
  let ?wake = "task_msg ch KernelWakeupSlavetask []" and ?check = "file_check_msg ch (length c) rp []"
  let ?echo = "echo_msg_of ch ''Command not implemented'' LevelFail"
  let ?s0 = "s\<lparr>sv_usb := usb_register_response_channel sid ch \<lparr>mq_items = [], mq_open = True\<rparr> (sv_usb s)\<rparr>"
  have wake: "dispatch_task ?wake sid d = (Inr (), after_sends [?echo] d)"
    using up(2)
    by (simp add: dispatch_task_def task_msg_def file_commands_def app_commands_def flashd_commands_def forward_commands_def
        echo_client_up)
  obtain reply d2 where check: "dispatch_task ?check sid (after_sends [?echo] d) = (Inr (), d2)"
    "sent_bytes d2 = sent_bytes d @ concat (map concat_pack [?echo, reply])" "d_fs d2 = d_fs d"
    using up(2)
    by (cases "deserialize_transfer_config (tm_payload ?check)"; cases "d_tasks d (sid, ch)")
      (auto simp: dispatch_task_def file_check_msg_def task_msg_def file_commands_def handle_file_task_def handle_file_check_def
        io_bind_def file_map_get_def file_map_put_def echo_client_up send_shared_up)
  have "file_send_task sid ch (length c) lp rp (map Received [?echo, reply], ?s0)
      = (Inl (Error InvalidData ''Expected FileBegin, got KernelEcho''), ([Received reply], host_sent sid [?wake, ?check] ?s0))"
  proof -
    have "\<not> contains_str ''illegal operation on a directory'' (from_utf8_lossy (tm_payload ?echo))"
      by (simp add: echo_msg_of_def) code_simp
    then show ?thesis
      using up(1) by (simp add: file_send_task_def io_bind_def on_sv_def send_task_up Let_def echo_msg_of_def)
  qed
  from with_responses_run [of "file_send_task sid ch (length c) lp rp" "(map Received [?echo, reply], s)" sid ch, simplified, OF this [simplified]]
  have "handle_server_file_send sid ch params (map Received [?echo, reply], s)
      = (Inl (Error InvalidData ''Expected FileBegin, got KernelEcho''), ([Received reply],
         (host_sent sid [?wake, ?check] ?s0)\<lparr>sv_usb := usb_unregister_response_channel sid ch (sv_usb ?s0)\<rparr>))"
    using local by (simp add: handle_server_file_send_def io_bind_def io_match_def on_sv_def on_host_fs_def file_len_def)
  moreover have "serve_spec sid [?wake, ?check] d = (SessionClosed, d2)"
    using wake check(1) by (simp add: task_msg_def file_check_msg_def)
  moreover have "session_up sid ?s0" using up(1) by (simp add: host_up_def)
  ultimately show ?thesis
    using check(2,3)
    by (intro exI [of _ "[?wake, ?check]"] exI [of _ "[?echo, reply]"] exI) (auto simp: session_out_host_sent)
qed

text \<open>Download: the daemon expects four words in a file request and the host sends three.\<close>

lemma download_refused:
  assumes up: "host_up sid s" "link_up sid d"
    and paths: "resolve_file_paths params = Inr (rp, lp)" "wf_str (''recv '' @ rp @ '' '' @ lp)"
      "CHR '' '' \<notin> set rp" "CHR '' '' \<notin> set lp"
  shows "\<exists>ms replies evs s' d'. handle_server_file_recv sid ch params (map Received replies, s)
      = (Inl (Error InvalidData ''Expected FileCheck, got KernelEcho''), (evs, s'))
    \<and> session_out sid s' = session_out sid s @ concat (map concat_pack ms)
    \<and> serve_spec sid ms d = (SessionClosed, d')
    \<and> sent_bytes d' = sent_bytes d @ concat (map concat_pack replies)
    \<and> fs_files (sv_fs s') = fs_files (sv_fs s) \<and> d_tasks d' = d_tasks d"
proof -
  let ?init = "recv_init_msg ch rp lp"
  let ?echo = "echo_msg_of ch ''Invalid file init parameters'' LevelFail"
  let ?s0 = "s\<lparr>sv_usb := usb_register_response_channel sid ch \<lparr>mq_items = [], mq_open = True\<rparr> (sv_usb s)\<rparr>"
  have "split_on CHR '' '' (''recv '' @ rp @ '' '' @ lp) = [''recv'', rp, lp]"
    using paths(3,4) by (simp add: split_on_append split_on_free)
  then have "parse_file_paths (tm_payload ?init) = None"
    using from_utf8_lossy_as_bytes [OF paths(2)]
    unfolding parse_file_paths_def recv_init_msg_def task_msg_def by (simp only: task_message.simps) simp
  then have init: "dispatch_task ?init sid d = (Inr (), after_sends [?echo] d)"
    using up(2)
    by (simp add: dispatch_task_def recv_init_msg_def task_msg_def file_commands_def handle_file_task_def handle_file_init_def
        echo_client_up)
  have "file_recv_task sid ch rp lp (map Received [?echo], ?s0)
      = (Inl (Error InvalidData ''Expected FileCheck, got KernelEcho''), ([], host_sent sid [?init] ?s0))"
    using up(1) by (simp add: file_recv_task_def io_bind_def on_sv_def send_task_up echo_msg_of_def)
  from with_responses_run [of "file_recv_task sid ch rp lp" "(map Received [?echo], s)" sid ch, simplified, OF this [simplified]]
  have "handle_server_file_recv sid ch params (map Received [?echo], s)
      = (Inl (Error InvalidData ''Expected FileCheck, got KernelEcho''), ([],
         (host_sent sid [?init] ?s0)\<lparr>sv_usb := usb_unregister_response_channel sid ch (sv_usb ?s0)\<rparr>))"
    using paths(1)
    by (simp add: handle_server_file_recv_def io_bind_def on_sv_def on_host_fs_def create_dir_all_def split: option.splits)
  moreover have "serve_spec sid [?init] d = (SessionClosed, after_sends [?echo] d)"
    using init by (simp add: recv_init_msg_def task_msg_def)
  moreover have "session_up sid ?s0" using up(1) by (simp add: host_up_def)
  ultimately show ?thesis
    by (intro exI [of _ "[?init]"] exI [of _ "[?echo]"] exI) (auto simp: session_out_host_sent)
qed

text \<open>Installation: the host opens with an empty \<open>AppInit\<close>, in which the daemon misses the path.\<close>

lemma install_refused:
  assumes up: "host_up sid s" "link_up sid d"
    and local: "path_file_name path = Some name" "fs_deny (sv_fs s) path = None" "fs_files (sv_fs s) path = Some c"
  shows "\<exists>ms replies evs s' d'. install_single_hap sid ch path options (map Received replies, s)
      = (Inl (Error InvalidData ''Expected AppBegin, got KernelEcho''), (evs, s'))
    \<and> session_out sid s' = session_out sid s @ concat (map concat_pack ms)
    \<and> serve_spec sid ms d = (SessionClosed, d')
    \<and> sent_bytes d' = sent_bytes d @ concat (map concat_pack replies)
    \<and> d_runs d' = d_runs d \<and> d_fs d' = d_fs d \<and> d_tasks d' = d_tasks d"
proof -
  let ?init = "task_msg ch AppInit []" and ?check = "app_check_msg ch (length c) name options"
  let ?echo = "echo_msg_of ch ''Missing app path'' LevelFail" and ?opening = "file_msg ch AppBegin []"
  have "parse_app_path [] = None" by code_simp
  then have init: "dispatch_task ?init sid d = (Inr (), after_sends [?echo] d)"
    using up(2)
    by (simp add: dispatch_task_def task_msg_def file_commands_def app_commands_def handle_app_task_def handle_app_init_def
        echo_client_up)
  have check: "dispatch_task ?check sid (after_sends [?echo] d) = (Inr (), after_sends [?echo, ?opening] d)"
    using up(2)
    by (simp add: dispatch_task_def app_check_msg_def task_msg_def file_commands_def app_commands_def handle_app_task_def
        handle_app_check_def send_shared_up file_msg_def)
  have "install_single_hap sid ch path options (map Received [?echo, ?opening], s)
      = (Inl (Error InvalidData ''Expected AppBegin, got KernelEcho''), ([Received ?opening], host_sent sid [?init, ?check] s))"
    using up(1) local
    by (simp add: install_single_hap_def io_bind_def io_match_def on_sv_def on_host_fs_def file_len_def send_task_up Let_def
        echo_msg_of_def)
  moreover have "serve_spec sid [?init, ?check] d = (SessionClosed, after_sends [?echo, ?opening] d)"
    using init check by (simp add: task_msg_def app_check_msg_def)
  moreover have "session_up sid s" using up(1) by (simp add: host_up_def)
  ultimately show ?thesis
    by (intro exI [of _ "[?init, ?check]"] exI [of _ "[?echo, ?opening]"] exI) (auto simp: session_out_host_sent)
qed

text \<open>
  Flashing: the two protocols fit together, and the host reports success; the daemon has done nothing
  with the image.
\<close>

lemma flash_data_ignored:
  "serve_spec sid (data_msgs FlashdData ch off chunks @ ms) d = serve_spec sid ms d"
  by (induction chunks arbitrary: off)
    (simp_all add: task_msg_def dispatch_task_def file_commands_def app_commands_def flashd_commands_def
      handle_flashd_task_def)

lemma flash_reported:
  assumes up: "host_up sid s" "channel_up ch s" "link_up sid d"
    and cmd: "cmd = FlashdUpdateInit \<or> cmd = FlashdFlashInit"
    and args: "parse_flashd_file_args params (cmd = FlashdUpdateInit) = Inr (path, force)" "validate_flashd_file path = Inr ()"
    and local: "fs_deny (sv_fs s) path = None" "fs_files (sv_fs s) path = Some c"
      "\<forall>m. ReadError m \<notin> set (fs_reads (sv_fs s))"
  shows "\<exists>ms replies chunks s' d'. handle_server_flashd sid ch cmd params (map Received replies, s) = (Inr (), ([], s'))
    \<and> session_out sid s' = session_out sid s @ concat (map concat_pack ms)
    \<and> serve_spec sid ms d = (SessionClosed, d')
    \<and> sent_bytes d' = sent_bytes d @ concat (map concat_pack replies)
    \<and> concat chunks = c
    \<and> channel_sent ch s' = channel_sent ch s
        @ concat (map (\<lambda>t. channel_frame (as_bytes t)) (flash_texts (length c) chunks ''flashd stub completed''))
    \<and> d_fs d' = d_fs d \<and> d_runs d' = d_runs d \<and> d_tasks d' = d_tasks d"
proof -
  let ?opening = "file_msg ch FlashdBegin []" and ?fin = "flashd_done ch"
  have stub: "from_utf8_lossy (as_bytes ''flashd stub completed'') = ''flashd stub completed''" by code_simp
  obtain chunks s' where host: "handle_server_flashd sid ch cmd params (map Received [?opening, ?fin], s) = (Inr (), ([], s'))"
    "concat chunks = c"
    "session_out sid s' = session_out sid s
      @ concat (map concat_pack (flash_msgs ch (length c) params path (cmd = FlashdUpdateInit) chunks))"
    "channel_sent ch s' = channel_sent ch s
      @ concat (map (\<lambda>t. channel_frame (as_bytes t)) (flash_texts (length c) chunks ''flashd stub completed''))"
    using flash_image_complete [OF up(1,2) cmd args local, of ?opening ?fin 0 "as_bytes ''flashd stub completed''" "[]"]
    unfolding stub by (auto simp: file_msg_def flashd_done_def)
  let ?check = "flash_check_msg ch (length c) params path (cmd = FlashdUpdateInit)"
  let ?closing = "task_msg ch FlashdFinish [1]"
  have check: "dispatch_task ?check sid d = (Inr (), after_sends [?opening] d)"
    using up(3)
    by (simp add: flash_check_msg_def task_msg_def dispatch_task_def file_commands_def app_commands_def flashd_commands_def
        handle_flashd_task_def send_shared_up file_msg_def)
  have fini: "dispatch_task ?closing sid (after_sends [?opening] d) = (Inr (), after_sends [?opening, ?fin] d)"
    using up(3)
    by (simp add: task_msg_def dispatch_task_def file_commands_def app_commands_def flashd_commands_def
        handle_flashd_task_def send_shared_up)
  have "serve_spec sid (flash_msgs ch (length c) params path (cmd = FlashdUpdateInit) chunks) d
      = (SessionClosed, after_sends [?opening, ?fin] d)"
    using check fini flash_data_ignored [of sid ch 0 chunks "[?closing]" "after_sends [?opening] d"]
    by (simp add: flash_msgs_def flash_check_msg_def task_msg_def)
  then show ?thesis
    using host
    by (intro exI [of _ "flash_msgs ch (length c) params path (cmd = FlashdUpdateInit) chunks"] exI [of _ "[?opening, ?fin]"]
        exI [of _ chunks] exI [of _ s'] exI [of _ "after_sends [?opening, ?fin] d"]) simp
qed

end
