(* ===== verification/Host_Forward.thy ===== *)
theory Host_Forward
  imports Server_Forward Host_Daemon
begin

text \<open>
  Port forwarding between the host and the daemon of this repository, over a TCP session: a reverse
  forward is set up and carries data, a forward of a local port is not set up.
\<close>

section \<open>The words of a request\<close>

definition ws_free :: "string \<Rightarrow> bool" where
  "ws_free s \<longleftrightarrow> list_all (\<lambda>c. list_all (\<lambda>p. p \<noteq> [] \<and> hd p \<noteq> c) ws_encodings) s"

lemma ws_free_starts: "ws_free (c # cs) \<Longrightarrow> \<not> starts_ws (c # rest)"
  by (auto simp: ws_free_def starts_ws_def list_all_iff prefix_Cons split: list.splits)

lemma trim_start_word: "ws_free (c # cs) \<Longrightarrow> trim_start (c # rest) = c # rest"
proof -
  assume "ws_free (c # cs)"
  then have "\<not> starts_ws (c # rest)" by (rule ws_free_starts)
  then have "find (\<lambda>p. p \<noteq> [] \<and> prefix p (c # rest)) ws_encodings = None"
    by (auto simp: starts_ws_def find_None_iff)
  then show ?thesis by (simp add: trim_start_def trim_pats.simps)
qed

lemma starts_ws_space: "starts_ws (CHR '' '' # s)"
proof -
  have "'' '' \<in> set ws_encodings" by code_simp
  moreover have "prefix '' '' (CHR '' '' # s)" by simp
  ultimately show ?thesis unfolding starts_ws_def by blast
qed

lemma take_word_word: "ws_free w \<Longrightarrow> rest = [] \<or> starts_ws rest \<Longrightarrow> take_word (w @ rest) = (w, rest)"
proof (induction w)
  case Nil
  then show ?case by (cases rest) auto
next
  case (Cons c w)
  then have "ws_free w" by (simp add: ws_free_def)
  then show ?case using Cons ws_free_starts [OF Cons.prems(1)] by simp
qed

lemma trim_start_space:
  assumes "ws_free w" "w \<noteq> []"
  shows "trim_start (CHR '' '' # w) = w"
proof -
  obtain c cs where w: "w = c # cs" using assms(2) by (cases w) auto
  have "list_all (\<lambda>p. p \<noteq> [] \<and> (hd p = CHR '' '' \<longrightarrow> p = '' '')) ws_encodings" by (simp add: ws_encodings_def)
  then have hd: "p = '' ''" if "p \<in> set ws_encodings" "prefix p (CHR '' '' # w)" for p
    using that by (auto simp: list_all_iff prefix_Cons)
  have "find (\<lambda>p. p \<noteq> [] \<and> prefix p (CHR '' '' # w)) ws_encodings = Some '' ''"
  proof (cases "find (\<lambda>p. p \<noteq> [] \<and> prefix p (CHR '' '' # w)) ws_encodings")
    case None
    moreover have "'' '' \<in> set ws_encodings" by code_simp
    ultimately show ?thesis by (auto simp: find_None_iff)
  next
    case (Some p)
    then have "p \<in> set ws_encodings" "prefix p (CHR '' '' # w)" by (auto simp: find_Some_iff)
    then show ?thesis using hd Some by metis
  qed
  then have "trim_start (CHR '' '' # w) = trim_start w"
    by (simp add: trim_start_def trim_pats.simps [of ws_encodings "CHR '' '' # w"])
  then show ?thesis using trim_start_word assms(1) w by simp
qed

lemma split_two_words:
  assumes "ws_free a" "a \<noteq> []" "ws_free b" "b \<noteq> []"
  shows "split_whitespace (a @ '' '' @ b) = [a, b]"
proof -
  obtain c cs where a: "a = c # cs" using assms(2) by (cases a) auto
  obtain d ds where b: "b = d # ds" using assms(4) by (cases b) auto
  have free: "ws_free cs" "ws_free ds" using assms(1,3) a b by (simp_all add: ws_free_def)
  have "find (\<lambda>p. False) ws_encodings = None" by (simp add: find_None_iff)
  then have "split_whitespace [] = []" by (simp add: split_whitespace.simps trim_start_def trim_pats.simps)
  then have "split_whitespace (CHR '' '' # b) = [b]"
    using trim_start_space [OF assms(3,4)] take_word_word [OF free(2), of "[]"] b
    by (simp add: split_whitespace.simps [of "CHR '' '' # d # ds"])
  then show ?thesis
    using trim_start_word [OF assms(1) [unfolded a], of "cs @ '' '' @ b"] take_word_word [OF free(1), of "CHR '' '' # b"] starts_ws_space [of b] a
    by (simp add: split_whitespace.simps [of "c # cs @ CHR '' '' # b"])
qed

lemma ws_free_tcp: "ws_free (tcp_spec p)" "tcp_spec p \<noteq> []"
proof -
  have tcp: "ws_free ''tcp:''" by code_simp
  have "list_all (\<lambda>p. p \<noteq> [] \<and> digit_val (hd p) = None) ws_encodings" by (simp add: ws_encodings_def digit_val_def)
  then have "list_all (\<lambda>p. p \<noteq> [] \<and> hd p \<noteq> c) ws_encodings" if "digit_val c \<noteq> None" for c
    using that by (auto simp: list_all_iff)
  then have "ws_free (show_nat p)" using show_nat_digits unfolding ws_free_def list_all_iff by blast
  then show "ws_free (tcp_spec p)" using tcp unfolding tcp_spec_def ws_free_def by (simp only: list_all_append)
qed (simp add: tcp_spec_def)

section \<open>A reverse forward is set up\<close>

definition rport_init_msg :: "u32 \<Rightarrow> nat \<Rightarrow> nat \<Rightarrow> task_message" where
  "rport_init_msg ch rp lp = task_msg ch ForwardInit (as_bytes (tcp_spec rp @ '' '' @ tcp_spec lp))"

definition daemon_check_msg :: "u32 \<Rightarrow> u32 \<Rightarrow> nat \<Rightarrow> task_message" where
  "daemon_check_msg ch lid lp = task_msg ch ForwardCheck (spec_payload lid (tcp_spec lp))"

definition daemon_success_msg :: "u32 \<Rightarrow> nat \<Rightarrow> nat \<Rightarrow> task_message" where
  "daemon_success_msg ch rp lp = task_msg ch ForwardSuccess (as_bytes (''0|'' @ tcp_spec rp @ '' '' @ tcp_spec lp))"

lemma task_msg_fields [simp]:
  "tm_channel_id (task_msg ch c p) = ch" "tm_command (task_msg ch c p) = c" "tm_payload (task_msg ch c p) = p"
  by (simp_all add: task_msg_def)

lemma forward_dispatched:
  "tm_command m \<in> set forward_commands \<Longrightarrow> dispatch_task m sid d = handle_forward_task m sid d"
  by (cases "tm_command m")
    (simp_all add: dispatch_task_def forward_commands_def file_commands_def app_commands_def flashd_commands_def)

lemma serve_rport_init:
  assumes "rp \<le> 65535" "fw_rport (d_forward d) ch = None" "fw_os (d_forward d) = []"
  shows "\<exists>w. dispatch_task (rport_init_msg ch rp lp) sid d = (Inr (), d\<lparr>d_forward := w\<rparr>)
    \<and> fw_rport w = (fw_rport (d_forward d))(ch \<mapsto> [])
    \<and> fw_spawned w = fw_spawned (d_forward d) @ [RportListener ch (tcp_spec rp) (tcp_spec lp) (TcpPort rp)]
    \<and> fw_calls w = fw_calls (d_forward d) @ [BindTo (TcpPort rp)]"
proof -
  let ?text = "tcp_spec rp @ '' '' @ tcp_spec lp"
  have "is_ascii ?text" using tcp_spec_ascii by (simp add: is_ascii_def)
  then have words: "split_whitespace (from_utf8_lossy (as_bytes ?text)) = [tcp_spec rp, tcp_spec lp]"
    using from_utf8_lossy_as_bytes [OF wf_str_ascii] split_two_words ws_free_tcp by presburger
  have port: "parse_port (show_nat rp) = Inr rp"
    unfolding parse_port_def parse_uint_res_show_nat [OF assms(1)] by simp
  let ?w = "d_forward d"
  let ?w' = "?w\<lparr>fw_os := [], fw_calls := fw_calls ?w @ [BindTo (TcpPort rp)],
    fw_spawned := fw_spawned ?w @ [RportListener ch (tcp_spec rp) (tcp_spec lp) (TcpPort rp)],
    fw_rport := (fw_rport ?w)(ch \<mapsto> [])\<rparr>"
  have "dispatch_task (rport_init_msg ch rp lp) sid d = handle_rport_init (rport_init_msg ch rp lp) sid d"
    using assms(2)
    by (subst forward_dispatched)
      (simp_all add: rport_init_msg_def task_msg_def forward_commands_def handle_forward_task_def forward_command_def)
  also have "\<dots> = (Inr (), d\<lparr>d_forward := ?w'\<rparr>)"
    unfolding handle_rport_init_def rport_init_msg_def task_msg_def task_message.simps words
    using assms(3) split_tcp_spec [of rp] port
    by (simp add: start_listener_def io_match_def io_bind_def os_attempt_def on_forward_def Let_def)
  finally show ?thesis by (intro exI [of _ ?w']) simp
qed

lemma serve_check_result:
  assumes "fw_rport (d_forward d) ch = Some q"
  shows "dispatch_task (check_result_msg ch lid ok) sid d
    = (Inr (), d\<lparr>d_forward := (d_forward d)\<lparr>fw_rport := (fw_rport (d_forward d))(ch \<mapsto> q @ [CheckResult lid ok])\<rparr>\<rparr>)"
  using assms
  by (subst forward_dispatched)
    (simp_all add: check_result_msg_def task_msg_def forward_commands_def handle_forward_task_def rport_route_def
      on_forward_def nth_append)

lemma rport_opened:
  assumes "link_up sid d"
  shows "rport_open sid ch lid (tcp_spec rp) (tcp_spec lp) [CheckResult lid True] d
    = (Some [], after_sends [daemon_check_msg ch lid lp, daemon_success_msg ch rp lp] d)"
  using assms
  by (simp add: rport_open_def send_shared_up daemon_check_msg_def daemon_success_msg_def task_msg_def)

lemma dropWhile_free: "x \<notin> set xs \<Longrightarrow> dropWhile (\<lambda>c. c = x) xs = xs"
  by (cases xs) auto

lemma local_node_tcp: "local_node (spec_payload lid (tcp_spec lp)) = tcp_spec lp"
proof -
  have nul: "as_bytes [CHR 0x00] = [0]" by code_simp
  have "is_ascii (tcp_spec lp @ [CHR 0x00])" using tcp_spec_ascii by (simp add: is_ascii_def)
  then have "from_utf8_lossy (as_bytes (tcp_spec lp @ [CHR 0x00])) = tcp_spec lp @ [CHR 0x00]"
    by (intro from_utf8_lossy_as_bytes wf_str_ascii)
  then have lossy: "from_utf8_lossy (as_bytes (tcp_spec lp) @ [0]) = tcp_spec lp @ [CHR 0x00]" by (simp add: nul)
  have "CHR 0x00 \<notin> set (show_nat lp)" using show_nat_digits [of "CHR 0x00" lp] by (auto simp: digit_val_def)
  then have "CHR 0x00 \<notin> set (tcp_spec lp)" by (simp add: tcp_spec_def)
  then have "dropWhile (\<lambda>c. c = CHR 0x00) (rev (tcp_spec lp)) = rev (tcp_spec lp)"
    by (intro dropWhile_free) simp
  then show ?thesis using lossy by (simp add: local_node_def spec_payload_def trim_end_matches_def)
qed

lemma rport_established:
  assumes up: "host_up sid s" "channel_up ch s" "link_up sid d"
    and ports: "rp \<le> 65535" "lp \<le> 65535" "fv_connect env 0 lp = None"
    and dmn: "fw_rport (d_forward d) ch = None" "fw_os (d_forward d) = []"
  shows "\<exists>s' d1 d2 d3. handle_server_rport env key sid ch [''rport'', tcp_spec rp, tcp_spec lp]
        (map Received [daemon_check_msg ch lid lp, daemon_success_msg ch rp lp], s) = (Inr (), ([], s'))
    \<and> session_out sid s' = session_out sid s
        @ concat (map concat_pack [rport_init_msg ch rp lp, check_result_msg ch lid True])
    \<and> channel_sent ch s' = channel_sent ch s @ channel_frame (as_bytes (''Forwardport result:OK'' @ CRLF))
    \<and> map_of (sv_forward s') (tcp_spec rp @ '' '' @ tcp_spec lp) = Some \<lparr>fe_channel_id = ch, fe_session_id = sid,
        fe_connect_key = key, fe_direction = Reverse, fe_task_string = tcp_spec rp @ '' '' @ tcp_spec lp, fe_abort_handle = None\<rparr>
    \<and> serve_spec sid [rport_init_msg ch rp lp] d = (SessionClosed, d1)
    \<and> serve_spec sid [check_result_msg ch lid True] d1 = (SessionClosed, d2)
    \<and> fw_rport (d_forward d2) ch = Some [CheckResult lid True]
    \<and> rport_open sid ch lid (tcp_spec rp) (tcp_spec lp) [CheckResult lid True] d2 = (Some [], d3)
    \<and> sent_bytes d3 = sent_bytes d @ concat (map concat_pack [daemon_check_msg ch lid lp, daemon_success_msg ch rp lp])"
proof -
  obtain w where w: "dispatch_task (rport_init_msg ch rp lp) sid d = (Inr (), d\<lparr>d_forward := w\<rparr>)"
    "fw_rport w = (fw_rport (d_forward d))(ch \<mapsto> [])"
    using serve_rport_init [OF ports(1) dmn] by blast
  let ?d1 = "d\<lparr>d_forward := w\<rparr>"
  let ?d2 = "?d1\<lparr>d_forward := w\<lparr>fw_rport := (fw_rport w)(ch \<mapsto> [CheckResult lid True])\<rparr>\<rparr>"
  have d2: "dispatch_task (check_result_msg ch lid True) sid ?d1 = (Inr (), ?d2)"
    using serve_check_result [of ?d1 ch "[]" lid True sid] w(2) by simp
  let ?s0 = "s\<lparr>sv_usb := usb_register_response_channel sid ch \<lparr>mq_items = [], mq_open = True\<rparr> (sv_usb s)\<rparr>"
  let ?ms = "[rport_init_msg ch rp lp, check_result_msg ch lid True]"
  let ?s1 = "channel_ended ch (answered ch (as_bytes (''Forwardport result:OK'' @ CRLF)) (host_sent sid ?ms ?s0))"
  have up0: "host_up sid ?s0" "channel_up ch ?s0" "session_up sid ?s0" using up by (simp_all add: host_up_def)
  have port: "parse_forward_port (tcp_spec lp) = Inr lp" using parse_forward_port_tcp [OF ports(2)] by (simp add: tcp_spec_def)
  have check: "answer_check env 0 sid ch (spec_payload lid (tcp_spec lp)) t = host_sent sid [check_result_msg ch lid True] t"
    if "host_up sid t" for t
    using that ports(3) port
    by (simp add: answer_check_def send_task_up local_reachable_def local_node_tcp) (simp add: spec_payload_def)
  have "rport_setup env sid ch (tcp_spec rp) (tcp_spec lp)
      (map Received [daemon_check_msg ch lid lp, daemon_success_msg ch rp lp], ?s0) = (Inr (), ([], ?s1))"
    using up0
    by (simp add: rport_setup_def io_bind_def on_sv_def send_task_up daemon_check_msg_def daemon_success_msg_def
        rport_init_msg_def check answer_line_def answer_up maybe_end_channel_ended)
  moreover define e where "e = \<lparr>fe_channel_id = ch, fe_session_id = sid, fe_connect_key = key, fe_direction = Reverse,
    fe_task_string = tcp_spec rp @ '' '' @ tcp_spec lp, fe_abort_handle = None\<rparr>"
  ultimately have host: "handle_server_rport env key sid ch [''rport'', tcp_spec rp, tcp_spec lp]
      (map Received [daemon_check_msg ch lid lp, daemon_success_msg ch rp lp], s) = (Inr (), ([], snd (put_forward e ?s1)))"
    using port by (simp add: handle_server_rport_def io_bind_def io_match_def on_sv_def put_forward_def Let_def)
  have put: "session_out sid (snd (put_forward e t)) = session_out sid t" "channel_sent ch (snd (put_forward e t)) = channel_sent ch t"
    "map_of (sv_forward (snd (put_forward e t))) (fe_task_string e) = Some e" for t
    by (simp_all add: put_forward_def session_out_def channel_sent_def hm.get_insert split: option.splits)
  have final: "map_of (sv_forward (snd (put_forward e t))) (tcp_spec rp @ '' '' @ tcp_spec lp)
      = Some \<lparr>fe_channel_id = ch, fe_session_id = sid, fe_connect_key = key, fe_direction = Reverse,
          fe_task_string = tcp_spec rp @ '' '' @ tcp_spec lp, fe_abort_handle = None\<rparr>" for t
    using put(3) [of t] by (simp add: e_def)
  have serve: "serve_spec sid [rport_init_msg ch rp lp] d = (SessionClosed, ?d1)"
    "serve_spec sid [check_result_msg ch lid True] ?d1 = (SessionClosed, ?d2)"
    using w(1) d2 by (simp_all add: rport_init_msg_def check_result_msg_def task_msg_def)
  have open_ok: "rport_open sid ch lid (tcp_spec rp) (tcp_spec lp) [CheckResult lid True] ?d2
      = (Some [], after_sends [daemon_check_msg ch lid lp, daemon_success_msg ch rp lp] ?d2)"
    using up(3) by (intro rport_opened) simp
  show ?thesis
    by (intro exI [of _ "snd (put_forward e ?s1)"] exI [of _ ?d1] exI [of _ ?d2]
        exI [of _ "after_sends [daemon_check_msg ch lid lp, daemon_success_msg ch rp lp] ?d2"] conjI host serve open_ok)
      (use up0(3) up(2) final in \<open>simp_all add: put(1,2) session_out_host_sent\<close>)
qed

section \<open>Data of a reverse connection\<close>

lemma serve_rport_data:
  "fw_rport (d_forward d) ch = Some q \<Longrightarrow>
    \<exists>d'. serve_spec sid (map (host_data_msg ch fid) chunks) d = (SessionClosed, d')
      \<and> fw_rport (d_forward d') = (fw_rport (d_forward d))(ch \<mapsto> q @ map (RportData fid) chunks)
      \<and> d_link d' = d_link d"
proof (induction chunks arbitrary: d q)
  case Nil
  then show ?case by auto
next
  case (Cons c chunks)
  let ?w = "(d_forward d)\<lparr>fw_rport := (fw_rport (d_forward d))(ch \<mapsto> q @ [RportData fid c])\<rparr>"
  have "dispatch_task (host_data_msg ch fid c) sid d = handle_forward_task (host_data_msg ch fid c) sid d"
    by (rule forward_dispatched) (simp add: host_data_msg_def forward_commands_def)
  also have "\<dots> = (Inr (), d\<lparr>d_forward := ?w\<rparr>)"
    using Cons.prems by (simp add: handle_forward_task_def host_data_msg_def rport_route_def on_forward_def)
  finally have step: "dispatch_task (host_data_msg ch fid c) sid d = (Inr (), d\<lparr>d_forward := ?w\<rparr>)" .
  have "fw_rport (d_forward (d\<lparr>d_forward := ?w\<rparr>)) ch = Some (q @ [RportData fid c])" by simp
  from Cons.IH [OF this] obtain d' where
    "serve_spec sid (map (host_data_msg ch fid) chunks) (d\<lparr>d_forward := ?w\<rparr>) = (SessionClosed, d')"
    "fw_rport (d_forward d') = (fw_rport (d_forward (d\<lparr>d_forward := ?w\<rparr>)))(ch \<mapsto> (q @ [RportData fid c]) @ map (RportData fid) chunks)"
    "d_link d' = d_link (d\<lparr>d_forward := ?w\<rparr>)" by blast
  moreover have "tm_command (host_data_msg ch fid c) = ForwardData" by (simp add: host_data_msg_def)
  ultimately show ?case using step by (intro exI [of _ d']) simp
qed

lemma rport_data_arrives:
  assumes "host_up sid s" "in_ok rd" "fw_rport (d_forward d) ch = Some q"
  shows "\<exists>chunks s' d'. local_to_daemon (send_to_session sid) ch fid rd s = s'
    \<and> session_out sid s' = session_out sid s @ concat (map concat_pack (map (host_data_msg ch fid) chunks))
    \<and> serve_spec sid (map (host_data_msg ch fid) chunks) d = (SessionClosed, d')
    \<and> fw_rport (d_forward d') ch = Some (q @ map (RportData fid) chunks) \<and> concat chunks = in_contents rd"
proof -
  obtain chunks where chunks: "local_to_daemon (send_to_session sid) ch fid rd s
      = host_sent sid (map (host_data_msg ch fid) chunks) s" "concat chunks = in_contents rd"
    using local_to_daemon_all [OF assms(1,2)] by blast
  obtain d' where d': "serve_spec sid (map (host_data_msg ch fid) chunks) d = (SessionClosed, d')"
    "fw_rport (d_forward d') = (fw_rport (d_forward d))(ch \<mapsto> q @ map (RportData fid) chunks)"
    using serve_rport_data [OF assms(3)] by blast
  have "session_up sid s" using assms(1) by (simp add: host_up_def)
  then show ?thesis
    using chunks d' by (intro exI [of _ chunks] exI [of _ "host_sent sid (map (host_data_msg ch fid) chunks) s"] exI [of _ d'])
      (simp add: session_out_host_sent)
qed

section \<open>A forward of a local port is not set up\<close>

text \<open>
  The daemon puts the flag of its answer into the thirteenth byte and the host reads the fifth, so the
  host takes the acceptance for a refusal and lets the daemon ask; its answer to that goes to USB
  sessions only.
\<close>

definition host_check_msg :: "u32 \<Rightarrow> u32 \<Rightarrow> nat \<Rightarrow> task_message" where
  "host_check_msg ch ctx rp = task_msg ch ForwardCheck (node_payload ctx (tcp_spec rp))"

definition daemon_result_msg :: "u32 \<Rightarrow> u32 \<Rightarrow> task_message" where
  "daemon_result_msg ch ctx = task_msg ch ForwardCheckResult (check_result_payload ctx 1)"

lemma serve_forward_check:
  assumes "link_up sid d" "rp \<le> 65535" "fw_rport (d_forward d) ch = None" "fw_os (d_forward d) = []"
  shows "\<exists>w. dispatch_task (host_check_msg ch ctx rp) sid d = (Inr (), after_sends [daemon_result_msg ch ctx] (d\<lparr>d_forward := w\<rparr>))
    \<and> fw_rport w = fw_rport (d_forward d) \<and> fw_os w = []"
proof -
  let ?w = "(d_forward d)\<lparr>fw_os := [], fw_calls := fw_calls (d_forward d) @ [ConnectTo (TcpPort rp)]\<rparr>"
  have port: "parse_port (show_nat rp) = Inr rp"
    unfolding parse_port_def parse_uint_res_show_nat [OF assms(2)] by simp
  have "dispatch_task (host_check_msg ch ctx rp) sid d = handle_forward_task (host_check_msg ch ctx rp) sid d"
    by (rule forward_dispatched) (simp add: host_check_msg_def forward_commands_def)
  also have "\<dots> = (Inr (), after_sends [daemon_result_msg ch ctx] (d\<lparr>d_forward := ?w\<rparr>))"
    using assms(1,3,4) port
    by (simp add: handle_forward_task_def host_check_msg_def forward_command_def handle_forward_check_def node_payload_def
        parse_tcp_spec check_remote_reachable_def split_tcp_spec io_match_def io_bind_def os_attempt_def send_shared_up
        daemon_result_msg_def task_msg_def Let_def)
  finally show ?thesis by (intro exI [of _ ?w]) simp
qed

lemma accepted_read_as_refused:
  "wait_check_result ctx (Received (daemon_result_msg ch ctx) # evs) = (Inr False, evs)"
  by (simp add: daemon_result_msg_def check_result_payload_def payload_id_def list_update_append nth_append nth_list_update)

lemma daemon_check_read:
  "wait_forward_check (Received (daemon_check_msg ch lid rp) # evs) = (Inr (lid, tcp_spec rp), evs)"
  using parse_tcp_spec [of rp]
  by (simp add: daemon_check_msg_def spec_payload_def payload_id_def parse_null_terminated_def)

lemma fport_fails:
  assumes up: "host_up sid s" "link_up sid d" "session_senders (sv_usb s) sid = None"
    and ports: "lp \<le> 65535" "rp \<le> 65535" "fv_bind env 0 lp = None" "fv_bind env 1 lp = None"
    and dmn: "fw_rport (d_forward d) ch = None" "fw_os (d_forward d) = []"
  shows "\<exists>s' d1 d2 d3. handle_server_forward env key sid ch [''fport'', tcp_spec lp, tcp_spec rp]
        (map Received [daemon_result_msg ch (fv_ctx_id env), daemon_check_msg ch lid rp], s)
      = (Inl (Error NotFound ''usb session not found''), ([], s'))
    \<and> session_out sid s' = session_out sid s
        @ concat (map concat_pack [host_check_msg ch (fv_ctx_id env) rp, rport_init_msg ch lp rp])
    \<and> serve_spec sid [host_check_msg ch (fv_ctx_id env) rp] d = (SessionClosed, d1)
    \<and> serve_spec sid [rport_init_msg ch lp rp] d1 = (SessionClosed, d2)
    \<and> rport_open sid ch lid (tcp_spec lp) (tcp_spec rp) [] d2 = (None, d3)
    \<and> sent_bytes d3 = sent_bytes d @ concat (map concat_pack [daemon_result_msg ch (fv_ctx_id env), daemon_check_msg ch lid rp])
    \<and> sv_forward s' = sv_forward s
    \<and> map_of (response_channels (sv_usb s')) (sid, ch) \<noteq> None"
proof -
  let ?ctx = "fv_ctx_id env" and ?q = "\<lparr>mq_items = [], mq_open = True\<rparr>"
  obtain w where w: "dispatch_task (host_check_msg ch ?ctx rp) sid d = (Inr (), after_sends [daemon_result_msg ch ?ctx] (d\<lparr>d_forward := w\<rparr>))"
    "fw_rport w = fw_rport (d_forward d)" "fw_os w = []"
    using serve_forward_check [OF up(2) ports(2) dmn] by blast
  let ?d1 = "after_sends [daemon_result_msg ch ?ctx] (d\<lparr>d_forward := w\<rparr>)"
  obtain w2 where w2: "dispatch_task (rport_init_msg ch lp rp) sid ?d1 = (Inr (), ?d1\<lparr>d_forward := w2\<rparr>)"
    using serve_rport_init [OF ports(1), of ?d1 ch rp sid] w(2,3) dmn(1) by auto
  let ?d2 = "?d1\<lparr>d_forward := w2\<rparr>"
  let ?u1 = "usb_register_response_channel sid ch ?q (sv_usb s)"
  let ?s1 = "s\<lparr>sv_usb := usb_register_response_channel sid ?ctx ?q ?u1\<rparr>"
  let ?s2 = "host_sent sid [host_check_msg ch ?ctx rp, rport_init_msg ch lp rp] ?s1"
  have up1: "host_up sid ?s1" using up(1) by simp
  have "\<not> is_debug_node (tcp_spec rp)" "list_ex (\<lambda>p. prefix p (tcp_spec rp)) remote_schemas" "prefix ''tcp:'' (tcp_spec lp)"
    by (simp_all add: is_debug_node_def remote_schemas_def tcp_spec_def)
  moreover have "parse_forward_port (tcp_spec lp) = Inr lp" using parse_forward_port_tcp [OF ports(1)] by (simp add: tcp_spec_def)
  moreover have "check_flow env sid ch lp (tcp_spec rp)
      (map Received [daemon_result_msg ch ?ctx, daemon_check_msg ch lid rp], s\<lparr>sv_usb := ?u1\<rparr>)
      = (Inl (Error ConnectionRefused ''Daemon rejected ForwardCheck''),
         ([Received (daemon_check_msg ch lid rp)], host_sent sid [host_check_msg ch ?ctx rp] ?s1))"
    using up1 ports(3) accepted_read_as_refused [of ?ctx ch]
    by (simp add: check_flow_def io_bind_def on_sv_def send_task_up host_check_msg_def)
  moreover have "init_flow env False sid ch lp (tcp_spec lp) (tcp_spec rp)
      ([Received (daemon_check_msg ch lid rp)], host_sent sid [host_check_msg ch ?ctx rp] ?s1)
      = (Inl (Error NotFound ''usb session not found''), ([], ?s2))"
    using up1 up(3) ports(4) daemon_check_read [of ch lid rp "[]"]
    by (simp add: init_flow_def io_bind_def on_sv_def send_task_up send_forward_check_result_def on_usb_def
        usb_send_to_session_def usb_register_response_channel_def rport_init_msg_def)
  ultimately have "handle_server_forward env key sid ch [''fport'', tcp_spec lp, tcp_spec rp]
      (map Received [daemon_result_msg ch ?ctx, daemon_check_msg ch lid rp], s)
      = (Inl (Error NotFound ''usb session not found''), ([], ?s2))"
    by (simp add: handle_server_forward_def forward_setup_def io_bind_def io_match_def on_sv_def Let_def)
  moreover have "serve_spec sid [host_check_msg ch ?ctx rp] d = (SessionClosed, ?d1)"
    "serve_spec sid [rport_init_msg ch lp rp] ?d1 = (SessionClosed, ?d2)"
    using w(1) w2 by (simp_all add: host_check_msg_def rport_init_msg_def)
  moreover have "rport_open sid ch lid (tcp_spec lp) (tcp_spec rp) [] ?d2
      = (None, cleanup_rport_listener ch (after_sends [daemon_check_msg ch lid rp] ?d2))"
    using up(2) by (simp add: rport_open_def send_shared_up daemon_check_msg_def task_msg_def)
  moreover have "session_up sid ?s1" using up(1) by (simp add: host_up_def)
  ultimately show ?thesis
    by (intro exI [of _ ?s2] exI [of _ ?d1] exI [of _ ?d2]
        exI [of _ "cleanup_rport_listener ch (after_sends [daemon_check_msg ch lid rp] ?d2)"])
      (simp add: session_out_host_sent cleanup_rport_listener_def usb_register_response_channel_def hm.get_insert)
qed

end
