(* ===== verification/Net_Discover.thy ===== *)
theory Net_Discover
  imports Rust_Net Rust_Text Config
begin

text \<open>
  The discovery of daemons in the local network (\<open>hdc/src/net_discover.rs\<close>): a request to broadcast
  addresses and to every host of the local network, then the answers that arrive in time. The local
  address, the outcome of the set-up of the socket and the datagrams that arrive are arguments; the
  outcomes of the sends are only logged, so the model keeps their targets.
\<close>

section \<open>Addresses\<close>

text \<open>\<open>Display\<close> of an IPv6 address: the first longest run of at least two zero groups is left out.\<close>

fun show_hex :: "nat \<Rightarrow> string" where
  "show_hex n = (if n < 16 then [''0123456789abcdef'' ! n] else show_hex (n div 16) @ [''0123456789abcdef'' ! (n mod 16)])"

declare show_hex.simps [simp del]

definition longer :: "nat \<times> nat \<Rightarrow> nat \<times> nat \<Rightarrow> nat \<times> nat" where
  "longer current longest = (if snd longest < snd current then current else longest)"

primrec zero_span :: "nat \<Rightarrow> nat \<times> nat \<Rightarrow> nat \<times> nat \<Rightarrow> nat list \<Rightarrow> nat \<times> nat" where
  "zero_span i current longest [] = longest"
| "zero_span i current longest (g # gs) =
    (if g = 0 then
       (let c = (if snd current = 0 then i else fst current, Suc (snd current))
        in zero_span (Suc i) c (longer c longest) gs)
     else zero_span (Suc i) (0, 0) longest gs)"

definition show_ipv6 :: "nat list \<Rightarrow> string" where
  "show_ipv6 gs =
    (if take 6 gs = [0, 0, 0, 0, 0, 0xFFFF]
     then ''::ffff:'' @ show_ipv4 (gs ! 6 div 256, gs ! 6 mod 256, gs ! 7 div 256, gs ! 7 mod 256)
     else let (start, len) = zero_span 0 (0, 0) (0, 0) gs in
          if 1 < len then join '':'' (map show_hex (take start gs)) @ ''::'' @ join '':'' (map show_hex (drop (start + len) gs))
          else join '':'' (map show_hex gs))"

definition format_daemon_addr :: "ip_addr \<Rightarrow> nat \<Rightarrow> string" where
  "format_daemon_addr ip port =
    (case ip of
       V4 a \<Rightarrow> show_ipv4 a @ '':'' @ show_nat port
     | V6 gs \<Rightarrow> ''['' @ show_ipv6 gs @ '']:'' @ show_nat port)"

definition broadcast_addresses :: "ip_addr option \<Rightarrow> (ipv4 \<times> nat) list" where
  "broadcast_addresses local_ip =
    ((255, 255, 255, 255), SERVER_DEFAULT_PORT)
    # (case local_ip of
         Some (V4 (a, b, c, d)) \<Rightarrow>
           [((a, b, c, 255), SERVER_DEFAULT_PORT), ((a, b, 255, 255), SERVER_DEFAULT_PORT),
            ((a, 255, 255, 255), SERVER_DEFAULT_PORT)]
       | _ \<Rightarrow> [])"

definition subnet_unicast_hosts :: "ip_addr option \<Rightarrow> (ipv4 \<times> nat) list" where
  "subnet_unicast_hosts local_ip =
    (case local_ip of
       Some (V4 (a, b, c, d)) \<Rightarrow> map (\<lambda>i. ((a, b, c, i), SERVER_DEFAULT_PORT)) [1..<255]
     | _ \<Rightarrow> [])"

section \<open>Answers\<close>

definition parse_daemon_response :: "string \<Rightarrow> nat option" where
  "parse_daemon_response text =
    (let p = HANDSHAKE_MESSAGE @ ''-'' in
     if \<not> prefix p text then None else parse_uint 65535 (trim (drop (length p) text)))"

definition RECV_BUF_SIZE :: nat where "RECV_BUF_SIZE = 256"

datatype udp_event = Datagram bytes ip_addr | UdpError | UdpElapsed

definition daemon_answer :: "bytes \<Rightarrow> ip_addr \<Rightarrow> string option" where
  "daemon_answer b peer =
    map_option (format_daemon_addr peer) (parse_daemon_response (from_utf8_lossy (take RECV_BUF_SIZE b)))"

text \<open>The receive loop; the time is up at the end of the list.\<close>

fun receive_answers :: "udp_event list \<Rightarrow> string list \<Rightarrow> string list" where
  "receive_answers (Datagram b peer # evs) found =
    (case daemon_answer b peer of
       None \<Rightarrow> receive_answers evs found
     | Some addr \<Rightarrow> receive_answers evs (if addr \<in> set found then found else found @ [addr]))"
| "receive_answers _ found = found"

record discover_env =
  ud_bind :: "string option"
  ud_broadcast :: "string option"
  ud_local_ip :: "ip_addr option"
  ud_events :: "udp_event list"

text \<open>The result with the targets of the requests.\<close>

definition discover_devices :: "discover_env \<Rightarrow> string list io_result \<times> (ipv4 \<times> nat) list" where
  "discover_devices env =
    (case ud_bind env of
       Some e \<Rightarrow> (Inl (Error AddrInUse (''Failed to bind UDP discovery socket on port '' @ show_nat SERVER_DEFAULT_PORT @ '': '' @ e)), [])
     | None \<Rightarrow>
         (case ud_broadcast env of
            Some e \<Rightarrow> (Inl (Error OtherKind (''Failed to enable UDP broadcast: '' @ e)), [])
          | None \<Rightarrow> (Inr (receive_answers (ud_events env) []),
              broadcast_addresses (ud_local_ip env) @ subnet_unicast_hosts (ud_local_ip env))))"

section \<open>What is found\<close>

text \<open>The answers in front of the first failure.\<close>

fun answers :: "udp_event list \<Rightarrow> string list" where
  "answers (Datagram b peer # evs) = (case daemon_answer b peer of None \<Rightarrow> answers evs | Some a \<Rightarrow> a # answers evs)"
| "answers _ = []"

lemma receive_answers_set:
  "set (receive_answers evs found) = set found \<union> set (answers evs)"
  "distinct found \<Longrightarrow> distinct (receive_answers evs found)"
  by (induction evs found rule: receive_answers.induct) (auto split: option.splits)

lemma receive_answers_keeps: "\<exists>rest. receive_answers evs found = found @ rest"
  by (induction evs found rule: receive_answers.induct) (auto split: option.splits if_splits)

lemma answers_append: "answers (map (\<lambda>(b, p). Datagram b p) ds @ evs)
    = concat (map (\<lambda>(b, p). case daemon_answer b p of None \<Rightarrow> [] | Some a \<Rightarrow> [a]) ds) @ answers evs"
  by (induction ds) (auto split: option.splits)

text \<open>The request of another host, which every socket on the port receives, is not taken for an answer.\<close>

lemma request_no_answer: "daemon_answer (as_bytes HANDSHAKE_MESSAGE) peer = None"
  by code_simp

text \<open>An answer with a port gives an address that is read back as that address and port.\<close>

lemma format_daemon_addr_v4:
  assumes "wf_ipv4 ip" "port \<le> 65535"
  shows "parse_socket_addr (format_daemon_addr (V4 ip) port) = Some (V4 ip, port)"
  using parse_show_socket_addr_v4(2) [OF assms] by (simp add: format_daemon_addr_def show_socket_addr_v4_def)

lemma parse_response_bound: "parse_daemon_response t = Some p \<Longrightarrow> p \<le> 65535"
  by (auto simp: parse_daemon_response_def Let_def split: if_splits dest: parse_uint_le)

lemma found_parse:
  assumes "a \<in> set (answers evs)" "\<forall>b p. Datagram b p \<in> set evs \<longrightarrow> (\<exists>ip. p = V4 ip \<and> wf_ipv4 ip)"
  shows "\<exists>ip port. parse_socket_addr a = Some (V4 ip, port) \<and> wf_ipv4 ip"
  using assms
proof (induction evs rule: answers.induct)
  case (1 b peer evs)
  have "Datagram b peer \<in> set (Datagram b peer # evs)" by simp
  then obtain ip where ip: "peer = V4 ip" "wf_ipv4 ip" using 1(4) by blast
  show ?case
  proof (cases "daemon_answer b peer")
    case None
    then show ?thesis using 1 by simp
  next
    case (Some a')
    show ?thesis
    proof (cases "a = a'")
      case True
      then obtain port where "a = format_daemon_addr (V4 ip) port" "port \<le> 65535"
        using Some ip(1) parse_response_bound by (auto simp: daemon_answer_def)
      then show ?thesis using format_daemon_addr_v4 [OF ip(2)] ip(2) by blast
    next
      case False
      then show ?thesis using 1 Some by auto
    qed
  qed
qed auto

text \<open>Every host of the local network is asked.\<close>

lemma hosts_asked:
  "((a, b, c, i), SERVER_DEFAULT_PORT) \<in> set (subnet_unicast_hosts (Some (V4 (a, b, c, d)))) \<longleftrightarrow> 1 \<le> i \<and> i \<le> 254"
  by (auto simp: subnet_unicast_hosts_def)

end
