(* ===== verification/Server_Dispatch.thy ===== *)
theory Server_Dispatch
  imports Server_App Server_Flashd Server_Forward Net_Discover Cmd_Parser
begin

text \<open>
  The commands of the clients on the host server (\<open>dispatch_task\<close>, \<open>handle_client\<close> and the bridge of an
  interactive shell, \<open>hdc/src/server.rs\<close>). What the operating system and the other tasks contribute to
  a command is an argument: the connection to a device, the datagrams of a discovery, the device table
  at each look of a waiting command. A command may start tasks that go on after it; the result names
  them, with the part of the connection that they own.
\<close>

section \<open>Results\<close>

record dispatch_env =
  de_host :: host_env
  de_in_time :: "nat \<Rightarrow> bool"
  de_session_id :: u32
  de_connect :: "(tcp_in \<times> tcp_out) io_result"
  de_discover :: discover_env
  de_tables :: "connect_map list"
  de_app :: app_env
  de_forward :: forward_env

datatype started_task = SessionTasks u32 string tcp_in | TrackTask u32 u32

text \<open>A command returns, panics, or is still waiting when the looks of the argument are used up.\<close>

datatype dispatch_end = Returned "started_task list io_result" | Crashed | Waiting

definition returned :: "('s, started_task list) io \<Rightarrow> 's \<Rightarrow> dispatch_end \<times> 's" where
  "returned m x = (case m x of (r, x') \<Rightarrow> (Returned r, x'))"

definition no_tasks :: "('s, unit) io \<Rightarrow> 's \<Rightarrow> dispatch_end \<times> 's" where
  "no_tasks m = returned (io_bind m (\<lambda>_. io_return []))"

section \<open>Commands that the server answers itself\<close>

definition answer_end :: "u32 \<Rightarrow> string \<Rightarrow> (server, unit) io" where
  "answer_end channel_id line = io_bind (answer_line channel_id line) (\<lambda>_. maybe_end_channel channel_id)"

text \<open>The report of an error; the second form goes on when it cannot be sent.\<close>

definition fail_end :: "u32 \<Rightarrow> io_error \<Rightarrow> (server, unit) io" where
  "fail_end channel_id e = answer_end channel_id (''[Fail]'' @ err_message e)"

definition try_end :: "u32 \<Rightarrow> string \<Rightarrow> (server, unit) io" where
  "try_end channel_id line = io_bind (io_ignore (answer_line channel_id line)) (\<lambda>_. maybe_end_channel channel_id)"

definition target_list :: "u32 \<Rightarrow> string list \<Rightarrow> (server, unit) io" where
  "target_list channel_id params =
    io_bind (io_read (\<lambda>s. cm_get_list (list_ex (\<lambda>p. p = ''v'' \<or> p = ''-v'') params) (sv_connect s))) (\<lambda>list.
    answer_end channel_id (if list = [] then ''[Empty]'' else join [CHR 0x0A] list))"

definition ready_info :: daemon_info where
  "ready_info = \<lparr>di_session_id = 0, di_conn_type = Tcp, di_conn_status = Ready, di_dev_name = [], di_version = []\<rparr>"

primrec add_discovered :: "string list \<Rightarrow> nat \<Rightarrow> connect_map \<Rightarrow> nat \<times> connect_map" where
  "add_discovered [] count m = (count, m)"
| "add_discovered (addr # addrs) count m =
    (if cm_contains_key addr m then add_discovered addrs count m
     else add_discovered addrs (Suc count) (cm_put addr ready_info m))"

definition target_discover :: "discover_env \<Rightarrow> u32 \<Rightarrow> (server, unit) io" where
  "target_discover env channel_id =
    io_bind (\<lambda>s. case fst (discover_devices env) of
        Inl _ \<Rightarrow> (Inr 0, s)
      | Inr addrs \<Rightarrow> (case add_discovered addrs 0 (sv_connect s) of (count, m) \<Rightarrow> (Inr count, s\<lparr>sv_connect := m\<rparr>))) (\<lambda>count.
    answer_end channel_id (''Broadcast find daemon, total:'' @ show_nat count))"

definition chosen_key :: "string list \<Rightarrow> string \<Rightarrow> string" where
  "chosen_key params connect_key = (if 1 < length params then params ! 1 else connect_key)"

definition with_device :: "u32 \<Rightarrow> string \<Rightarrow> (string \<Rightarrow> (server, unit) io) \<Rightarrow> (server, unit) io" where
  "with_device channel_id key f s =
    (case resolve_connect_key (sv_connect s) key of Inl e \<Rightarrow> fail_end channel_id e s | Inr k \<Rightarrow> f k s)"

definition check_device :: "u32 \<Rightarrow> string list \<Rightarrow> string \<Rightarrow> (server, unit) io" where
  "check_device channel_id params connect_key =
    with_device channel_id (chosen_key params connect_key) (\<lambda>actual_key s.
    answer_end channel_id
      (if cm_get_session_id actual_key (sv_connect s) \<noteq> None then ''Device '' @ actual_key @ '' is connected''
       else ''[Fail]Device '' @ actual_key @ '' is not connected'') s)"

definition target_connect :: "dispatch_env \<Rightarrow> u32 \<Rightarrow> string list \<Rightarrow> server \<Rightarrow> dispatch_end \<times> server" where
  "target_connect env channel_id params s =
    (if length params < 2 then no_tasks (answer_end channel_id ''[Fail]Missing connect address'') s
     else
       (let addr = params ! 1 in
        case start_tcp_daemon_session (de_host env) (de_in_time env) (de_session_id env) (de_connect env) addr s of
          None \<Rightarrow> (Crashed, s)
        | Some (Inr rd, s1) \<Rightarrow>
            returned (io_bind (answer_end channel_id ''Connect OK'') (\<lambda>_.
              io_return [SessionTasks (de_session_id env) addr rd])) s1
        | Some (Inl e, s1) \<Rightarrow>
            no_tasks (answer_end channel_id (''[Fail]Connect to daemon failed: '' @ err_message e)) s1))"

definition check_server :: "u32 \<Rightarrow> (server, unit) io" where
  "check_server channel_id =
    io_bind (answer channel_id (to_le 2 (ucast (as_u32 KernelCheckServer) :: u16) @ as_bytes get_version)) (\<lambda>_.
    maybe_end_channel channel_id)"

definition client_version :: "u32 \<Rightarrow> (server, unit) io" where
  "client_version channel_id =
    io_bind (answer channel_id (as_bytes get_version)) (\<lambda>_. maybe_end_channel channel_id)"

text \<open>Waiting for a device: the list has the device table at each further look.\<close>

fun wait_for_target :: "u32 \<Rightarrow> connect_map list \<Rightarrow> server \<Rightarrow> dispatch_end \<times> server" where
  "wait_for_target channel_id tables s =
    (case cm_get_list False (sv_connect s) of
       key # _ \<Rightarrow> no_tasks (answer_end channel_id (''Wait for connected target '' @ key)) s
     | [] \<Rightarrow>
         (case answer_line channel_id ''[Fail]No any connected target'' s of
            (Inl e, s1) \<Rightarrow> (Returned (Inl e), s1)
          | (Inr _, s1) \<Rightarrow>
              (case tables of
                 [] \<Rightarrow> (Waiting, s1)
               | m # ms \<Rightarrow> wait_for_target channel_id ms (s1\<lparr>sv_connect := m\<rparr>))))"

declare wait_for_target.simps [simp del]

definition target_reconnect :: "u32 \<Rightarrow> string list \<Rightarrow> string \<Rightarrow> (server, unit) io" where
  "target_reconnect channel_id params connect_key =
    with_device channel_id (chosen_key params connect_key) (\<lambda>actual_key s.
    case cm_get_session_id actual_key (sv_connect s) of
      Some session_id \<Rightarrow>
        answer_end channel_id (''Reconnecting '' @ actual_key @ '' ...'')
          (s\<lparr>sv_tcp := tcp_end_session session_id (sv_tcp s), sv_connect := cm_remove actual_key (sv_connect s)\<rparr>)
    | None \<Rightarrow> answer_end channel_id (''[Fail]Device '' @ actual_key @ '' is not connected'') s)"

definition spawn_sub :: "u32 \<Rightarrow> string list \<Rightarrow> (server, unit) io" where
  "spawn_sub channel_id params =
    answer_end channel_id
      (if params \<noteq> [] \<and> hd params = ''killall-sub'' then ''Kill all subserver processes (not fully implemented)''
       else ''Spawn subserver (not fully implemented)'')"

definition forward_list :: "u32 \<Rightarrow> string \<Rightarrow> (server, unit) io" where
  "forward_list channel_id connect_key =
    io_bind (io_read (\<lambda>s. build_forward_list connect_key (sv_forward s))) (\<lambda>list.
    try_end channel_id (if list = [] then ''[Empty]'' else list))"

definition forward_remove :: "u32 \<Rightarrow> string \<Rightarrow> string list \<Rightarrow> (server, unit) io" where
  "forward_remove channel_id connect_key params =
    io_match (remove_forward_entry connect_key (if 3 \<le> length params then join '' '' (drop 2 params) else []))
      (\<lambda>e. try_end channel_id (''[Fail]'' @ err_message e))
      (\<lambda>msg. try_end channel_id msg)"

section \<open>Commands for a device\<close>

text \<open>The commands with a task of their own: their errors are reported to the client.\<close>

definition device_task ::
  "string \<Rightarrow> u32 \<Rightarrow> (string \<Rightarrow> u32 \<Rightarrow> (rx_event list \<times> server, unit) io) \<Rightarrow> (rx_event list \<times> server, unit) io" where
  "device_task connect_key channel_id handler x =
    (case resolve_connect_key (sv_connect (snd x)) connect_key of
       Inl e \<Rightarrow> on_sv (try_end channel_id (''[Fail]'' @ err_message e)) x
     | Inr actual_key \<Rightarrow>
         (case cm_get_session_id actual_key (sv_connect (snd x)) of
            None \<Rightarrow> on_sv (try_end channel_id ''[Fail]Session not found'') x
          | Some session_id \<Rightarrow>
              io_match (handler actual_key session_id)
                (\<lambda>e. on_sv (try_end channel_id (''[Fail]'' @ err_message e))) io_return x))"

definition jdwp_option :: "string list \<Rightarrow> bytes" where
  "jdwp_option params =
    (if ''-a'' \<in> set params then as_bytes ''a'' else if ''-p'' \<in> set params then as_bytes ''p'' else [])"

definition with_session :: "u32 \<Rightarrow> string \<Rightarrow> (u32 \<Rightarrow> (server, 'a) io) \<Rightarrow> 'a \<Rightarrow> (server, 'a) io" where
  "with_session channel_id connect_key f none s =
    (case resolve_session_id (sv_connect s) connect_key of
       Inl e \<Rightarrow> io_bind (fail_end channel_id e) (\<lambda>_. io_return none) s
     | Inr session_id \<Rightarrow> f session_id s)"

definition send_failed :: "u32 \<Rightarrow> io_error \<Rightarrow> (server, unit) io" where
  "send_failed channel_id e = answer_line channel_id (''[Fail]Send to daemon failed: '' @ err_message e)"

definition jdwp_track :: "u32 \<Rightarrow> string \<Rightarrow> string list \<Rightarrow> (server, started_task list) io" where
  "jdwp_track channel_id connect_key params =
    with_session channel_id connect_key (\<lambda>session_id.
      io_bind (map_usb (usb_register_response_channel session_id channel_id \<lparr>mq_items = [], mq_open = True\<rparr>)) (\<lambda>_.
      io_match (send_task session_id (task_msg channel_id JdwpTrack (jdwp_option params)))
        (\<lambda>e. io_bind (send_failed channel_id e) (\<lambda>_.
             io_bind (maybe_end_channel channel_id) (\<lambda>_.
             io_bind (map_usb (usb_unregister_response_channel session_id channel_id)) (\<lambda>_.
             io_return []))))
        (\<lambda>_. io_bind (map_tcp (tcp_associate_channel_with_session channel_id session_id)) (\<lambda>_.
             io_return [TrackTask session_id channel_id])))) []"

text \<open>The task that streams the answers; the flag tells whether it has ended.\<close>

definition track_end :: "u32 \<Rightarrow> u32 \<Rightarrow> server \<Rightarrow> server" where
  "track_end session_id channel_id s =
    s\<lparr>sv_tcp := tcp_end_channel channel_id (sv_tcp s),
      sv_usb := usb_unregister_response_channel session_id channel_id (sv_usb s)\<rparr>"

definition plain_payload :: "task_message \<Rightarrow> bytes" where
  "plain_payload task = (if tm_command task = KernelEcho then drop 1 (tm_payload task) else tm_payload task)"

fun track_stream :: "u32 \<Rightarrow> u32 \<Rightarrow> rx_event list \<Rightarrow> server \<Rightarrow> bool \<times> server" where
  "track_stream session_id channel_id [] s = (False, s)"
| "track_stream session_id channel_id (Elapsed # evs) s = track_stream session_id channel_id evs s"
| "track_stream session_id channel_id (QueueClosed # evs) s = (True, track_end session_id channel_id s)"
| "track_stream session_id channel_id (Received task # evs) s =
    (if tm_command task = KernelChannelClose then (True, track_end session_id channel_id s)
     else (case answer channel_id (plain_payload task) s of
             (Inl _, s1) \<Rightarrow> (True, track_end session_id channel_id s1)
           | (Inr _, s1) \<Rightarrow> track_stream session_id channel_id evs s1))"

definition jdwp_list :: "u32 \<Rightarrow> string \<Rightarrow> (server, unit) io" where
  "jdwp_list channel_id connect_key =
    with_session channel_id connect_key (\<lambda>session_id.
      io_bind (io_match (send_task session_id (task_msg channel_id JdwpList []))
        (\<lambda>e. io_bind (send_failed channel_id e) (\<lambda>_. maybe_end_channel channel_id)) io_return) (\<lambda>_.
      map_tcp (tcp_associate_channel_with_session channel_id session_id))) ()"

text \<open>Every other command goes to the daemon, most of them without the command word.\<close>

definition stripped :: "hdc_command list" where
  "stripped = [UnityExecute, UnityReboot, UnityRemount, UnityRunmode, UnityRootrun, UnityHilog, UnityBugreportInit, AppUninstall]"

definition daemon_payload :: "hdc_command \<Rightarrow> string list \<Rightarrow> bytes" where
  "daemon_payload cmd params = as_bytes (join '' '' (if cmd \<in> set stripped then drop 1 params else params))"

fun collect_loop :: "u32 \<Rightarrow> rx_event list \<Rightarrow> server \<Rightarrow> rx_event list \<times> server" where
  "collect_loop channel_id [] s = ([], s)"
| "collect_loop channel_id (Elapsed # evs) s = (evs, s)"
| "collect_loop channel_id (QueueClosed # evs) s = (evs, s)"
| "collect_loop channel_id (Received task # evs) s =
    (if tm_command task = KernelChannelClose then (evs, s)
     else collect_loop channel_id evs (snd (answer channel_id (as_bytes (from_utf8_lossy (tm_payload task))) s)))"

definition collect_daemon_response_then_close :: "u32 \<Rightarrow> u32 \<Rightarrow> (rx_event list \<times> server, unit) io" where
  "collect_daemon_response_then_close session_id channel_id =
    io_bind (with_responses session_id channel_id (\<lambda>(evs, s). (Inr (), collect_loop channel_id evs s))) (\<lambda>_.
    on_sv (maybe_end_channel channel_id))"

definition daemon_command :: "hdc_command \<Rightarrow> u32 \<Rightarrow> string \<Rightarrow> string list \<Rightarrow> (rx_event list \<times> server, unit) io" where
  "daemon_command cmd channel_id connect_key params x =
    (case resolve_session_id (sv_connect (snd x)) connect_key of
       Inl e \<Rightarrow> on_sv (fail_end channel_id e) x
     | Inr session_id \<Rightarrow>
         io_bind (on_sv (io_match (send_task session_id (task_msg channel_id cmd (daemon_payload cmd params)))
           (send_failed channel_id) io_return)) (\<lambda>_.
         io_bind (on_sv (map_tcp (tcp_associate_channel_with_session channel_id session_id))) (\<lambda>_.
         if cmd = AppUninstall then collect_daemon_response_then_close session_id channel_id else io_return ())) x)"

section \<open>The dispatcher\<close>

definition server_dispatch_task ::
  "dispatch_env \<Rightarrow> hdc_command \<Rightarrow> string \<Rightarrow> u32 \<Rightarrow> string list \<Rightarrow> rx_event list \<times> server
    \<Rightarrow> dispatch_end \<times> (rx_event list \<times> server)" where
  "server_dispatch_task env cmd connect_key channel_id params x =
    (if cmd = KernelTargetList then no_tasks (on_sv (target_list channel_id params)) x
     else if cmd = KernelTargetDiscover then no_tasks (on_sv (target_discover (de_discover env) channel_id)) x
     else if cmd = KernelCheckDevice then no_tasks (on_sv (check_device channel_id params connect_key)) x
     else if cmd = KernelTargetConnect then
       (case target_connect env channel_id params (snd x) of (r, s) \<Rightarrow> (r, (fst x, s)))
     else if cmd = KernelCheckServer then no_tasks (on_sv (check_server channel_id)) x
     else if cmd = ClientVersion then no_tasks (on_sv (client_version channel_id)) x
     else if cmd = KernelEnableKeepalive then no_tasks (on_sv (map_tcp (tcp_set_keep_alive channel_id))) x
     else if cmd = KernelWaitFor then
       (case wait_for_target channel_id (de_tables env) (snd x) of (r, s) \<Rightarrow> (r, (fst x, s)))
     else if cmd = KernelTargetReconnect then no_tasks (on_sv (target_reconnect channel_id params connect_key)) x
     else if cmd = SpawnSub then no_tasks (on_sv (spawn_sub channel_id params)) x
     else if cmd = FileInit then
       no_tasks (device_task connect_key channel_id (\<lambda>_ sid. handle_server_file_send sid channel_id params)) x
     else if cmd = FileRecvInit then
       no_tasks (device_task connect_key channel_id (\<lambda>_ sid. handle_server_file_recv sid channel_id params)) x
     else if cmd = AppInit then
       no_tasks (device_task connect_key channel_id (\<lambda>_ sid. handle_server_app_install (de_app env) sid channel_id params)) x
     else if cmd = ForwardInit then
       no_tasks (device_task connect_key channel_id (\<lambda>key sid. handle_server_forward (de_forward env) key sid channel_id params)) x
     else if cmd = ForwardRportInit then
       no_tasks (device_task connect_key channel_id (\<lambda>key sid. handle_server_rport (de_forward env) key sid channel_id params)) x
     else if cmd = ForwardList \<or> cmd = ForwardRportList then no_tasks (on_sv (forward_list channel_id connect_key)) x
     else if cmd = ForwardRemove \<or> cmd = ForwardRportRemove then
       no_tasks (on_sv (forward_remove channel_id connect_key params)) x
     else if cmd = JdwpTrack then returned (on_sv (jdwp_track channel_id connect_key params)) x
     else if cmd = JdwpList then no_tasks (on_sv (jdwp_list channel_id connect_key)) x
     else if cmd \<in> {FlashdUpdateInit, FlashdFlashInit, FlashdErase, FlashdFormat} then
       no_tasks (device_task connect_key channel_id (\<lambda>_ sid. handle_server_flashd sid channel_id cmd params)) x
     else no_tasks (daemon_command cmd channel_id connect_key params) x)"

section \<open>Clients\<close>

text \<open>
  The run of a client's task: its channel, and for the \<open>k\<close>-th message what its command gets from
  outside, the answers of the daemon, and what the other tasks do to the server before it arrives.
\<close>

record client_env =
  ce_channel_id :: u32
  ce_dispatch :: "nat \<Rightarrow> dispatch_env"
  ce_events :: "nat \<Rightarrow> rx_event list"
  ce_others :: "nat \<Rightarrow> server \<Rightarrow> server"

datatype client_end = ClientEnded "unit io_result" | ClientCrashed | ClientWaiting | ClientShell tcp_in tcp_out string

text \<open>
  The first message: the device that the client names and, when the message is not the answer to the
  hello, the message as a command. \<open>None\<close> is a panic.
\<close>

definition first_message :: "bytes \<Rightarrow> (string \<times> bytes option) option" where
  "first_message recv =
    (if prefix (as_bytes HANDSHAKE_MESSAGE) recv then
       (case unpack_channel_handshake recv of
          None \<Rightarrow> None
        | Some (Inr key) \<Rightarrow> Some (if key = [] then ''any'' else key, None)
        | Some (Inl _) \<Rightarrow> Some ([], Some recv))
     else Some ([], Some recv))"

definition client_words :: "bytes \<Rightarrow> string list" where
  "client_words recv = map (trim_end_matches (\<lambda>c. c = CHR 0x00)) (split_on CHR '' '' (from_utf8_lossy recv))"

definition unknown_command :: "u32 \<Rightarrow> bytes \<Rightarrow> server \<Rightarrow> server" where
  "unknown_command channel_id recv s =
    (let trimmed = trim (trim_end_matches (\<lambda>c. c = CHR 0x00) (from_utf8_lossy recv)) in
     if trimmed = [] \<or> trimmed = ''alive'' then s
     else snd (answer_line channel_id ''[Fail][E001001]Unknown command'' s))"

datatype step_end = StepOn | StepBreak | StepShell tcp_out string | StepCrash | StepWait

definition dispatch_command :: "client_env \<Rightarrow> nat \<Rightarrow> string \<Rightarrow> hdc_command \<Rightarrow> string list \<Rightarrow> server \<Rightarrow> step_end \<times> started_task list \<times> server" where
  "dispatch_command env k connect_key cmd params s =
    (case server_dispatch_task (ce_dispatch env k) cmd connect_key (ce_channel_id env) params (ce_events env k, s) of
       (Returned (Inr ts), (_, s')) \<Rightarrow> (StepOn, ts, s')
     | (Returned (Inl e), (_, s')) \<Rightarrow> (StepOn, [], snd (answer_fail (ce_channel_id env) e s'))
     | (Crashed, (_, s')) \<Rightarrow> (StepCrash, [], s')
     | (Waiting, (_, s')) \<Rightarrow> (StepWait, [], s'))"

definition client_step :: "client_env \<Rightarrow> nat \<Rightarrow> string \<Rightarrow> bytes \<Rightarrow> server \<Rightarrow> step_end \<times> started_task list \<times> server" where
  "client_step env k connect_key recv s =
    (let parsed = split_opt_and_cmd (client_words recv) in
     case pd_command parsed of
       None \<Rightarrow> (StepOn, [], unknown_command (ce_channel_id env) recv s)
     | Some cmd \<Rightarrow>
         if cmd = UnityExecute \<and> length (pd_parameters parsed) = 1 then
           (case resolve_connect_key (sv_connect s) connect_key of
              Inl e \<Rightarrow> (StepBreak, [], snd (answer_fail (ce_channel_id env) e s))
            | Inr actual_key \<Rightarrow>
                (case tcp_take_channel_writer (ce_channel_id env) (sv_tcp s) of
                   (Some wr, t) \<Rightarrow> (StepShell wr actual_key, [], s\<lparr>sv_tcp := t\<rparr>)
                 | (None, t) \<Rightarrow> dispatch_command env k connect_key cmd (pd_parameters parsed) (s\<lparr>sv_tcp := t\<rparr>)))
         else dispatch_command env k connect_key cmd (pd_parameters parsed) s)"

definition end_client :: "u32 \<Rightarrow> server \<Rightarrow> server" where
  "end_client channel_id s = s\<lparr>sv_tcp := tcp_end_channel channel_id (sv_tcp s)\<rparr>"

text \<open>How the loop ends after a step; \<open>None\<close> when it goes on.\<close>

definition step_result :: "u32 \<Rightarrow> tcp_in \<Rightarrow> step_end \<Rightarrow> server \<Rightarrow> (client_end \<times> server) option" where
  "step_result channel_id rd e s =
    (case e of
       StepOn \<Rightarrow> None
     | StepBreak \<Rightarrow> Some (ClientEnded (Inr ()), end_client channel_id s)
     | StepShell wr key \<Rightarrow> Some (ClientShell rd wr key, s)
     | StepCrash \<Rightarrow> Some (ClientCrashed, s)
     | StepWait \<Rightarrow> Some (ClientWaiting, s))"

function client_loop :: "client_env \<Rightarrow> nat \<Rightarrow> string \<Rightarrow> tcp_in \<Rightarrow> server \<Rightarrow> client_end \<times> started_task list \<times> server" where
  "client_loop env k connect_key rd s =
    (case server_recv_channel_message rd of
       (Inl _, rd1) \<Rightarrow> (ClientEnded (Inr ()), [], end_client (ce_channel_id env) (ce_others env k s))
     | (Inr recv, rd1) \<Rightarrow>
         (case client_step env k connect_key recv (ce_others env k s) of
            (e, ts, s1) \<Rightarrow>
              (case step_result (ce_channel_id env) rd1 e s1 of
                 Some (r, s2) \<Rightarrow> (r, ts, s2)
               | None \<Rightarrow> (case client_loop env (Suc k) connect_key rd1 s1 of (r, ts', s2) \<Rightarrow> (r, ts @ ts', s2)))))"
  by pat_completeness auto

lemma channel_message_consumes:
  assumes "server_recv_channel_message rd = (Inr m, rd')"
  shows "length (in_contents rd') < length (in_contents rd)"
  using assms
  by (auto simp: server_recv_channel_message_def io_bind_eq_Inr tcp_read_exact_def dest!: fill_loop_consumes)

termination client_loop
  by (relation "measure (\<lambda>(_, _, _, rd, _). length (in_contents rd))") (auto intro: channel_message_consumes [OF sym])

declare client_loop.simps [simp del]

definition server_handle_client :: "client_env \<Rightarrow> tcp_in \<Rightarrow> tcp_out \<Rightarrow> server \<Rightarrow> client_end \<times> started_task list \<times> server" where
  "server_handle_client env rd wr s =
    (let ch = ce_channel_id env in
     case answer ch (channel_hello ch) (s\<lparr>sv_tcp := tcp_start_channel ch wr (sv_tcp s)\<rparr>) of
       (Inl e, s1) \<Rightarrow> (ClientEnded (Inl e), [], s1)
     | (Inr _, s1) \<Rightarrow>
         (case server_recv_channel_message rd of
            (Inl _, rd1) \<Rightarrow> (ClientEnded (Inr ()), [], end_client ch s1)
          | (Inr recv, rd1) \<Rightarrow>
              (case first_message recv of
                 None \<Rightarrow> (ClientCrashed, [], s1)
               | Some (connect_key, None) \<Rightarrow> client_loop env 0 connect_key rd1 s1
               | Some (connect_key, Some msg) \<Rightarrow>
                   (case client_step env 0 connect_key msg s1 of
                      (e, ts, s2) \<Rightarrow>
                        (case step_result ch rd1 e s2 of
                           Some (r, s3) \<Rightarrow> (r, ts, s3)
                         | None \<Rightarrow> (case client_loop env 1 connect_key rd1 s2 of (r, ts', s3) \<Rightarrow> (r, ts @ ts', s3)))))))"

section \<open>The bridge of an interactive shell\<close>

definition shell_output_commands :: "hdc_command list" where
  "shell_output_commands = [ShellData, KernelEcho, KernelEchoRaw]"

fun shell_output :: "rx_event list \<Rightarrow> tcp_out \<Rightarrow> tcp_out" where
  "shell_output [] wr = wr"
| "shell_output (Elapsed # evs) wr = shell_output evs wr"
| "shell_output (QueueClosed # evs) wr = wr"
| "shell_output (Received task # evs) wr =
    (if tm_command task \<in> set shell_output_commands then
       (case tcp_write_all (to_be 4 (of_nat (length (tm_payload task)) :: u32) @ tm_payload task) wr of
          (Inl _, wr1) \<Rightarrow> wr1
        | (Inr _, wr1) \<Rightarrow> shell_output evs wr1)
     else if tm_command task = KernelChannelClose then wr
     else shell_output evs wr)"

function shell_input :: "u32 \<Rightarrow> u32 \<Rightarrow> tcp_in \<Rightarrow> server \<Rightarrow> server" where
  "shell_input session_id channel_id rd s =
    (case server_recv_channel_message rd of
       (Inl _, rd1) \<Rightarrow> s
     | (Inr data, rd1) \<Rightarrow>
         (case usb_only session_id (concat_pack (task_msg channel_id ShellData data)) s of
            (Inl _, s1) \<Rightarrow> s1
          | (Inr _, s1) \<Rightarrow> shell_input session_id channel_id rd1 s1))"
  by pat_completeness auto
termination shell_input
  by (relation "measure (\<lambda>(_, _, rd, _). length (in_contents rd))") (auto intro: channel_message_consumes [OF sym])

declare shell_input.simps [simp del]

text \<open>
  The two directions use different parts of the state, so their order does not matter. The reports of
  an error are written without the length of a channel message.
\<close>

definition run_server_shell_bridge ::
  "string \<Rightarrow> u32 \<Rightarrow> rx_event list \<Rightarrow> tcp_in \<Rightarrow> tcp_out \<Rightarrow> server \<Rightarrow> tcp_out \<times> server" where
  "run_server_shell_bridge connect_key channel_id evs rd wr s =
    (case cm_get_session_id connect_key (sv_connect s) of
       None \<Rightarrow> (snd (tcp_write_all (as_bytes (''[Fail]No device connected'' @ CRLF)) wr), s)
     | Some session_id \<Rightarrow>
         let s1 = s\<lparr>sv_usb := usb_register_response_channel session_id channel_id \<lparr>mq_items = [], mq_open = True\<rparr> (sv_usb s)\<rparr>;
             unregister = (\<lambda>s. s\<lparr>sv_usb := usb_unregister_response_channel session_id channel_id (sv_usb s)\<rparr>)
         in case usb_only session_id (concat_pack (task_msg channel_id ShellInit [])) s1 of
              (Inl e, s2) \<Rightarrow> (snd (tcp_write_all (as_bytes (''[Fail]'' @ err_message e @ CRLF)) wr), unregister s2)
            | (Inr _, s2) \<Rightarrow> (shell_output evs wr, unregister (shell_input session_id channel_id rd s2)))"

end
