(* ===== verification/Server_Isolation.thy ===== *)
theory Server_Isolation
  imports Server_Dispatch
begin

text \<open>
  What the command of one client leaves alone. A part of the server's state that the basic operations
  on the client's own channel, on sessions, on the queues and on files leave alone is left alone by
  every task for a device. The locale states that contract; it is interpreted on the channels of the
  other clients and on the table of devices.
\<close>

section \<open>Branches on the state\<close>

lemma keeps_at:
  "(\<And>e. keeps f (g e)) \<Longrightarrow> (\<And>v. keeps f (h v)) \<Longrightarrow> keeps f (\<lambda>x. case z x of Inl e \<Rightarrow> g e x | Inr v \<Rightarrow> h v x)"
  "keeps f m \<Longrightarrow> (\<And>v. keeps f (h v)) \<Longrightarrow> keeps f (\<lambda>x. case y x of None \<Rightarrow> m x | Some v \<Rightarrow> h v x)"
  "keeps f m \<Longrightarrow> keeps f n \<Longrightarrow> keeps f (\<lambda>x. if b x then m x else n x)"
  by (auto simp: keeps_def split: sum.splits option.splits)

lemma keeps_Pair [simp]: "keeps f (Pair r)"
  by (simp add: keeps_def)

section \<open>The interface\<close>

locale server_part =
  fixes part :: "server \<Rightarrow> 'p" and ch :: u32
  assumes keeps_answer: "keeps part (answer ch data)"
    and keeps_end: "keeps part (maybe_end_channel ch)"
    and keeps_send: "keeps part (send_to_session sid data)"
    and keeps_associate: "keeps part (map_tcp (tcp_associate_channel_with_session ch sid))"
    and part_usb: "part (s\<lparr>sv_usb := u\<rparr>) = part s"
    and part_fs: "part (s\<lparr>sv_fs := f\<rparr>) = part s"
    and part_forward: "part (s\<lparr>sv_forward := e\<rparr>) = part s"
    and part_aborted: "part (s\<lparr>sv_aborted := a\<rparr>) = part s"
begin

lemma keeps_line: "keeps part (answer_line ch t)" "keeps part (answer_fail ch err)"
  by (simp_all add: answer_line_def answer_fail_def keeps_answer)

lemma keeps_task: "keeps part (send_task sid m)"
  by (simp add: send_task_def keeps_send)

lemma keeps_fs: "keeps part (on_host_fs g)"
  by (auto simp: keeps_def on_host_fs_def part_fs split: prod.splits)

lemma keeps_usb: "keeps part (on_usb w)" "keeps part (map_usb v)"
  by (auto simp: keeps_def on_usb_def part_usb split: prod.splits)

lemma keeps_put: "keeps part (put_forward e)"
  by (simp add: keeps_def put_forward_def part_forward)

lemma keeps_sv: "keeps part m \<Longrightarrow> keeps (\<lambda>x. part (snd x)) (on_sv m)"
  by (auto simp: on_sv_def split: prod.splits dest: keepsD intro!: keepsI)

lemma keeps_events: "keeps (\<lambda>x. part (snd x)) (\<lambda>(evs, s). case w evs of (r, evs') \<Rightarrow> (g r, (evs', s)))"
  "keeps (\<lambda>x. part (snd x)) (\<lambda>(evs, s). (r, (v evs, s)))"
  by (auto simp: keeps_def split: prod.splits)

lemma keeps_run:
  "(\<And>evs s. part (snd (snd (w evs s))) = part s) \<Longrightarrow> keeps (\<lambda>x. part (snd x)) (\<lambda>(evs, s). w evs s)"
  by (auto simp: keeps_def)

lemma keeps_responses: "keeps (\<lambda>x. part (snd x)) m \<Longrightarrow> keeps (\<lambda>x. part (snd x)) (with_responses sid c m)"
  by (auto simp: keeps_def with_responses_def part_usb split: prod.splits) (metis part_usb snd_conv)

lemmas part_kept = keeps_answer keeps_end keeps_associate keeps_line keeps_task keeps_fs keeps_usb keeps_put
  keeps_ignore keeps_sv keeps_events keeps_responses keeps_rules keeps_basic

lemma part_answer: "part (snd (answer ch data s)) = part s"
  using keeps_answer by (simp add: keeps_def)

section \<open>Loops\<close>

text \<open>The branches of a loop: after an operation that keeps the part, whatever its result.\<close>

lemma part_step:
  assumes "keeps part m" "\<And>e s1. part (snd (snd (a e s1))) = part s1" "\<And>x s1. part (snd (snd (b x s1))) = part s1"
  shows "part (snd (snd (case m s of (Inl e, s1) \<Rightarrow> a e s1 | (Inr x, s1) \<Rightarrow> b x s1))) = part s"
proof -
  obtain r s1 where m: "m s = (r, s1)" by (cases "m s")
  then show ?thesis using assms(2,3) keepsD [OF assms(1) m] by (cases r) simp_all
qed

lemma part_if:
  "part (snd (snd x)) = part s \<Longrightarrow> part (snd (snd y)) = part s \<Longrightarrow> part (snd (snd (if P then x else y))) = part s"
  "(\<And>e. part (snd (snd (g e))) = part s) \<Longrightarrow> (\<And>v. part (snd (snd (h v))) = part s) \<Longrightarrow>
    part (snd (snd (case z of Inl e \<Rightarrow> g e | Inr v \<Rightarrow> h v))) = part s"
  by (simp_all split: sum.splits)

lemma part_file_begin: "part (snd (snd (wait_file_begin sid ch n f p rt evs s))) = part s"
proof (induction evs arbitrary: p rt s)
  case (Cons ev evs)
  show ?case
  proof (cases ev)
    case (Received task)
    show ?thesis
      unfolding Received wait_file_begin.simps Let_def
      by (intro part_step part_if keeps_task Cons.IH) simp_all
  qed simp_all
qed simp

lemma part_recv_loop: "part (snd (snd (file_recv_loop sid ch h n rc fin evs s))) = part s"
proof (induction evs arbitrary: rc fin s)
  case (Cons ev evs)
  show ?case
  proof (cases ev)
    case (Received task)
    show ?thesis
      unfolding Received file_recv_loop.simps Let_def
      by (intro part_step part_if keeps_task keeps_fs keeps_answer Cons.IH) simp_all
  qed simp_all
qed simp

lemma part_app_finish: "part (snd (snd (wait_app_finish ch evs s))) = part s"
proof (induction evs arbitrary: s)
  case (Cons ev evs)
  then show ?case by (cases ev) (simp_all add: part_answer)
qed simp

lemma part_flashd_finish: "part (snd (snd (wait_flashd_finish ch evs s))) = part s"
proof (induction evs arbitrary: s)
  case (Cons ev evs)
  then show ?case by (cases ev) (simp_all add: part_answer Let_def)
qed simp

lemma part_rport_setup: "part (snd (snd (wait_rport_setup env k sid ch evs s))) = part s"
proof (induction evs arbitrary: k s)
  case (Cons ev evs)
  have "part (answer_check env k sid ch p s) = part s" for k p s
    using keepsD [OF keeps_task] by (auto simp: answer_check_def) (metis prod.collapse)
  then show ?case using Cons by (cases ev) (simp_all add: part_answer)
qed simp

lemma part_collect: "part (snd (collect_loop ch evs s)) = part s"
proof (induction evs arbitrary: s)
  case (Cons ev evs)
  then show ?case by (cases ev) (simp_all add: part_answer)
qed simp

lemma keeps_stream_loop: "keeps part (stream_loop cmd sid ch h off)"
proof (rule keepsI)
  fix s r s'
  show "stream_loop cmd sid ch h off s = (r, s') \<Longrightarrow> part s' = part s"
  proof (induction "length (remaining h (sv_fs s))" arbitrary: s off rule: less_induct)
    case less
    obtain r1 s1 where read: "on_host_fs (file_read h CHUNK_SIZE) s = (r1, s1)" by (cases "on_host_fs (file_read h CHUNK_SIZE) s")
    have s1: "part s1 = part s" using keepsD [OF keeps_fs read] .
    show ?case
    proof (cases "\<exists>buf. r1 = Inr buf \<and> buf \<noteq> []")
      case False
      then show ?thesis using less.prems s1 read by (auto simp: stream_loop.simps [of _ _ _ _ _ s] split: sum.splits)
    next
      case True
      then obtain buf where buf: "r1 = Inr buf" "buf \<noteq> []" by blast
      obtain r2 s2 where snd: "send_task sid (task_msg ch cmd (chunk_payload off buf)) s1 = (r2, s2)" by fastforce
      have "part s2 = part s" using keepsD [OF keeps_task snd] s1 by simp
      moreover have "length (remaining h (sv_fs s2)) < length (remaining h (sv_fs s))"
        using stream_round [OF _ _ _ snd] read buf by (simp add: CHUNK_SIZE_def MAX_SIZE_IOBUF_def)
      ultimately show ?thesis
        using less.prems less.hyps [of s2] read buf snd
        by (auto simp: stream_loop.simps [of _ _ _ _ _ s] split: sum.splits)
    qed
  qed
qed

lemma part_percent: "part (show_percent ch l p s) = part s"
  by (simp add: show_percent_def part_answer)

lemma keeps_flash_loop: "keeps part (flash_loop n sid ch h off lp)"
proof (rule keepsI)
  fix s r s'
  show "flash_loop n sid ch h off lp s = (r, s') \<Longrightarrow> part s' = part s"
  proof (induction "length (remaining h (sv_fs s))" arbitrary: s off lp rule: less_induct)
    case less
    obtain r1 s1 where read: "on_host_fs (file_read h CHUNK_SIZE) s = (r1, s1)" by (cases "on_host_fs (file_read h CHUNK_SIZE) s")
    have s1: "part s1 = part s" using keepsD [OF keeps_fs read] .
    show ?case
    proof (cases "\<exists>buf. r1 = Inr buf \<and> buf \<noteq> []")
      case False
      then show ?thesis using less.prems s1 read by (auto simp: flash_loop.simps [of _ _ _ _ _ _ s] split: sum.splits)
    next
      case True
      then obtain buf where buf: "r1 = Inr buf" "buf \<noteq> []" by blast
      obtain r2 s2 where snd: "send_task sid (task_msg ch FlashdData (chunk_payload off buf)) s1 = (r2, s2)" by fastforce
      let ?off = "off + of_nat (length buf)"
      let ?s3 = "show_percent ch lp (flash_percent n ?off) s2"
      have "part ?s3 = part s" "part s2 = part s" using keepsD [OF keeps_task snd] s1 by (simp_all add: part_percent)
      moreover have "length (remaining h (sv_fs ?s3)) < length (remaining h (sv_fs s))"
        using stream_round [OF _ _ _ snd] read buf by (simp add: CHUNK_SIZE_def MAX_SIZE_IOBUF_def)
      ultimately show ?thesis
        using less.prems less.hyps [of ?s3] read buf snd
        by (auto simp: flash_loop.simps [of _ _ _ _ _ _ s] Let_def split: sum.splits)
    qed
  qed
qed

section \<open>Tasks\<close>

lemmas loops_kept = keeps_run [OF part_file_begin] keeps_run [OF part_recv_loop] keeps_run [OF part_flashd_finish]
  keeps_run [OF part_rport_setup] keeps_stream_loop keeps_flash_loop

lemma keeps_file_send: "keeps (\<lambda>x. part (snd x)) (handle_server_file_send sid ch params)"
  unfolding handle_server_file_send_def file_send_task_def Let_def by (intro part_kept loops_kept)

lemma keeps_file_recv: "keeps (\<lambda>x. part (snd x)) (handle_server_file_recv sid ch params)"
  unfolding handle_server_file_recv_def file_recv_task_def by (intro part_kept loops_kept)

lemma part_keeps_flashd: "keeps (\<lambda>x. part (snd x)) (handle_server_flashd sid ch cmd params)"
  unfolding handle_server_flashd_def flashd_task_def flash_image_def by (intro part_kept loops_kept)

lemma keeps_install_single: "keeps (\<lambda>x. part (snd x)) (install_single_hap sid ch path options)"
proof -
  have "keeps (\<lambda>x. part (snd x)) (\<lambda>(evs, s). case wait_app_finish ch evs s of (r, x) \<Rightarrow> (Inr r, x))"
    using part_app_finish by (auto simp: keeps_def split: prod.splits) (metis snd_conv)
  moreover have "keeps part (report_app_finish ch n out)" for n out
    unfolding report_app_finish_def by (intro part_kept)
  ultimately show ?thesis unfolding install_single_hap_def Let_def by (intro part_kept loops_kept)
qed

lemma keeps_rport: "keeps (\<lambda>x. part (snd x)) (handle_server_rport env key sid ch params)"
  unfolding handle_server_rport_def rport_setup_def Let_def by (intro part_kept loops_kept)

lemma keeps_forward: "keeps (\<lambda>x. part (snd x)) (handle_server_forward env key sid ch params)"
proof -
  have "keeps (\<lambda>x. part (snd x)) (check_flow env sid ch p spec)" for p spec
    unfolding check_flow_def by (intro part_kept)
  moreover have "keeps (\<lambda>x. part (snd x)) (init_flow env dbg sid ch p l spec)" for dbg p l spec
    unfolding init_flow_def follow_up_def send_forward_check_result_def by (intro part_kept)
  ultimately show ?thesis
    unfolding handle_server_forward_def forward_setup_def Let_def by (intro part_kept)
qed

lemma keeps_install_haps: "keeps (\<lambda>x. part (snd x)) (install_haps sid ch options haps)"
  by (induction haps) (auto intro: keeps_install_single)

lemma keeps_hap_paths: "keeps part (hap_paths env i path)"
  unfolding hap_paths_def by (intro part_kept)

lemma part_install_packages:
  "part (snd (snd (install_packages env sid ch cwd options i packages dirs x))) = part (snd x)"
proof (induction packages arbitrary: i dirs x)
  case (Cons package packages)
  obtain r1 x1 where h: "on_sv (hap_paths env i (package_path cwd package)) x = (r1, x1)"
    by (cases "on_sv (hap_paths env i (package_path cwd package)) x")
  have x1: "part (snd x1) = part (snd x)" using keepsD [OF keeps_sv [OF keeps_hap_paths] h] .
  show ?case
  proof (cases r1)
    case (Inr p)
    obtain haps dir where p: "p = (haps, dir)" by (cases p)
    obtain r2 x2 where i2: "install_haps sid ch options haps x1 = (r2, x2)" by (cases "install_haps sid ch options haps x1")
    have "part (snd x2) = part (snd x)" using keepsD [OF keeps_install_haps i2] x1 by simp
    then show ?thesis using h Inr p i2 Cons.IH by (cases r2) simp_all
  qed (simp add: h x1)
qed simp

lemma keeps_app_install: "keeps (\<lambda>x. part (snd x)) (handle_server_app_install env sid ch params)"
proof -
  have clean: "keeps part (cleanup_dirs dirs)" for dirs
    by (induction dirs) (auto intro: keeps_ignore keeps_fs)
  have "keeps (\<lambda>x. part (snd x)) (\<lambda>x. case install_packages env sid ch cwd options 0 packages [] x of
        ((Inl e, dirs), x') \<Rightarrow> (Inr (Inl e, dirs), x')
      | ((Inr _, dirs), x') \<Rightarrow> io_bind (on_sv (maybe_end_channel ch)) (\<lambda>_. io_return (Inr (), dirs)) x')" for cwd options packages
  proof (rule keepsI)
    fix x q x'
    assume *: "(case install_packages env sid ch cwd options 0 packages [] x of
        ((Inl e, dirs), x') \<Rightarrow> (Inr (Inl e, dirs), x')
      | ((Inr _, dirs), x') \<Rightarrow> io_bind (on_sv (maybe_end_channel ch)) (\<lambda>_. io_return (Inr (), dirs)) x') = (q, x')"
    obtain r dirs x1 where i: "install_packages env sid ch cwd options 0 packages [] x = ((r, dirs), x1)"
      by (metis prod.collapse)
    have "part (snd x1) = part (snd x)" using part_install_packages [of env sid cwd options 0 packages "[]" x] by (simp add: i)
    moreover have "keeps (\<lambda>x. part (snd x)) (io_bind (on_sv (maybe_end_channel ch)) (\<lambda>_. io_return (Inr (), dirs)))"
      by (intro part_kept)
    ultimately show "part (snd x') = part (snd x)" using * i by (cases r) (auto dest: keepsD)
  qed
  then show ?thesis unfolding handle_server_app_install_def by (intro part_kept clean)
qed

section \<open>Commands\<close>

lemma keeps_read: "keeps part (io_read f)"
  by (simp add: keeps_def)

lemma keeps_ends: "keeps part (answer_end ch t)" "keeps part (try_end ch t)" "keeps part (fail_end ch e)" "keeps part (send_failed ch e)"
  unfolding answer_end_def try_end_def fail_end_def send_failed_def by (intro part_kept)+

lemma keeps_device_task:
  assumes "\<And>key sid. keeps (\<lambda>x. part (snd x)) (handler key sid)"
  shows "keeps (\<lambda>x. part (snd x)) (device_task key ch handler)"
  unfolding device_task_def [abs_def] by (intro keeps_at keeps_match keeps_sv keeps_ends keeps_basic assms)

lemma keeps_with_session:
  assumes "\<And>sid. keeps part (f sid)"
  shows "keeps part (with_session ch key f n)"
  unfolding with_session_def [abs_def] by (intro keeps_at keeps_bind keeps_ends keeps_basic assms)

lemma keeps_with_device:
  assumes "\<And>k. keeps part (f k)"
  shows "keeps part (with_device ch key f)"
  unfolding with_device_def [abs_def] by (intro keeps_at keeps_ends assms)

lemma keeps_jdwp: "keeps part (jdwp_track ch key params)" "keeps part (jdwp_list ch key)"
  unfolding jdwp_track_def jdwp_list_def by (intro keeps_with_session part_kept keeps_ends)+

lemma keeps_collect: "keeps (\<lambda>x. part (snd x)) (collect_daemon_response_then_close sid ch)"
proof -
  have "keeps (\<lambda>x. part (snd x)) (\<lambda>(evs, s). (Inr (), collect_loop ch evs s))"
    using part_collect by (auto simp: keeps_def)
  then show ?thesis unfolding collect_daemon_response_then_close_def by (intro part_kept)
qed

lemma keeps_daemon_command: "keeps (\<lambda>x. part (snd x)) (daemon_command cmd ch key params)"
  unfolding daemon_command_def [abs_def]
  by (intro keeps_at keeps_bind keeps_match keeps_case keeps_sv keeps_associate keeps_task keeps_ends keeps_collect keeps_basic)

lemma keeps_drop_forward: "keeps part (drop_forward key e)"
proof -
  have "keeps part (\<lambda>s. (Inr (), s\<lparr>sv_forward := f s, sv_aborted := g s\<rparr>))" for f g
  proof -
    have "part (s\<lparr>sv_forward := f s, sv_aborted := g s\<rparr>) = part s" for s
      using part_aborted [where s = "s\<lparr>sv_forward := f s\<rparr>" and a = "g s"] part_forward [where s = s and e = "f s"] by simp
    then show ?thesis by (simp add: keeps_def)
  qed
  then show ?thesis unfolding drop_forward_def by (intro keeps_rules keeps_ignore keeps_send)
qed

lemma keeps_drop_forwards: "keeps part (drop_forwards keys n)"
proof (induction keys arbitrary: n)
  case (Cons k keys)
  then show ?case by (auto intro!: keeps_bind keeps_drop_forward keeps_read split: option.split)
qed simp

lemma keeps_remove_entry: "keeps part (remove_forward_entry key spec)"
proof -
  have all: "keeps part (io_bind (drop_forwards ks 0) (\<lambda>n. io_return (t n)))" for ks t
    by (intro keeps_bind keeps_basic keeps_drop_forwards)
  have one: "keeps part (io_bind (drop_forward k e) (\<lambda>_. io_return t))" for k e t
    by (intro keeps_bind keeps_basic keeps_drop_forward)
  show ?thesis
    unfolding remove_forward_entry_def [abs_def]
    by (rule keeps_at(3), rule keepsI, erule keepsD [OF all], rule keeps_at(2), simp, unfold case_prod_beta, rule one)
qed

lemma keeps_forward_remove: "keeps part (forward_remove ch key params)"
  unfolding forward_remove_def by (intro keeps_match keeps_ends keeps_remove_entry)

lemma keeps_simple:
  "keeps part (target_list ch params)" "keeps part (check_server ch)" "keeps part (client_version ch)"
  "keeps part (spawn_sub ch params)" "keeps part (forward_list ch key)"
  unfolding target_list_def check_server_def client_version_def spawn_sub_def forward_list_def
  by (intro part_kept keeps_ends keeps_read)+

lemma keeps_check_device: "keeps part (check_device ch params key)"
  unfolding check_device_def
  by (intro keeps_with_device keepsI) (use keepsD [OF keeps_ends(1)] in blast)

end

section \<open>Channels of the other clients\<close>

text \<open>A part that does not depend on sessions and devices either.\<close>

locale channel_part = server_part part ch for part :: "server \<Rightarrow> 'p" and ch :: u32 +
  assumes part_connect: "part (s\<lparr>sv_connect := m\<rparr>) = part s"
    and keeps_session_send: "keeps part (tcp_session_send sid data)"
    and keeps_session_end: "keeps part (map_tcp (tcp_end_session sid))"
    and keeps_session_start: "keeps part (map_tcp (tcp_start_session sid wr))"
    and keeps_session_cipher: "keeps part (map_tcp (tcp_set_session_cipher sid c))"
    and keeps_keep_alive: "keeps part (map_tcp (tcp_set_keep_alive ch))"
begin

lemma keeps_give_up: "keeps part (give_up sid e)"
  unfolding give_up_def end_tcp_session_def by (intro keeps_rules keeps_session_end keeps_basic)

lemma keeps_auth_reaction: "keeps part (auth_reaction env sid hs dhs)"
  unfolding auth_reaction_def accept_psk_def or_give_up_def Let_def
  by (intro keeps_rules keeps_basic keeps_give_up keeps_fs keeps_session_send keeps_session_cipher)

lemma keeps_auth_rounds: "keeps (\<lambda>x. part (snd x)) (auth_rounds env tm sid hs k n)"
proof (induction n arbitrary: hs k)
  case (Suc n)
  have "keeps (\<lambda>x. part (snd x)) (on_rd m)" for m :: "(tcp_in, 'z) io"
    by (auto simp: keeps_def on_rd_def on_fst_def split: prod.splits)
  then show ?case
    unfolding auth_rounds.simps
    by (intro keeps_rules keeps_basic keeps_sv keeps_give_up keeps_auth_reaction Suc.IH)
qed simp

lemma part_start_session:
  assumes "start_tcp_daemon_session env tm sid conn addr s = Some (r, s')"
  shows "part s' = part s"
proof (cases "and_then (check_target_port addr) (\<lambda>_. conn)")
  case (Inl e)
  then show ?thesis using assms by (simp add: start_tcp_daemon_session_def)
next
  case (Inr c)
  obtain rd wr where c: "c = (rd, wr)" by (cases c)
  let ?s1 = "s\<lparr>sv_tcp := tcp_start_session sid wr (sv_tcp s)\<rparr>"
  have s1: "part ?s1 = part s" using keeps_session_start by (simp add: keeps_def)
  obtain info s2 where s2: "on_host_fs (get_public_key_info env) ?s1 = (info, s2)"
    by (cases "on_host_fs (get_public_key_info env) ?s1")
  let ?hs = "session_hello env sid addr info"
  obtain r3 s3 where s3: "tcp_session_send sid (concat_pack (host_handshake_msg ?hs)) s2 = (r3, s3)"
    by (cases "tcp_session_send sid (concat_pack (host_handshake_msg ?hs)) s2")
  obtain r4 rd4 s4 where s4: "auth_rounds env tm sid ?hs 1 MAX_AUTH_ATTEMPTS (rd, s3) = (r4, (rd4, s4))"
    by (metis prod.collapse)
  have p3: "part s3 = part s" using keepsD [OF keeps_fs s2] keepsD [OF keeps_session_send s3] s1 by simp
  then have p4: "part s4 = part s" using keepsD [OF keeps_auth_rounds s4] by simp
  have "give_up sid e s4 = (r, s') \<Longrightarrow> part s' = part s" for e
    using keepsD [OF keeps_give_up, of sid e s4 r s'] p4 by simp
  then show ?thesis
    using assms Inr c s2 s3 s4 p3 p4
    by (auto simp: start_tcp_daemon_session_def part_connect split: sum.splits option.splits)
qed

lemma part_target_connect: "part (snd (target_connect env ch params s)) = part s"
proof -
  have ends: "part (snd (no_tasks (answer_end ch t) s)) = part s"
    "part (snd (returned (io_bind (answer_end ch t) (\<lambda>_. io_return ts)) s)) = part s" for t ts s
    using keepsD [OF keeps_bind [OF keeps_ends(1) keeps_basic(1)]]
    by (auto simp: no_tasks_def returned_def split: prod.splits)
  show ?thesis
    by (auto simp: target_connect_def Let_def ends split: option.splits sum.splits dest: part_start_session)
qed

lemma part_wait_for_target: "part (snd (wait_for_target ch tables s)) = part s"
proof (induction tables arbitrary: s)
  have ends: "part (snd (no_tasks (answer_end ch t) s)) = part s" for t s
    using keepsD [OF keeps_bind [OF keeps_ends(1) keeps_basic(1)]]
    by (auto simp: no_tasks_def returned_def split: prod.splits)
  case Nil
  show ?case
    by (auto simp: wait_for_target.simps [of ch "[]"] ends split: list.splits prod.splits sum.splits dest: keepsD [OF keeps_line(1)])
next
  have ends: "part (snd (no_tasks (answer_end ch t) s)) = part s" for t s
    using keepsD [OF keeps_bind [OF keeps_ends(1) keeps_basic(1)]]
    by (auto simp: no_tasks_def returned_def split: prod.splits)
  case (Cons m tables)
  then show ?case
    by (auto simp: wait_for_target.simps [of ch "m # tables"] ends part_connect split: list.splits prod.splits sum.splits
        dest: keepsD [OF keeps_line(1)])
qed

lemma keeps_discover: "keeps part (target_discover env ch)"
proof -
  have "keeps part (\<lambda>s. case fst (discover_devices env) of
        Inl _ \<Rightarrow> (Inr 0, s)
      | Inr addrs \<Rightarrow> (case add_discovered addrs 0 (sv_connect s) of (count, m) \<Rightarrow> (Inr count, s\<lparr>sv_connect := m\<rparr>)))"
    by (auto simp: keeps_def part_connect split: sum.splits prod.splits)
  then show ?thesis unfolding target_discover_def by (intro keeps_bind keeps_ends)
qed

lemma keeps_reconnect: "keeps part (target_reconnect ch params key)"
proof -
  have "part (s\<lparr>sv_tcp := tcp_end_session sid (sv_tcp s), sv_connect := m\<rparr>) = part s" for sid m s
    using keeps_session_end [of sid] part_connect [where s = "s\<lparr>sv_tcp := tcp_end_session sid (sv_tcp s)\<rparr>"] by (simp add: keeps_def)
  then show ?thesis
    unfolding target_reconnect_def
    by (intro keeps_with_device keepsI) (auto split: option.splits dest: keepsD [OF keeps_ends(1)])
qed

text \<open>Every command of the client.\<close>

lemma part_no_tasks:
  "keeps (\<lambda>x. part (snd x)) m \<Longrightarrow> part (snd (snd (no_tasks m x))) = part (snd x)"
  "keeps (\<lambda>x. part (snd x)) k \<Longrightarrow> part (snd (snd (returned k x))) = part (snd x)"
  by (auto simp: no_tasks_def returned_def split: prod.splits dest: keepsD keepsD [OF keeps_bind [OF _ keeps_basic(1)]])

lemma part_dispatch: "part (snd (snd (server_dispatch_task env cmd key ch params x))) = part (snd x)"
proof -
  have tc: "part (snd (snd (case target_connect env ch params (snd x) of (r, s) \<Rightarrow> (r, (fst x, s))))) = part (snd x)"
    "part (snd (snd (case wait_for_target ch (de_tables env) (snd x) of (r, s) \<Rightarrow> (r, (fst x, s))))) = part (snd x)"
    using part_target_connect [of env params "snd x"] part_wait_for_target [of "de_tables env" "snd x"] by (auto split: prod.splits)
  have "part (snd (snd (no_tasks (device_task key ch h) x))) = part (snd x)"
    if "\<And>k sid. keeps (\<lambda>x. part (snd x)) (h k sid)" for h
    by (intro part_no_tasks keeps_device_task that)
  note dev = this [OF keeps_file_send] this [OF keeps_file_recv] this [OF keeps_app_install] this [OF keeps_forward]
    this [OF keeps_rport] this [OF part_keeps_flashd]
  show ?thesis
    unfolding server_dispatch_task_def
    by (intro if_split [where P = "\<lambda>y. part (snd (snd y)) = part (snd x)", THEN iffD2] conjI impI tc dev part_no_tasks keeps_sv
        keeps_simple keeps_discover keeps_check_device keeps_keep_alive keeps_reconnect keeps_forward_remove keeps_jdwp keeps_daemon_command)
qed

end

section \<open>The contract holds\<close>

text \<open>Everything that belongs to the channels of the other clients.\<close>

type_synonym channels_view = "(u32 \<Rightarrow> tcp_out option) \<times> (u32 \<times> u32) list \<times> u32 list \<times> (u32 \<times> tcp_out) list"

definition other_writers :: "u32 \<Rightarrow> tcp_map \<Rightarrow> channels_view" where
  "other_writers ch t =
    ((channel_writers t)(ch := None), filter (\<lambda>e. fst e \<noteq> ch) (channel_sessions t),
     filter (\<lambda>c. c \<noteq> ch) (keep_alive_channels t), filter (\<lambda>e. fst e \<noteq> ch) (closed_channels t))"

definition other_channels :: "u32 \<Rightarrow> server \<Rightarrow> channels_view" where
  "other_channels ch s = other_writers ch (sv_tcp s)"

lemma other_writers_send: "keeps (other_writers ch) (tcp_send_to_session A sid data)"
proof (rule keepsI)
  fix t r t' assume *: "tcp_send_to_session A sid data t = (r, t')"
  have w: "keeps (other_writers ch) (write_session i d)" for i d
    by (auto simp: keeps_def write_session_def other_writers_def split: option.splits prod.splits)
  have two: "keeps (other_writers ch) (io_bind (io_lift q) (\<lambda>ct. io_bind (write_session i (f ct)) (\<lambda>_. write_session i ct)))" for q i f
    by (intro keeps_bind keeps_basic w)
  show "other_writers ch t' = other_writers ch t"
  proof (cases "session_ciphers t sid")
    case None
    then show ?thesis using * keepsD [OF w] by (auto simp: tcp_send_to_session_def split: option.splits)
  next
    case (Some c)
    then show ?thesis
      using * by (auto simp: tcp_send_to_session_def other_writers_def [of ch "_\<lparr>session_ciphers := _\<rparr>"]
          split: option.splits prod.splits dest!: keepsD [OF two]) (simp_all add: other_writers_def)
  qed
qed

lemma channels_session_send: "keeps (other_channels ch) (tcp_session_send sid data)"
  by (auto simp: keeps_def other_channels_def tcp_session_send_def on_tcp_def split: prod.splits dest: keepsD [OF other_writers_send])

lemma channels_usb: "keeps (other_channels ch) (on_usb m)"
  by (auto simp: keeps_def on_usb_def other_channels_def split: prod.splits)

interpretation others: channel_part "other_channels ch" ch for ch
proof unfold_locales
  show "keeps (other_channels ch) (send_to_session sid data)" for sid data
    unfolding send_to_session_def by (intro keeps_match channels_session_send channels_usb keeps_basic)
  show "keeps (other_channels ch) (answer ch data)" for data
    by (auto simp: keeps_def answer_def on_tcp_def tcp_send_channel_message_def other_channels_def other_writers_def
        split: option.splits prod.splits)
  show "keeps (other_channels ch) (maybe_end_channel ch)"
    by (auto simp: keeps_def maybe_end_channel_def tcp_end_channel_def shut_channel_def other_channels_def other_writers_def
        removeAll_filter_not_eq intro!: filter_cong split: option.splits)
qed (intro channels_session_send | auto simp: keeps_def other_channels_def other_writers_def tcp_associate_channel_with_session_def
    hm_insert_def tcp_end_session_def tcp_start_session_def tcp_set_session_cipher_def tcp_set_keep_alive_def List.insert_def; fail)+

interpretation devices_kept: server_part sv_connect ch for ch
proof unfold_locales
  show "keeps sv_connect (send_to_session sid data)" for sid data
  proof -
    have "keeps sv_connect (tcp_session_send sid data)" "keeps sv_connect (on_usb m)" for m :: "(usb_map, unit) io"
      by (auto simp: keeps_def tcp_session_send_def on_tcp_def on_usb_def split: prod.splits)
    then show ?thesis unfolding send_to_session_def by (intro keeps_rules keeps_basic)
  qed
qed (auto simp: keeps_def answer_def on_tcp_def maybe_end_channel_def split: prod.splits)

end
