(* ===== verification/Spec2Isabelle.thy ===== *)
theory Spec2Isabelle
  imports Usb_Transport Client Host_Forward Server_Isolation
begin

text \<open>
  Verification of the HDC host tool and the HDC daemon: \<open>hdc\<close> (client and server in one program,
  \<open>src/hdc\<close>), \<open>hdcd\<close> (the daemon on the device, \<open>src/hdcd\<close>) and the protocol crate that both share
  (\<open>src/crates/hdc-protocol\<close>).

  \<^bold>\<open>The program.\<close> A user runs \<open>hdc\<close> with a command. The client (\<open>client.rs\<close>) connects to the server on
  the same machine, starting it if necessary, and exchanges length-prefixed channel messages with it.
  The server (\<open>server.rs\<close>) keeps a table of devices, a session with each device over TCP or USB, and
  tables of writers and queues; it serves some commands itself and forwards others to the daemon as
  task messages. The daemon serves every message by a handler: shell commands, files, applications,
  forwards. Task messages are packed with a header and a checked protection part; the session starts
  with a handshake that may end in a pre-shared key under which all later frames are encrypted.

  \<^bold>\<open>Conventions.\<close> Operations pass their state explicitly, as functions of type \<open>('s, 'a) io\<close> with results in
  \<open>io_result\<close> (\<open>Rust_Io\<close>); \<open>io_bind\<close> is \<open>?\<close>. Fixed-width integers are words, lengths are \<open>nat\<close>,
  strings are lists of UTF-8 bytes. A panic is an outer \<open>None\<close> or a value of its own. Packages outside
  the repository (AES-GCM, RSA, Base64, the zip reader) are record arguments; what a theorem needs of
  them is a named hypothesis (\<open>aead_correct\<close>, \<open>key_pair_works\<close>) with an instance in its witness. What
  the operating system decides is an argument too: the segments of a stream, the faults of a writer,
  the outcome of a process, a bind or a connect, random numbers. A task that waits for answers takes
  the list of what its queue gives it (\<open>rx_event\<close>); the end of the time it waits is such an event.
  Loops are total functions with termination proofs, on the bytes still to be read or on the events;
  there is no fuel. The rounds of the authentication are bounded by \<open>MAX_AUTH_ATTEMPTS\<close>, as in the code.

  \<^bold>\<open>Theories and sources.\<close>
  \<^item> \<open>Hdc_Prelude\<close>, \<open>Rust_Str\<close>, \<open>Rust_Text\<close>, \<open>Rust_Io\<close>, \<open>Rust_Map\<close>, \<open>Rust_Fs\<close>, \<open>Rust_Net\<close>, \<open>Rust_Float\<close>: the
    language and its library as far as the sources use them: integers and bytes, text and UTF-8,
    streams, hash maps, files and paths, socket addresses, double precision arithmetic.
  \<^item> \<open>Config\<close>, \<open>Varint\<close>, \<open>Serializer\<close>, \<open>Packet\<close>, \<open>Encrypt\<close>: \<open>config.rs\<close>, \<open>serializer.rs\<close> and \<open>encrypt.rs\<close> of the
    protocol crate. Lemmas: every writer is read back by its reader, every accepted packet has the
    shape of a packet, two ciphers of one key understand each other and repeat no nonce.
  \<^item> \<open>Tcp_Transport\<close>, \<open>Usb_Transport\<close>: \<open>transfer/tcp.rs\<close> of both programs and \<open>transfer/usb.rs\<close>, \<open>usb.rs\<close> of the
    host. Lemmas: what is framed is read back in every segmentation; short streams are errors.
  \<^item> \<open>Auth_Tlv\<close>, \<open>Host_Auth\<close>: the capability records of the handshake (both ends) and \<open>auth.rs\<close>.
  \<^item> \<open>Daemon_Core\<close>, \<open>Daemon_File\<close>, \<open>Daemon_App\<close>, \<open>Daemon_Forward\<close>, \<open>Daemon_Task\<close>, \<open>Daemon_Session\<close>: \<open>file.rs\<close>,
    \<open>app.rs\<close>, \<open>flashd.rs\<close>, \<open>forward.rs\<close>, \<open>task.rs\<close>, \<open>shell.rs\<close> and \<open>main.rs\<close> of the daemon. Lemmas: transfers
    store and send exactly the bytes, do not interfere, forwards deliver in order; a connection serves
    its messages as the specification \<open>serve_spec\<close> on the list of messages.
  \<^item> \<open>Cmd_Parser\<close>, \<open>Client\<close>: \<open>parser.rs\<close>, \<open>client.rs\<close>, \<open>main.rs\<close> of the host and the start and stop of the server.
  \<^item> \<open>Server_Maps\<close>, \<open>Server_Core\<close>, \<open>Server_Session\<close>: the tables of \<open>server.rs\<close>, the list of forwards, a session
    with a device over TCP.
  \<^item> \<open>Server_File\<close>, \<open>Server_App\<close>, \<open>Server_Flashd\<close>, \<open>Server_Forward\<close>: the tasks of \<open>server.rs\<close> that transfer files,
    install applications, flash images and forward ports.
  \<^item> \<open>Host_Daemon\<close>, \<open>Host_Forward\<close>: server and daemon of this repository together, each running on what the
    other sends.

  \<^bold>\<open>Interfaces.\<close> The locales \<open>tlv_struct\<close> (a tagged structure), \<open>codec\<close>, \<open>byte_source\<close> (reading an exact number
  of bytes), \<open>key_table\<close> (a table under keys), \<open>kept_part\<close> and \<open>inert_change\<close> (what an operation leaves
  alone), \<open>message_stream\<close> and \<open>frame_stream\<close> (messages over a transport) are interpreted on the model's
  definitions, and the properties rest on these interpretations.

  \<^bold>\<open>Properties.\<close> The claims C1, C2, ... below are stated on these definitions, each with an instance when
  it has hypotheses. Some of them prove a defect of the code, and say so.

  \<^bold>\<open>Not modelled.\<close> Logging; the set-up of terminals and the console of Windows; the enumeration of USB
  devices, the monitor of USB devices and the start of a USB session; the discovery of devices in the
  network; the dispatcher of client commands in the server and the protocol of DevEco clients; the
  accept loops, which only start the modelled tasks. Concurrency between tasks is modelled where tasks
  share state that a property depends on (the listener of reverse forwards, a step relation); elsewhere
  a task is a function of what it receives.
\<close>

section \<open>Example messages\<close>

text \<open>Two messages that the concrete instances below use.\<close>

definition echo_msg :: task_message where
  "echo_msg = \<lparr>tm_channel_id = 7, tm_command = KernelEcho, tm_payload = [1, 2, 3]\<rparr>"

definition init_msg :: task_message where
  "init_msg = \<lparr>tm_channel_id = 0, tm_command = FileInit, tm_payload = []\<rparr>"

definition example_handshake :: session_handshake where
  "example_handshake = \<lparr>hs_banner = ''OHOS HDC'', hs_auth_type = 4, hs_session_id = 300,
     hs_connect_key = ''1234'', hs_buf = [], hs_version = ''Ver: 3.2.0f''\<rparr>"

definition toy_aead :: aead where
  "toy_aead = \<lparr>aead_encrypt = \<lambda>k n p. Inr (p @ replicate 16 0),
     aead_decrypt = \<lambda>k n c. if length c < 16 then Inl ''Error'' else Inr (take (length c - 16) c)\<rparr>"

definition example_link :: link where
  "example_link = \<lparr>link_ciphers = [5 \<mapsto> psk_new (replicate 32 1) False],
     link_in = \<lparr>in_segs = [], in_end = Eof\<rparr>, link_out = \<lparr>out_bytes = [], out_faults = []\<rparr>\<rparr>"

definition example_fs :: fs where
  "example_fs = \<lparr>fs_files = [''/a'' \<mapsto> [5, 6, 7]], fs_handles = [], fs_deny = (\<lambda>_. None), fs_writes = [],
     fs_reads = [ReadMax 1]\<rparr>"

definition example_daemon :: daemon where
  "example_daemon = \<lparr>d_aead = toy_aead, d_link = example_link, d_tasks = Map.empty, d_fs = example_fs,
     d_procs = [ProcOutput (as_bytes ''ok'') [] True], d_runs = [],
     d_forward = \<lparr>fw_fport = [], fw_rport = Map.empty, fw_os = [], fw_calls = [],
       fw_spawned = [], fw_aborted = []\<rparr>\<rparr>"

lemma example_msgs_wf: "wf_task_message echo_msg" "wf_task_message init_msg"
  by (simp_all add: wf_task_message_def echo_msg_def init_msg_def HDC_BUF_MAX_SIZE_def)

lemma toy_aead_correct: "aead_correct toy_aead"
  by (simp add: aead_correct_def toy_aead_def TAG_LEN_def)

lemma example_daemon_ok:
  "link_up 1 example_daemon" "fs_deny (d_fs example_daemon) p = None" "fs_writes (d_fs example_daemon) = []"
  "fs_files (d_fs example_daemon) ''/a'' = Some [5, 6, 7]" "fs_reads (d_fs example_daemon) = [ReadMax 1]"
  by (simp_all add: example_daemon_def link_up_def example_link_def example_fs_def get_session_cipher_def)

section \<open>Wire format\<close>

text \<open>C1: Any list of task messages, packed one after the other, is read back message by message
  by the host's TCP receiver, in order, whatever segments the network delivers the stream in, and
  exactly the bytes of the packets are consumed.\<close>

theorem tcp_stream_of_messages:
  assumes "\<forall>m \<in> set msgs. wf_task_message m"
    and "[] \<notin> set segs" and "concat segs = concat (map concat_pack msgs) @ rest"
  shows "\<exists>s'. io_repeat (length msgs) host_unpack_task_message \<lparr>in_segs = segs, in_end = e\<rparr>
      = (Inr msgs, s') \<and> in_contents s' = rest"
proof -
  have "\<exists>s'. io_repeat (length msgs) host_unpack_task_message \<lparr>in_segs = segs, in_end = e\<rparr>
      = (Inr msgs, s') \<and> in_contents s' = rest \<and> in_ok s'"
    using assms host_unpack_message
    by (intro frame_source.repeat_messages [where enc = concat_pack])
      (auto simp: in_ok_def in_contents_def)
  then show ?thesis by blast
qed

theorem tcp_stream_of_messages_witness:
  "\<exists>s'. io_repeat 2 host_unpack_task_message
      \<lparr>in_segs = [take 5 (concat_pack echo_msg), drop 5 (concat_pack echo_msg) @ concat_pack init_msg @ [9]],
       in_end = Eof\<rparr>
    = (Inr [echo_msg, init_msg], s') \<and> in_contents s' = [9]"
proof -
  let ?segs = "[take 5 (concat_pack echo_msg), drop 5 (concat_pack echo_msg) @ concat_pack init_msg @ [9]]"
  have "0 < length (take 5 (concat_pack echo_msg))" by (simp add: length_concat_pack)
  then have "[] \<notin> set ?segs" by auto
  then show ?thesis
    using tcp_stream_of_messages [of "[echo_msg, init_msg]" ?segs "[9]" Eof] example_msgs_wf
    by (simp add: numeral_2_eq_2)
qed

text \<open>C25: Unpacking a packed task message gives the message back, for every channel, command and
  payload up to the protocol's size limit, and whatever bytes follow the packet in the buffer.\<close>

theorem packet_round_trip:
  assumes "length (tm_payload msg) + 14 \<le> HDC_BUF_MAX_SIZE"
  shows "unpack_task_message (concat_pack msg @ rest) = Inr msg"
  using unpack_concat_pack assms by (simp add: wf_task_message_def)

theorem packet_round_trip_witness:
  "unpack_task_message (concat_pack echo_msg @ [1, 2]) = Inr echo_msg"
  using packet_round_trip [of echo_msg "[1, 2]"] by (simp add: echo_msg_def HDC_BUF_MAX_SIZE_def)



text \<open>Every buffer that is not accepted is reported with an error of kind InvalidData.\<close>

lemma packet_rejected_invalid_data:
  "case unpack_task_message data of Inl e \<Rightarrow> err_kind e = InvalidData | Inr _ \<Rightarrow> True"
  using invalid_data_unpack [of data] by (simp add: invalid_data_def)

text \<open>C26: A session handshake whose strings are valid UTF-8 shorter than 4 GiB and whose
  authentication type is below 0x80 survives serialization and deserialization.\<close>

theorem handshake_round_trip:
  assumes "wf_session_handshake h"
  shows "deserialize_session_handshake (serialize_session_handshake h) = Inr h"
  using assms by (rule session_handshake_round_trip)

theorem handshake_round_trip_witness:
  "deserialize_session_handshake (serialize_session_handshake example_handshake)
    = Inr example_handshake"
proof -
  have "wf_session_handshake example_handshake"
    by (simp add: wf_session_handshake_def example_handshake_def wf_field_def wf_str_ascii is_ascii_def)
  then show ?thesis by (rule handshake_round_trip)
qed

text \<open>The three structures of a file transfer (configuration, mode, chunk header) survive
  serialization and deserialization.\<close>

lemma transfer_structs_round_trip:
  assumes "wf_transfer_config c" and "wf_file_mode m" and "wf_transfer_payload p"
  shows "deserialize_transfer_config (serialize_transfer_config c) = Inr c
    \<and> deserialize_file_mode (serialize_file_mode m) = Inr m
    \<and> deserialize_transfer_payload (serialize_transfer_payload p) = Inr p"
  using assms transfer_config_round_trip file_mode_round_trip transfer_payload_round_trip by blast

text \<open>The three fixed-size heads are read back from their serialization, whatever follows,
  and have the sizes that the readers expect.\<close>

lemma fixed_heads_round_trip:
  "deserialize_payload_head (serialize_payload_head ph @ rest) = Inr ph
    \<and> deserialize_usb_head (serialize_usb_head uh @ rest) = Inr uh
    \<and> deserialize_uart_head (serialize_uart_head ua @ rest) = Inr ua
    \<and> length (serialize_payload_head ph) = HEAD_SIZE
    \<and> length (serialize_usb_head uh) = USB_HEAD_SIZE
    \<and> length (serialize_uart_head ua) = 24"
  by (simp add: payload_head_round_trip usb_head_round_trip uart_head_round_trip HEAD_SIZE_def
      USB_HEAD_SIZE_def)

text \<open>The varint reader reads every 32-bit and 64-bit value back from its encoding, anywhere
  in a buffer, and an encoding has one to five, respectively one to ten, bytes.\<close>

lemma varint_round_trip:
  "read_varint_u32 (pre @ write_varint_u32 v @ post) (length pre)
      = Inr (v, length pre + length (write_varint_u32 v))
    \<and> read_varint_u64 (pre @ write_varint_u64 w @ post) (length pre)
      = Inr (w, length pre + length (write_varint_u64 w))
    \<and> length (write_varint_u32 v) \<in> {1..5} \<and> length (write_varint_u64 w) \<in> {1..10}"
  using read_varint_u32_write read_varint_u64_write length_write_varint_u32 length_write_varint_u64
  by blast

text \<open>The two conversions between commands and numbers are inverse to each other: the number
  of a command is recognised as that command, and a recognised number is the command's number.\<close>

lemma command_numbers_inverse:
  "hdc_command_try_from (as_u32 c) = Some c
    \<and> (case hdc_command_try_from n of None \<Rightarrow> n \<notin> range as_u32 | Some d \<Rightarrow> as_u32 d = n)"
  using as_u32_try_from by (auto split: option.splits)


section \<open>Transport\<close>

text \<open>A channel message written by one end with its length prefix is read back by both
  receivers of the other end, in any segmentation, and nothing after it is consumed.\<close>

lemma channel_message_round_trip:
  assumes "send_channel_message data w = (Inr u, w')" and "out_bytes w = []"
    and "length data < 2 ^ 32"
    and "[] \<notin> set segs" and "concat segs = out_bytes w' @ rest"
  shows "(\<exists>s'. recv_channel_message \<lparr>in_segs = segs, in_end = e\<rparr> = (Inr data, s')
       \<and> in_contents s' = rest)
    \<and> (\<exists>s'. server_recv_channel_message \<lparr>in_segs = segs, in_end = e\<rparr> = (Inr data, s')
       \<and> in_contents s' = rest)"
proof -
  have "concat segs = channel_frame data @ rest"
    using send_channel_message_ok [OF assms(1)] assms(2,5) by simp
  with recv_channel_frame [of "\<lparr>in_segs = segs, in_end = e\<rparr>" data rest] assms(3,4)
  show ?thesis by (auto simp: in_ok_def in_contents_def)
qed

text \<open>When the stream ends before a whole frame has arrived, the frame reader reports the end
  of the stream as an aborted connection and a read error with its text.\<close>

lemma short_stream_error:
  assumes "[] \<notin> set segs" and "length (concat segs) < n"
  shows "fst (read_frame n \<lparr>in_segs = segs, in_end = Eof\<rparr>)
      = Inl (Error ConnectionAborted ''peer shutdown'')
    \<and> fst (read_frame n \<lparr>in_segs = segs, in_end = ReadFailed m\<rparr>)
      = Inl (Error OtherKind (''read tcp failed: '' @ m))"
  using read_frame_short [of "\<lparr>in_segs = segs, in_end = Eof\<rparr>" n]
    read_frame_short [of "\<lparr>in_segs = segs, in_end = ReadFailed m\<rparr>" n] assms
  by (simp add: in_ok_def in_contents_def)

text \<open>C28: Two ciphers made from the same pre-shared key, one for each role, understand each other:
  every sequence of frames that one end encrypts is decrypted by the other to the same plaintexts
  in the same order.\<close>

theorem psk_conversation:
  assumes "aead_correct A" and "length psk = 32" and "\<forall>p \<in> set ps. length p < 2 ^ 32"
  shows "\<exists>fs a' b'. encrypt_all A (psk_new psk host) ps = (Inr fs, a')
    \<and> decrypt_all A (psk_new psk (\<not> host)) fs = (Inr ps, b')"
  using decrypt_encrypt_all [OF assms(1,3) psk_new_peers [OF assms(2)]] by blast

theorem psk_conversation_witness:
  "\<exists>fs a' b'. encrypt_all toy_aead (psk_new (replicate 32 1) True) [[1], [2, 3]] = (Inr fs, a')
    \<and> decrypt_all toy_aead (psk_new (replicate 32 1) False) fs = (Inr [[1], [2, 3]], b')"
  using psk_conversation [OF toy_aead_correct, of "replicate 32 1" "[[1], [2, 3]]" True] by simp



text \<open>C29: A frame that was decrypted once is decrypted again: the receive counter is recorded but
  not compared, so a replayed frame is accepted.\<close>

theorem psk_replay_accepted:
  assumes "psk_decrypt A c f = (Inr p, c')"
  shows "fst (psk_decrypt A c' f) = Inr p"
  using assms by (rule psk_decrypt_replay)

theorem psk_replay_accepted_witness:
  "\<exists>c'. psk_decrypt toy_aead (psk_new (replicate 32 1) True) (replicate 24 0) = (Inr [], c')
    \<and> fst (psk_decrypt toy_aead c' (replicate 24 0)) = Inr []"
proof -
  obtain c' where "psk_decrypt toy_aead (psk_new (replicate 32 1) True) (replicate 24 0) = (Inr [], c')"
    by (simp add: psk_decrypt_def psk_new_def aes_key_def KEY_LEN_def TAG_LEN_def toy_aead_def Let_def)
  then show ?thesis using psk_replay_accepted by blast
qed

text \<open>C14: A message that the daemon sends on a session with a cipher is received by the host that
  has the peer cipher, in any segmentation of the TCP stream.\<close>

theorem encrypted_link:
  assumes "aead_correct A" and "psk_peers cd ch" and "wf_task_message msg"
    and "get_session_cipher sid l = Some cd" and "out_bytes (link_out l) = []"
    and "daemon_send_message A sid msg l = (Inr u, l')"
    and "[] \<notin> set segs" and "concat segs = out_bytes (link_out l') @ rest"
  shows "\<exists>data i' ch'. recv_tcp_frame A (\<lparr>in_segs = segs, in_end = e\<rparr>, Some ch) = (Inr data, (i', Some ch'))
    \<and> unpack_task_message data = Inr msg \<and> in_contents i' = rest"
proof -
  obtain ct c' where ct: "psk_encrypt A cd (concat_pack msg) = (Inr ct, c')"
    "out_bytes (link_out l') = channel_frame ct"
    using daemon_send_encrypted [OF assms(4,6)] assms(5) by (metis append_Nil)
  have small: "length (concat_pack msg) < 2 ^ 31 + 11"
    using assms(3) packet_protect_length [of msg]
    by (simp add: length_concat_pack wf_task_message_def HDC_BUF_MAX_SIZE_def)
  then have "length (concat_pack msg) < 2 ^ 32" by simp
  from psk_frame [OF assms(1,2) this] obtain f where
    f: "psk_encrypt A cd (concat_pack msg) = (Inr f, cd\<lparr>send_counter := send_counter cd + 1\<rparr>)"
    "psk_decrypt A ch f = (Inr (concat_pack msg), ch\<lparr>recv_counter := send_counter cd + 1\<rparr>)"
    "length f = length (concat_pack msg) + 24"
    by metis
  with ct(1) have "ct = f" by simp
  moreover have "length f < 2 ^ 32" using f(3) small by simp
  ultimately show ?thesis
    using host_recv_encrypted [OF f(2), of "\<lparr>in_segs = segs, in_end = e\<rparr>" rest] ct(2) assms(7,8)
      packet_codec.round_trip [OF assms(3)]
    by (auto simp: in_ok_def in_contents_def)
qed

theorem encrypted_link_witness:
  "\<exists>l'. daemon_send_message toy_aead 5 init_msg example_link = (Inr (), l')
    \<and> (\<exists>data i' ch'. recv_tcp_frame toy_aead
          (\<lparr>in_segs = [out_bytes (link_out l')], in_end = Eof\<rparr>, Some (psk_new (replicate 32 1) True))
        = (Inr data, (i', Some ch')) \<and> unpack_task_message data = Inr init_msg \<and> in_contents i' = [])"
proof -
  have cipher: "get_session_cipher 5 example_link = Some (psk_new (replicate 32 1) False)"
    "out_bytes (link_out example_link) = []"
    by (simp_all add: get_session_cipher_def example_link_def)
  have peers: "psk_peers (psk_new (replicate 32 1) False) (psk_new (replicate 32 1) True)"
    using psk_new_peers [of "replicate 32 1" False] by simp
  obtain l' where l': "daemon_send_message toy_aead 5 init_msg example_link = (Inr (), l')"
    by (simp add: daemon_send_message_def get_session_cipher_def psk_encrypt_def aes_key_def toy_aead_def Let_def
        psk_new_def KEY_LEN_def io_bind_def on_out_def tcp_write_all_def example_link_def
        set_session_cipher_def)
  obtain ct where "out_bytes (link_out l') = channel_frame ct"
    using daemon_send_encrypted [OF cipher(1) l'] cipher(2) by (metis append_Nil)
  then have "out_bytes (link_out l') \<noteq> []"
    by (auto simp: channel_frame_def to_be_4)
  then show ?thesis
    using encrypted_link [OF toy_aead_correct peers example_msgs_wf(2) cipher l',
        of "[out_bytes (link_out l')]" "[]" Eof] l' by auto
qed



section \<open>Capabilities in the handshake\<close>

text \<open>C30: The records that one end builds are parsed back by the other: for any list of tag and value
  pairs with short plain tags and text values, the parser returns the map of the list, a later pair
  overriding an earlier one with the same tag.\<close>

theorem tlv_round_trip:
  assumes "\<forall>kv \<in> set kvs. wf_tlv kv"
  shows "parse_tlv (concat (map (\<lambda>(k, v). make_tlv k v) kvs)) = Some (map_of (rev kvs))"
  using assms by (rule parse_make_tlv)

theorem tlv_round_trip_witness:
  "parse_tlv (make_tlv ''devname'' ''a b'' @ make_tlv ''pubkey'' ''k'')
    = Some [''devname'' \<mapsto> ''a b'', ''pubkey'' \<mapsto> ''k'']"
proof -
  have "wf_tlv (''devname'', ''a b'')" "wf_tlv (''pubkey'', ''k'')"
    by (rule tags_wf; simp add: wf_str_ascii is_ascii_def)+
  then show ?thesis
    using tlv_round_trip [of "[(''devname'', ''a b''), (''pubkey'', ''k'')]"] by (simp add: fun_upd_twist)
qed

text \<open>The host's parser and the daemon's parser of the records, which differ in how they step
  through the text, give the same result on every text, panics included.\<close>

lemma tlv_parsers_agree: "daemon_parse_tlv text = parse_tlv text"
  by (simp add: daemon_parse_tlv_def parse_tlv_def daemon_parse_tlv_loop_eq)

text \<open>C31: The capabilities that the host announces arrive at the daemon: the daemon sees encryption
  support exactly when the host's environment asks for it, and it finds exactly the public key that
  the host could read.\<close>

theorem capability_exchange:
  assumes "case info of Inl _ \<Rightarrow> True | Inr i \<Rightarrow> wf_str i \<and> length i < 10 ^ 16"
  shows "host_supports_encrypt (build_host_auth_buf info e) = Some (e = Some ''1'')
    \<and> extract_host_pubkey (build_host_auth_buf info e) = Some (res_ok info)"
  using host_supports_encrypt_iff [OF assms] extract_host_pubkey_eq [OF assms] by blast

theorem capability_exchange_witness:
  "host_supports_encrypt (build_host_auth_buf (Inr ''key'') (Some ''1'')) = Some True
    \<and> extract_host_pubkey (build_host_auth_buf (Inr ''key'') (Some ''1'')) = Some (Some ''key'')"
  using capability_exchange [of "Inr ''key''" "Some ''1''"] by (simp add: wf_str_ascii is_ascii_def)


section \<open>File transfer and installation on the daemon\<close>

text \<open>C6: A complete upload stores exactly the bytes that were sent: after the opening messages, any
  number of data messages and the finish message, the target file of the transfer configuration is
  the concatenation of the data, every other file and every other transfer is as before, the
  transfer is forgotten, and the daemon has answered with its check, its begin and the close of the
  channel.\<close>

theorem file_upload_complete:
  assumes "link_up sid d" and "parse_file_paths p0 = Some (local, remote)"
    and "deserialize_transfer_config p1 = Inr cfg"
    and "fs_deny (d_fs d) (tc_path cfg) = None" and "fs_writes (d_fs d) = []"
  shows "\<exists>d'. file_tasks sid ([file_msg ch FileInit p0, file_msg ch FileCheck p1, file_msg ch FileBegin p2]
        @ map (file_msg ch FileData) chunks @ [file_msg ch FileFinish p3]) d = (Inr (), d')
    \<and> fs_files (d_fs d') = (fs_files (d_fs d))(tc_path cfg \<mapsto> concat chunks)
    \<and> d_tasks d' = (d_tasks d)((sid, ch) := None)
    \<and> sent_bytes d' = sent_bytes d
        @ concat (map concat_pack (upload_replies ch remote @ [close_msg ch]))"
  using assms by (rule upload_complete)

lemma example_paths:
  "parse_file_paths (as_bytes ''file send /a /b'') = Some (''/a'', ''/b'')"
  by code_simp

lemma example_config: "wf_transfer_config (transfer_config_default\<lparr>tc_path := ''/b''\<rparr>)"
  by (simp add: wf_transfer_config_def transfer_config_default_def wf_field_def wf_str_ascii is_ascii_def)

theorem file_upload_complete_witness:
  "\<exists>d'. file_tasks 1 ([file_msg 2 FileInit (as_bytes ''file send /a /b''),
          file_msg 2 FileCheck (serialize_transfer_config (transfer_config_default\<lparr>tc_path := ''/b''\<rparr>)),
          file_msg 2 FileBegin []] @ map (file_msg 2 FileData) [[1, 2], [], [3]]
        @ [file_msg 2 FileFinish []]) example_daemon = (Inr (), d')
    \<and> fs_files (d_fs d') = [''/a'' \<mapsto> [5, 6, 7], ''/b'' \<mapsto> [1, 2, 3]]"
proof -
  let ?c = "transfer_config_default\<lparr>tc_path := ''/b''\<rparr>"
  have "fs_files (d_fs example_daemon) = [''/a'' \<mapsto> [5, 6, 7]]"
    by (simp add: example_daemon_def example_fs_def)
  then show ?thesis
    using file_upload_complete [OF example_daemon_ok(1) example_paths transfer_config_round_trip [OF example_config]
        example_daemon_ok(2,3), of 2 "[]" "[[1, 2], [], [3]]" "[]"]
    by force
qed



text \<open>C12: An installation hands exactly the received package to the package manager: after the opening
  messages, the data and the finish message, the file in the temporary directory has the concatenated
  data as contents, the install command was run on that path and its report, then the close of the
  channel, was sent.\<close>

theorem app_install_complete:
  assumes "link_up sid d" and "parse_app_path p0 = Some path"
    and "fs_deny (d_fs d) (app_tmp_path path) = None" and "fs_writes (d_fs d) = []"
    and "d_procs d = r # rs"
  shows "\<exists>d'. app_tasks sid ([file_msg ch AppInit p0, file_msg ch AppBegin p1]
        @ map (file_msg ch AppData) chunks @ [file_msg ch AppFinish p2]) d = (Inr (), d')
    \<and> fs_files (d_fs d') = (fs_files (d_fs d))(app_tmp_path path \<mapsto> concat chunks)
    \<and> d_runs d' = d_runs d @ [(''bm'', [''install'', ''-p'', app_tmp_path path])]
    \<and> d_tasks d' = (d_tasks d)((sid, ch) := None)
    \<and> sent_bytes d' = sent_bytes d @ concat (map concat_pack
        (file_msg ch AppCheck (as_bytes (app_tmp_path path))
         # command_report ch ''Install failed'' ''Install command failed: '' r @ [close_msg ch]))"
  using assms by (rule install_complete)

theorem app_install_complete_witness:
  "\<exists>d'. app_tasks 1 ([file_msg 2 AppInit (as_bytes ''install /x/a.hap''), file_msg 2 AppBegin []]
        @ map (file_msg 2 AppData) [[1], [2]] @ [file_msg 2 AppFinish []]) example_daemon = (Inr (), d')
    \<and> fs_files (d_fs d') ''/data/local/tmp/a.hap'' = Some [1, 2]"
proof -
  have path: "parse_app_path (as_bytes ''install /x/a.hap'') = Some ''/x/a.hap''"
    "app_tmp_path ''/x/a.hap'' = ''/data/local/tmp/a.hap''"
    by code_simp+
  have procs: "d_procs example_daemon = [ProcOutput (as_bytes ''ok'') [] True]"
    by (simp add: example_daemon_def)
  show ?thesis
    using app_install_complete [OF example_daemon_ok(1) path(1) example_daemon_ok(2,3) procs,
        of 2 "[]" "[[1], [2]]" "[]"] path(2)
    by auto
qed

text \<open>C33: Whatever path the host names for an installation, the daemon's target is a file directly in
  its temporary directory: the name has no separator and is neither empty nor a dot entry.\<close>

theorem app_target_confined:
  "\<exists>n. app_tmp_path p = INSTALL_TMP_DIR @ n \<and> n \<noteq> [] \<and> CHR ''/'' \<notin> set n \<and> n \<noteq> ''.'' \<and> n \<noteq> ''..''"
  by (rule app_tmp_path_safe)

text \<open>C20: Transfers do not interfere: a file or installation message of one session and channel leaves
  the entry of every other session or channel alone, whatever the message is and however it ends.\<close>

theorem task_isolation:
  assumes "k \<noteq> (sid, tm_channel_id msg)"
  shows "d_tasks (snd (handle_file_task msg sid d)) k = d_tasks d k
    \<and> d_tasks (snd (handle_app_task msg sid d)) k = d_tasks d k"
  using keeps_handle_file_task [OF assms] keeps_handle_app_task [OF assms] by (simp add: keeps_def)

theorem task_isolation_witness:
  "d_tasks (snd (handle_file_task init_msg 1 example_daemon)) (1, 9) = None"
  using task_isolation [of "(1, 9)" 1 init_msg example_daemon] by (simp add: init_msg_def example_daemon_def)

section \<open>Connections of the daemon\<close>

definition example_env :: session_env where
  "example_env = \<lparr>se_encrypt_channel = None, se_hostname = None, se_computername = None, se_daemon_port = None,
     se_random_id = 1, se_psk = replicate 32 9,
     se_rsa = \<lparr>rsa_public_key = (\<lambda>s. Inr (as_bytes s)), rsa_encrypt = (\<lambda>k m. Inr m), base64_encode = (\<lambda>b. ''AAAA'')\<rparr>,
     se_ack_in_time = True\<rparr>"

definition example_shell :: task_message where
  "example_shell = \<lparr>tm_channel_id = 3, tm_command = ShellInit, tm_payload = []\<rparr>"

definition with_input :: "bytes \<Rightarrow> daemon \<Rightarrow> daemon" where
  "with_input b d = d\<lparr>d_link := (d_link d)\<lparr>link_in := \<lparr>in_segs = [b], in_end = Eof\<rparr>\<rparr>\<rparr>"

lemma with_input_simps [simp]:
  "d_in (with_input b d) = \<lparr>in_segs = [b], in_end = Eof\<rparr>" "cipher_keys k (with_input b d) = cipher_keys k d"
  "link_up sid (with_input b d) = link_up sid d" "d_aead (with_input b d) = d_aead d"
  by (simp_all add: with_input_def d_in_def cipher_keys_def)

lemma example_daemon_session:
  "link_up 300 example_daemon" "cipher_keys 0 example_daemon = None" "cipher_keys 300 example_daemon = None"
  "d_aead example_daemon = toy_aead"
  by (simp_all add: example_daemon_def link_up_def example_link_def get_session_cipher_def cipher_keys_def)

lemma small_handshake:
  assumes "list_all (\<lambda>s. is_ascii s \<and> length s < 500) [hs_banner h, hs_connect_key h, hs_buf h, hs_version h]" "hs_auth_type h < 0x80"
  shows "wf_session_handshake h" "wf_task_message (handshake_msg ch h)"
  using assms length_serialize_session_handshake [of h]
  by (auto simp: wf_session_handshake_def wf_field_def wf_str_ascii wf_task_message_def HDC_BUF_MAX_SIZE_def)

lemma example_handshake_wf:
  "wf_session_handshake example_handshake" "wf_task_message (handshake_msg 7 example_handshake)"
  "wf_task_message example_shell" "hs_session_id example_handshake = 300"
proof -
  show "wf_session_handshake example_handshake" "wf_task_message (handshake_msg 7 example_handshake)"
    by (intro small_handshake; simp add: example_handshake_def is_ascii_def)+
qed (simp_all add: example_handshake_def wf_task_message_def HDC_BUF_MAX_SIZE_def example_shell_def)

lemma concat_pack_nonempty: "concat_pack m @ bs \<noteq> []"
  using length_concat_pack [of m] by (cases "concat_pack m") (simp_all add: HEAD_SIZE_def)



text \<open>C2: A connection with encryption: the first message and the response with the encrypted key travel in
  the clear, the acknowledgement and every later message under the key, and the messages are served as
  on a connection in the clear.\<close>

theorem encrypted_connection_served:
  assumes "se_encrypt_channel env = Some ''1''" and "se_ack_in_time env" and "length (se_psk env) = 32"
    and "wf_session_handshake hs" and "hs_buf hs = build_host_auth_buf (Inr info) (Some ''1'')"
    and "wf_str info" and "length info < 10 ^ 16"
    and "encrypt_psk_with_pubkey (se_rsa env) info (se_psk env) = Inr epsk"
    and "cipher_keys 0 d = None" and "link_up (hs_session_id hs) d" and "aead_correct (d_aead d)"
    and "wf_task_message (handshake_msg ch hs)" and "wf_task_message ack" and "\<forall>m \<in> set ms. wf_task_message m"
    and "tm_command ack = KernelHandshake"
    and "encrypt_all (d_aead d) (psk_new (se_psk env) True) (map concat_pack (ack # ms)) = (Inr fs, h')"
    and "in_ok (d_in d)"
    and "in_contents (d_in d) = concat_pack (handshake_msg ch hs) @ concat (map channel_frame fs)"
    and "serve_spec (hs_session_id hs) ms (set_cipher (hs_session_id hs) (psk_new (se_psk env) False)
      (after_sends [handshake_msg ch (psk_response env hs epsk)] d)) = (e, d')"
  shows "\<exists>i n. handle_client env d
    = Some (Inr e, end_session (hs_session_id hs) e (set_recv (hs_session_id hs) i n d'))"
  using assms by (rule encrypted_session)

definition example_secure_handshake :: session_handshake where
  "example_secure_handshake = example_handshake\<lparr>hs_buf := build_host_auth_buf (Inr ''key'') (Some ''1'')\<rparr>"

definition example_secure_env :: session_env where
  "example_secure_env = example_env\<lparr>se_encrypt_channel := Some ''1''\<rparr>"

lemma example_secure_handshake_wf:
  "wf_session_handshake example_secure_handshake" "wf_task_message (handshake_msg 7 example_secure_handshake)"
  "hs_session_id example_secure_handshake = 300"
proof -
  have "is_ascii (hs_buf example_secure_handshake)" "length (hs_buf example_secure_handshake) < 500" by code_simp+
  then show "wf_session_handshake example_secure_handshake" "wf_task_message (handshake_msg 7 example_secure_handshake)"
    by (intro small_handshake; simp add: example_secure_handshake_def example_handshake_def is_ascii_def)+
qed (simp add: example_secure_handshake_def example_handshake_def)

theorem encrypted_connection_served_witness:
  "\<exists>b d'. handle_client example_secure_env (with_input b example_daemon) = Some (Inr (ShellBridge 3), d')"
proof -
  let ?ack = "init_msg\<lparr>tm_command := KernelHandshake\<rparr>" and ?hs = "example_secure_handshake"
  have ack: "wf_task_message ?ack" by (simp add: init_msg_def wf_task_message_def HDC_BUF_MAX_SIZE_def)
  obtain fs h' where fs: "encrypt_all toy_aead (psk_new (replicate 32 9) True) (map concat_pack [?ack, example_shell])
    = (Inr fs, h')"
    using decrypt_encrypt_all [OF toy_aead_correct _ psk_new_peers, of "map concat_pack [?ack, example_shell]" "replicate 32 9" True]
      length_wf_packet [OF example_handshake_wf(3)] length_wf_packet [OF ack] by auto
  let ?b = "concat_pack (handshake_msg 7 ?hs) @ concat (map channel_frame fs)"
  have spec: "serve_spec 300 [example_shell] d = (ShellBridge 3, d)" for d
    by (simp add: example_shell_def)
  have "encrypt_psk_with_pubkey (se_rsa example_secure_env) ''key'' (se_psk example_secure_env) = Inr (replicate 32 9)"
    by code_simp
  moreover have "wf_str ''key''" by (simp add: wf_str_ascii is_ascii_def)
  ultimately have "\<exists>d'. handle_client example_secure_env (with_input ?b example_daemon) = Some (Inr (ShellBridge 3), d')"
    using encrypted_connection_served [of example_secure_env ?hs "''key''" _ "with_input ?b example_daemon" 7 ?ack "[example_shell]" fs h']
      example_daemon_session example_secure_handshake_wf example_handshake_wf(3) fs toy_aead_correct concat_pack_nonempty ack
    by (fastforce simp: spec example_secure_env_def example_env_def in_ok_def in_contents_def example_secure_handshake_def
        simp del: serve_spec.simps)
  then show ?thesis by blast
qed

text \<open>C34: A host that announces encryption but could not read its key file gets the plain response, and
  the daemon still waits for the acknowledgement of a key: the first command that follows ends the
  connection with an error.\<close>

theorem keyless_host_refused:
  assumes "se_encrypt_channel env = Some ''1''" and "se_ack_in_time env"
    and "wf_session_handshake hs" and "hs_buf hs = build_host_auth_buf (Inl err) (Some ''1'')"
    and "cipher_keys 0 d = None" and "cipher_keys (hs_session_id hs) d = None" and "link_up (hs_session_id hs) d"
    and "wf_task_message (handshake_msg ch hs)" and "wf_task_message m" and "tm_command m \<noteq> KernelHandshake"
    and "in_ok (d_in d)" and "in_contents (d_in d) = concat_pack (handshake_msg ch hs) @ concat_pack m @ rest"
  shows "\<exists>d'. handle_client env d = Some (Inl (Error InvalidData ''PSK-ACK expected''), d')"
  using assms by (rule encryption_without_key)

definition example_keyless_handshake :: session_handshake where
  "example_keyless_handshake
    = example_handshake\<lparr>hs_buf := build_host_auth_buf (Inl (Error NotFound ''no key'')) (Some ''1'')\<rparr>"

theorem keyless_host_refused_witness:
  "\<exists>d'. handle_client example_secure_env
      (with_input (concat_pack (handshake_msg 7 example_keyless_handshake) @ concat_pack echo_msg) example_daemon)
    = Some (Inl (Error InvalidData ''PSK-ACK expected''), d')"
proof -
  let ?hs = "example_keyless_handshake"
  have "is_ascii (hs_buf ?hs)" "length (hs_buf ?hs) < 500" by code_simp+
  then have len: "wf_task_message (handshake_msg 7 ?hs)" and wf: "wf_session_handshake ?hs"
    by (intro small_handshake; simp add: example_keyless_handshake_def example_handshake_def is_ascii_def)+
  have env: "se_encrypt_channel example_secure_env = Some ''1''" "se_ack_in_time example_secure_env"
    by (simp_all add: example_secure_env_def example_env_def)
  have hs: "hs_buf ?hs = build_host_auth_buf (Inl (Error NotFound ''no key'')) (Some ''1'')" "hs_session_id ?hs = 300"
    by (simp_all add: example_keyless_handshake_def example_handshake_def)
  show ?thesis
    by (rule keyless_host_refused [OF env wf hs(1), where m = echo_msg and rest = "[]"])
      (use example_daemon_session hs(2) len example_msgs_wf(1) concat_pack_nonempty
        in \<open>auto simp: in_ok_def in_contents_def echo_msg_def\<close>)
qed



section \<open>Port forwarding of the daemon\<close>

text \<open>C17: A forward to a TCP port delivers the data: when the port accepts the connection, the host gets the
  activation of its connection number, the data messages that follow are queued for that connection
  alone, and the writer passes exactly their concatenation, in order, to the socket.\<close>

theorem forward_delivers:
  assumes "port \<le> 65535" and "link_up sid d" and "fw_rport (d_forward d) ch = None" and "fw_os (d_forward d) = []"
    and "out_faults wr = []"
  shows "\<exists>w' conn. forward_tasks sid (active_slave_msg ch fid (tcp_spec port) # map (forward_data_msg ch fid) datas) d
      = (Inr (), after_sends [active_master_msg ch fid (tcp_spec port)] (d\<lparr>d_forward := w'\<rparr>))
    \<and> map_of (fw_fport w') fid = Some conn \<and> fc_channel_id conn = ch
    \<and> out_bytes (drain_queue (fc_sent conn) wr) = out_bytes wr @ concat datas
    \<and> (\<forall>k. k \<noteq> fid \<longrightarrow> map_of (fw_fport w') k = map_of (fw_fport (d_forward d)) k)"
  using forward_session [OF assms(1-4), of fid datas] drain_queue_all [OF assms(5)] by fastforce

theorem forward_delivers_witness:
  "\<exists>w'. forward_tasks 1 (active_slave_msg 2 9 (tcp_spec 80) # map (forward_data_msg 2 9) [[1], [2, 3]]) example_daemon
      = (Inr (), after_sends [active_master_msg 2 9 (tcp_spec 80)] (example_daemon\<lparr>d_forward := w'\<rparr>))"
  using forward_delivers [of 80 1 example_daemon 2 "\<lparr>out_bytes = [], out_faults = []\<rparr>" 9 "[[1], [2, 3]]"] example_daemon_ok(1)
  by (auto simp: example_daemon_def)



text \<open>C5: A reverse-forward listener keeps its connections apart: after any interleaving of host messages,
  accepted and finished connections and ends of the loop, what a connection has in its queue is what
  the events naming it, and the end of the listener, put there in order; and the table of the listener
  has one entry per accepted connection.\<close>

theorem reverse_connections_apart:
  assumes "rport_steps rport_loop_start evs s"
  shows "conn_view_of c s = fold (view_event c) evs Absent \<and> rport_inv s"
  using rport_conn_refinement [OF assms, of c] rport_reachable_inv [OF assms]
  by (simp add: conn_view_of_def rport_loop_start_def)

theorem reverse_connections_apart_witness:
  "\<exists>s. rport_steps rport_loop_start [Accepted 5, HostMsg (RportData 5 [1]), HostMsg (RportData 6 [2])] s
    \<and> conn_view_of 5 s = Open [ConnData [1]]"
proof -
  let ?s1 = "rport_accept 5 rport_loop_start"
  let ?s2 = "rport_dispatch (RportData 5 [1]) ?s1"
  have s1: "rport_steps rport_loop_start ([] @ [Accepted 5]) ?s1"
    by (rule rport_steps.snoc [OF rport_steps.none rport_step.accepted]) (simp add: rport_loop_start_def)
  have s2: "rport_steps rport_loop_start (([] @ [Accepted 5]) @ [HostMsg (RportData 5 [1])]) ?s2"
    by (rule rport_steps.snoc [OF s1 rport_step.host_msg])
      (simp add: rport_loop_start_def rport_accept_def rport_drop_def)
  have s3: "rport_steps rport_loop_start ((([] @ [Accepted 5]) @ [HostMsg (RportData 5 [1])]) @ [HostMsg (RportData 6 [2])])
      (rport_dispatch (RportData 6 [2]) ?s2)"
    by (rule rport_steps.snoc [OF s2 rport_step.host_msg])
      (simp add: rport_loop_start_def rport_accept_def rport_drop_def rport_dispatch_def rport_push_def)
  from reverse_connections_apart [OF s3, of 5]
  have "conn_view_of 5 (rport_dispatch (RportData 6 [2]) ?s2) = Open [ConnData [1]]"
    by (simp add: view_event_def view_add_def)
  with s3 show ?thesis by auto
qed

text \<open>C35: Closing a channel removes exactly the forwards of that channel, of both directions, answers whether
  there were any, and leaves transfers and the connection to the host alone.\<close>

theorem channel_close_removes_own:
  assumes "hm_ok (fw_fport (d_forward d))" and "handle_channel_close ch d = (r, d')"
  shows "map_of (fw_fport (d_forward d')) k
      = (case map_of (fw_fport (d_forward d)) k of
           None \<Rightarrow> None | Some c \<Rightarrow> if fc_channel_id c = ch then None else Some c)
    \<and> fw_rport (d_forward d') = (fw_rport (d_forward d))(ch := None)
    \<and> r = Inr (fw_rport (d_forward d) ch \<noteq> None
        \<or> (\<exists>(k, c) \<in> set (fw_fport (d_forward d)). fc_channel_id c = ch))
    \<and> d_tasks d' = d_tasks d \<and> d_link d' = d_link d"
  using channel_close_exact [OF assms] by blast

theorem channel_close_removes_own_witness:
  "\<exists>r d'. handle_channel_close 2 (example_daemon\<lparr>d_forward := (d_forward example_daemon)\<lparr>fw_fport :=
        [(8, \<lparr>fc_channel_id = 2, fc_sent = []\<rparr>), (9, \<lparr>fc_channel_id = 3, fc_sent = []\<rparr>)]\<rparr>\<rparr>) = (r, d')
    \<and> map_of (fw_fport (d_forward d')) 8 = None
    \<and> map_of (fw_fport (d_forward d')) 9 = Some \<lparr>fc_channel_id = 3, fc_sent = []\<rparr>"
proof -
  let ?d = "example_daemon\<lparr>d_forward := (d_forward example_daemon)\<lparr>fw_fport :=
        [(8, \<lparr>fc_channel_id = 2, fc_sent = []\<rparr>), (9, \<lparr>fc_channel_id = 3, fc_sent = []\<rparr>)]\<rparr>\<rparr>"
  obtain r d' where run: "handle_channel_close 2 ?d = (r, d')" by (cases "handle_channel_close 2 ?d")
  have "hm_ok (fw_fport (d_forward ?d))" by (simp add: hm_ok_def)
  from channel_close_removes_own [OF this run] show ?thesis using run by auto
qed

section \<open>Transfers of the host server\<close>

definition example_server :: server where
  "example_server = \<lparr>sv_aead = toy_aead, sv_connect = [],
     sv_tcp = \<lparr>session_writers = [1 \<mapsto> \<lparr>out_bytes = [], out_faults = []\<rparr>], session_ciphers = Map.empty,
       channel_writers = [9 \<mapsto> \<lparr>out_bytes = [], out_faults = []\<rparr>], channel_sessions = [], keep_alive_channels = [],
       closed_channels = []\<rparr>,
     sv_usb = \<lparr>session_senders = Map.empty, response_channels = []\<rparr>, sv_forward = [], sv_fs = example_fs, sv_aborted = []\<rparr>"

lemma example_server_ok:
  "host_up 1 example_server" "channel_up 9 example_server" "fs_deny (sv_fs example_server) p = None"
  "fs_files (sv_fs example_server) ''/a'' = Some [5, 6, 7]" "fs_writes (sv_fs example_server) = []"
  "\<forall>m. ReadError m \<notin> set (fs_reads (sv_fs example_server))" "session_out 1 example_server = []"
  "session_senders (sv_usb example_server) 1 = None"
  by (simp_all add: example_server_def host_up_def session_up_def channel_up_def example_fs_def session_out_def)

lemma example_file_paths:
  "resolve_file_paths [''file'', ''send'', ''/a'', ''/b''] = Inr (''/a'', ''/b'')"
  "resolve_file_paths [''file'', ''recv'', ''/b'', ''/c''] = Inr (''/b'', ''/c'')"
  by code_simp+





definition example_app_env :: app_env where
  "example_app_env = \<lparr>ae_temp_dir = ''/tmp'', ae_random = (\<lambda>_. 3),
     ae_zip = (\<lambda>_. Inr [Inr \<lparr>ze_name = ''x/../../e.hap'', ze_data = [1], ze_error = None\<rparr>])\<rparr>"

text \<open>C23: Whatever names the entries of a package have, its extraction changes only files directly in the
  directory it was given, and every application it returns is directly in that directory.\<close>

theorem extraction_confined:
  assumes "extract_haps_from_app env app dir f = (r, f')"
  shows "(fs_files f' p \<noteq> fs_files f p \<longrightarrow> directly_in dir p) \<and> (\<forall>hs. r = Inr hs \<longrightarrow> (\<forall>h \<in> set hs. directly_in dir h))"
  using extract_confined [OF assms] by blast

theorem extraction_confined_witness:
  "\<exists>f'. extract_haps_from_app example_app_env ''/a'' ''/t'' example_fs = (Inr [''/t/e.hap''], f') \<and> directly_in ''/t'' ''/t/e.hap''"
proof -
  have "suffix ''.hap'' (to_ascii_lowercase ''x/../../e.hap'')" "path_file_name ''x/../../e.hap'' = Some ''e.hap''"
    "path_join ''/t'' ''e.hap'' = ''/t/e.hap''"
    by code_simp+
  then have "fst (extract_haps_from_app example_app_env ''/a'' ''/t'' example_fs) = Inr [''/t/e.hap'']"
    by (simp add: extract_haps_from_app_def file_open_def example_app_env_def example_fs_def io_bind_def copy_entry_def
        io_match_def file_create_def file_write_all_def file_put_def io_return_def Let_def)
  then obtain f' where f': "extract_haps_from_app example_app_env ''/a'' ''/t'' example_fs = (Inr [''/t/e.hap''], f')"
    by (metis prod.collapse)
  then have "directly_in ''/t'' ''/t/e.hap''" using extraction_confined [OF f'] by simp
  then show ?thesis using f' by blast
qed

section \<open>Host and daemon together\<close>

definition example_host_env :: host_env where
  "example_host_env = \<lparr>he_home = Some ''/h'', he_userprofile = None, he_gethostname = None, he_encrypt_channel = Some ''1'',
     he_heartbeat = None,
     he_rsa = \<lparr>rsa_generate = Inl [], rsa_public_of = (\<lambda>k. k), to_pkcs1_pem = (\<lambda>_. Inl []), from_pkcs1_pem = (\<lambda>_. Inr [1]),
       from_pkcs8_pem = (\<lambda>_. Inl []), to_public_key_pem = (\<lambda>_. Inr ''key''), from_public_key_pem = (\<lambda>_. Inr [2]),
       rsa_sign_pss = (\<lambda>_ m. m), rsa_decrypt_oaep = (\<lambda>_ m. Inr m), b64_encode = (\<lambda>_. ''AAAA''),
       b64_decode = (\<lambda>_. Inr (replicate 32 9))\<rparr>\<rparr>"

definition example_key_server :: server where
  "example_key_server = example_server\<lparr>sv_fs := example_fs\<lparr>fs_files := (\<lambda>_. Some (as_bytes ''key''))\<rparr>\<rparr>"

definition example_hello :: session_handshake where
  "example_hello = session_hello example_host_env 300 ''h:1'' (Inr (''unknown'' @ [HDC_HOST_DAEMON_BUF_SEPARATOR] @ ''key''))"

definition example_psk_response :: session_handshake where
  "example_psk_response = psk_response example_secure_env example_hello (replicate 32 9)"

text \<open>C3: Host and daemon agree on a key: when both ends want encryption and the key files of the host are in
  place, the start of a session succeeds over any segmentation of the stream, and whatever the host
  sends then, encrypted, the daemon decrypts and serves in order, as on a connection in the clear.\<close>

theorem secure_session_established:
  assumes "check_target_port addr = Inr ()" "in_time 1" "out_faults wr = []" "out_bytes wr = []"
      "session_ciphers (sv_tcp s) sid = None" "keys_stored henv pri pub (sv_fs s)" "he_encrypt_channel henv = Some ''1''"
    and "se_encrypt_channel denv = Some ''1''" "se_ack_in_time denv" "length (se_psk denv) = 32"
      "cipher_keys 0 d = None" "link_up sid d"
    and "aead_correct (sv_aead s)" "d_aead d = sv_aead s"
    and "key_pair_works (he_rsa henv) (se_rsa denv) pri pub pem (se_psk denv) epsk"
    and "info = get_hostname henv @ [HDC_HOST_DAEMON_BUF_SEPARATOR] @ pem" "wf_str info" "length info < 10 ^ 16"
      "HDC_HOST_DAEMON_BUF_SEPARATOR \<notin> set (get_hostname henv)" "HDC_HOST_DAEMON_BUF_SEPARATOR \<notin> set pem"
    and "hello = session_hello henv sid addr (Inr info)" "wf_session_handshake hello"
      "wf_task_message (handshake_msg 0 hello)" "wf_task_message (psk_ack hello)"
    and "resp = psk_response denv hello epsk" "wf_session_handshake resp" "wf_task_message (handshake_msg 0 resp)"
    and "in_ok rd" "in_contents rd = concat_pack (handshake_msg 0 resp) @ rest"
    and "\<forall>m \<in> set ms. wf_task_message m"
  shows "\<exists>rd' s' c fs c'. start_tcp_daemon_session henv in_time sid (Inr (rd, wr)) addr s = Some (Inr rd', s')
    \<and> in_ok rd' \<and> in_contents rd' = rest
    \<and> session_ciphers (sv_tcp s') sid = Some c
    \<and> encrypt_all (sv_aead s) c (map concat_pack ms) = (Inr fs, c')
    \<and> (\<forall>j e d'. in_ok j \<and> in_contents j = session_out sid s' @ concat (map channel_frame fs)
        \<and> serve_spec sid ms (set_cipher sid (psk_new (se_psk denv) False)
            (after_sends [handshake_msg 0 resp] (with_in j d))) = (e, d')
        \<longrightarrow> (\<exists>i n. handle_client denv (with_in j d) = Some (Inr e, end_session sid e (set_recv sid i n d'))))"
  using assms by (rule secure_session)

lemma example_secure_messages:
  "wf_session_handshake example_hello" "wf_task_message (handshake_msg 0 example_hello)" "wf_task_message (psk_ack example_hello)"
  "wf_session_handshake example_psk_response" "wf_task_message (handshake_msg 0 example_psk_response)"
proof -
  have hello: "list_all (\<lambda>s. is_ascii s \<and> length s < 500)
      [hs_banner example_hello, hs_connect_key example_hello, hs_buf example_hello, hs_version example_hello]"
    "hs_auth_type example_hello < 0x80"
    by code_simp+
  then show "wf_session_handshake example_hello" "wf_task_message (handshake_msg 0 example_hello)" by (rule small_handshake)+
  have "wf_task_message (handshake_msg 0 (example_hello\<lparr>hs_auth_type := AUTH_TYPE_SSL_TLS_PSK, hs_buf := []\<rparr>))"
    using hello by (intro small_handshake) (simp_all add: AUTH_TYPE_SSL_TLS_PSK_def is_ascii_def)
  then show "wf_task_message (psk_ack example_hello)" by (simp add: psk_ack_def host_hello_msg)
  show "wf_session_handshake example_psk_response" "wf_task_message (handshake_msg 0 example_psk_response)"
    by (intro small_handshake; code_simp)+
qed

lemma example_secure_keys:
  "keys_stored example_host_env [1] [2] (sv_fs example_key_server)"
  "key_pair_works (he_rsa example_host_env) (se_rsa example_secure_env) [1] [2] ''key'' (se_psk example_secure_env) (replicate 32 9)"
  "check_target_port ''h:1'' = Inr ()" "get_hostname example_host_env = ''unknown''"
proof -
  have key: "wf_str ''key''" by (simp add: wf_str_ascii is_ascii_def)
  have dir: "get_user_key_dir example_host_env = Inr (path_join ''/h'' RSA_PRIKEY_PATH)"
    by (simp add: get_user_key_dir_def example_host_env_def)
  show "keys_stored example_host_env [1] [2] (sv_fs example_key_server)"
    using key unfolding keys_stored_def get_private_key_path_def get_public_key_path_def dir
    by (auto simp: example_key_server_def example_fs_def example_host_env_def parse_private_key_def)
  show "key_pair_works (he_rsa example_host_env) (se_rsa example_secure_env) [1] [2] ''key'' (se_psk example_secure_env) (replicate 32 9)"
    by (simp add: key_pair_works_def example_host_env_def example_secure_env_def example_env_def is_ascii_def)
  have "digit_val CHR ''1'' = Some 1" "rsplit_once CHR '':'' ''h:1'' = Some (''h'', ''1'')" by code_simp+
  then show "check_target_port ''h:1'' = Inr ()" by (simp add: check_target_port_def parse_uint_def)
  show "get_hostname example_host_env = ''unknown''" by (simp add: get_hostname_def example_host_env_def)
qed

theorem secure_session_established_witness:
  "\<exists>rd' s' j d'. start_tcp_daemon_session example_host_env (\<lambda>_. True) 300
      (Inr (\<lparr>in_segs = [concat_pack (handshake_msg 0 example_psk_response)], in_end = Eof\<rparr>, \<lparr>out_bytes = [], out_faults = []\<rparr>))
      ''h:1'' example_key_server = Some (Inr rd', s')
    \<and> handle_client example_secure_env (with_in j example_daemon) = Some (Inr (ShellBridge 3), d')
    \<and> prefix (session_out 300 s') (in_contents j)"
proof -
  let ?rd = "\<lparr>in_segs = [concat_pack (handshake_msg 0 example_psk_response)], in_end = Eof\<rparr>"
    and ?wr = "\<lparr>out_bytes = [], out_faults = []\<rparr>" and ?info = "''unknown'' @ [HDC_HOST_DAEMON_BUF_SEPARATOR] @ ''key''"
  have spec: "serve_spec 300 [example_shell] d = (ShellBridge 3, d)" for d by (simp add: example_shell_def)
  have info: "wf_str ?info" "HDC_HOST_DAEMON_BUF_SEPARATOR \<notin> set ''unknown''" "HDC_HOST_DAEMON_BUF_SEPARATOR \<notin> set ''key''"
    by (simp_all add: wf_str_ascii is_ascii_def HDC_HOST_DAEMON_BUF_SEPARATOR_def)
  have envs: "he_encrypt_channel example_host_env = Some ''1''" "se_encrypt_channel example_secure_env = Some ''1''"
    "se_ack_in_time example_secure_env" "length (se_psk example_secure_env) = 32"
    "session_ciphers (sv_tcp example_key_server) 300 = None" "sv_aead example_key_server = toy_aead"
    by (simp_all add: example_host_env_def example_secure_env_def example_env_def example_key_server_def example_server_def)
  have rd: "in_ok ?rd" "in_contents ?rd = concat_pack (handshake_msg 0 example_psk_response) @ []"
    using concat_pack_nonempty [of _ "[]", THEN not_sym] by (auto simp: in_ok_def in_contents_def)
  obtain rd' s' c fs c' where s': "start_tcp_daemon_session example_host_env (\<lambda>_. True) 300 (Inr (?rd, ?wr)) ''h:1''
      example_key_server = Some (Inr rd', s')"
    and served: "\<And>j e d'. in_ok j \<and> in_contents j = session_out 300 s' @ concat (map channel_frame fs)
        \<and> serve_spec 300 [example_shell] (set_cipher 300 (psk_new (se_psk example_secure_env) False)
            (after_sends [handshake_msg 0 example_psk_response] (with_in j example_daemon))) = (e, d')
        \<Longrightarrow> \<exists>i n. handle_client example_secure_env (with_in j example_daemon)
            = Some (Inr e, end_session 300 e (set_recv 300 i n d'))"
    using secure_session_established [of "''h:1''" "\<lambda>_. True" ?wr example_key_server 300 example_host_env "[1]" "[2]" example_secure_env
        example_daemon "''key''" "replicate 32 9" ?info example_hello example_psk_response ?rd "[]" "[example_shell]"]
      example_secure_keys envs example_daemon_session toy_aead_correct info example_secure_messages rd example_handshake_wf(3)
    by (auto simp: example_hello_def example_psk_response_def simp del: serve_spec.simps)
  let ?j = "\<lparr>in_segs = filter (\<lambda>b. b \<noteq> []) [session_out 300 s' @ concat (map channel_frame fs)], in_end = Eof\<rparr>"
  have "in_ok ?j" "in_contents ?j = session_out 300 s' @ concat (map channel_frame fs)"
    by (auto simp: in_ok_def in_contents_def)
  then show ?thesis using s' served [of ?j] by (fastforce simp: spec simp del: serve_spec.simps)
qed

text \<open>C22: Host and daemon do not agree on an upload: for every file the server sends messages to which this
  daemon answers with an error text instead of the expected message. The transfer fails with an error,
  and nothing is stored on the device.\<close>

theorem upload_always_refused:
  assumes "host_up sid s" "link_up sid d"
    and "resolve_file_paths params = Inr (lp, rp)" "fs_deny (sv_fs s) lp = None" "fs_files (sv_fs s) lp = Some c"
  shows "\<exists>ms replies evs s' d'. handle_server_file_send sid ch params (map Received replies, s)
      = (Inl (Error InvalidData ''Expected FileBegin, got KernelEcho''), (evs, s'))
    \<and> session_out sid s' = session_out sid s @ concat (map concat_pack ms)
    \<and> serve_spec sid ms d = (SessionClosed, d')
    \<and> sent_bytes d' = sent_bytes d @ concat (map concat_pack replies)
    \<and> d_fs d' = d_fs d"
  using assms by (rule upload_refused)

theorem upload_always_refused_witness:
  "\<exists>replies x. handle_server_file_send 1 9 [''file'', ''send'', ''/a'', ''/b''] (map Received replies, example_server)
    = (Inl (Error InvalidData ''Expected FileBegin, got KernelEcho''), x)"
  using upload_always_refused [OF example_server_ok(1) example_daemon_ok(1) example_file_paths(1) example_server_ok(3,4)] by blast



definition example_forward_env :: forward_env where
  "example_forward_env = \<lparr>fv_listen_ip = None, fv_ctx_id = 5, fv_handle = 0, fv_bind = (\<lambda>_ _. None), fv_connect = (\<lambda>_ _. None)\<rparr>"

lemma example_daemon_forwards: "fw_rport (d_forward example_daemon) 9 = None" "fw_os (d_forward example_daemon) = []"
  by (simp_all add: example_daemon_def)

text \<open>C10: A reverse forward is set up: the messages of the server and of the daemon fit together, the daemon
  ends with an open listener that has the confirmation of the host, the server with an entry in its
  list of forwards, and the client is told the success.\<close>

theorem reverse_forward_established:
  assumes "host_up sid s" "channel_up ch s" "link_up sid d"
    and "rp \<le> 65535" "lp \<le> 65535" "fv_connect env 0 lp = None"
    and "fw_rport (d_forward d) ch = None" "fw_os (d_forward d) = []"
  shows "\<exists>s' d1 d2 d3. handle_server_rport env key sid ch [''rport'', tcp_spec rp, tcp_spec lp]
        (map Received [daemon_check_msg ch lid lp, daemon_success_msg ch rp lp], s) = (Inr (), ([], s'))
    \<and> session_out sid s' = session_out sid s
        @ concat (map concat_pack [rport_init_msg ch rp lp, check_result_msg ch lid True])
    \<and> channel_sent ch s' = channel_sent ch s @ channel_frame (as_bytes (''Forwardport result:OK'' @ CRLF))
    \<and> map_of (sv_forward s') (tcp_spec rp @ '' '' @ tcp_spec lp) = Some \<lparr>fe_channel_id = ch, fe_session_id = sid,
        fe_connect_key = key, fe_direction = Reverse, fe_task_string = tcp_spec rp @ '' '' @ tcp_spec lp, fe_abort_handle = None\<rparr>
    \<and> serve_spec sid [rport_init_msg ch rp lp] d = (SessionClosed, d1)
    \<and> serve_spec sid [check_result_msg ch lid True] d1 = (SessionClosed, d2)
    \<and> fw_rport (d_forward d2) ch = Some [CheckResult lid True]
    \<and> rport_open sid ch lid (tcp_spec rp) (tcp_spec lp) [CheckResult lid True] d2 = (Some [], d3)
    \<and> sent_bytes d3 = sent_bytes d @ concat (map concat_pack [daemon_check_msg ch lid lp, daemon_success_msg ch rp lp])"
  using assms by (rule rport_established)

theorem reverse_forward_established_witness:
  "\<exists>s'. handle_server_rport example_forward_env ''k'' 1 9 [''rport'', tcp_spec 80, tcp_spec 90]
      (map Received [daemon_check_msg 9 4 90, daemon_success_msg 9 80 90], example_server) = (Inr (), ([], s'))"
  using reverse_forward_established [OF example_server_ok(1,2) example_daemon_ok(1) _ _ _ example_daemon_forwards,
      of 80 90 example_forward_env "''k''" 4]
  by (auto simp: example_forward_env_def)

text \<open>C21: A forward cannot be set up with this daemon over TCP: the server reads the daemon's acceptance as a
  refusal, falls back to the other flow and sends the answer of that flow to USB sessions only. The
  command fails, no entry is made, and the queue of the forward stays registered.\<close>

theorem forward_over_tcp_fails:
  assumes "host_up sid s" "link_up sid d" "session_senders (sv_usb s) sid = None"
    and "lp \<le> 65535" "rp \<le> 65535" "fv_bind env 0 lp = None" "fv_bind env 1 lp = None"
    and "fw_rport (d_forward d) ch = None" "fw_os (d_forward d) = []"
  shows "\<exists>s' d1 d2 d3. handle_server_forward env key sid ch [''fport'', tcp_spec lp, tcp_spec rp]
        (map Received [daemon_result_msg ch (fv_ctx_id env), daemon_check_msg ch lid rp], s)
      = (Inl (Error NotFound ''usb session not found''), ([], s'))
    \<and> session_out sid s' = session_out sid s
        @ concat (map concat_pack [host_check_msg ch (fv_ctx_id env) rp, rport_init_msg ch lp rp])
    \<and> serve_spec sid [host_check_msg ch (fv_ctx_id env) rp] d = (SessionClosed, d1)
    \<and> serve_spec sid [rport_init_msg ch lp rp] d1 = (SessionClosed, d2)
    \<and> rport_open sid ch lid (tcp_spec lp) (tcp_spec rp) [] d2 = (None, d3)
    \<and> sent_bytes d3 = sent_bytes d @ concat (map concat_pack [daemon_result_msg ch (fv_ctx_id env), daemon_check_msg ch lid rp])
    \<and> sv_forward s' = sv_forward s
    \<and> map_of (response_channels (sv_usb s')) (sid, ch) \<noteq> None"
  using assms by (rule fport_fails)

theorem forward_over_tcp_fails_witness:
  "\<exists>s'. handle_server_forward example_forward_env ''k'' 1 9 [''fport'', tcp_spec 80, tcp_spec 90]
      (map Received [daemon_result_msg 9 5, daemon_check_msg 9 4 90], example_server)
      = (Inl (Error NotFound ''usb session not found''), ([], s'))
    \<and> map_of (response_channels (sv_usb s')) (1, 9) \<noteq> None"
  using forward_over_tcp_fails [OF example_server_ok(1) example_daemon_ok(1) example_server_ok(8) _ _ _ _ example_daemon_forwards,
      of 80 90 example_forward_env "''k''" 4]
  by (auto simp: example_forward_env_def)

section \<open>The client\<close>



definition example_process :: process where
  "example_process = \<lparr>pr_out = [], pr_err = [], pr_fs = example_fs, pr_cwd = Inr ''/'', pr_exe = Inr ''/hdc'', pr_spawned = [],
     pr_connects = [Inr (\<lparr>in_segs = [channel_frame (channel_hello 9)], in_end = Eof\<rparr>, \<lparr>out_bytes = [], out_faults = []\<rparr>)],
     pr_console = []\<rparr>"

lemma channel_frame_nonempty [simp]: "channel_frame m \<noteq> []" "[] \<noteq> channel_frame m"
proof -
  have "length (channel_frame m) \<noteq> 0" by (simp add: channel_frame_def)
  then show "channel_frame m \<noteq> []" "[] \<noteq> channel_frame m" by force+
qed


text \<open>C24: The receive loop of the client ends with the connection: however the messages of the server are
  cut into segments, it prints them all in order and returns without an error when the server closes.\<close>

theorem client_receive_returns:
  assumes "cl_rd c = Some rd" "in_ok rd" "in_end rd = Eof" "in_contents rd = concat (map channel_frame ms)"
    and "\<forall>m \<in> set ms. length m < 2 ^ 32 \<and> valid_utf8 m"
  shows "\<exists>c'. loop_recv c = (Inr (), c') \<and> cl_process c' = print_out (of_bytes (concat ms)) (cl_process c) \<and> cl_wr c' = cl_wr c"
  using assms by (rule loop_recv_all)

definition example_client :: "bytes \<Rightarrow> client" where
  "example_client b = \<lparr>cl_command = KernelTargetReconnect, cl_params = [''tconn''], cl_connect_key = [],
     cl_wr = Some \<lparr>out_bytes = [], out_faults = []\<rparr>, cl_rd = Some \<lparr>in_segs = [b], in_end = Eof\<rparr>, cl_process = example_process\<rparr>"

theorem client_receive_returns_witness:
  "\<exists>c'. loop_recv (example_client (channel_frame (as_bytes ''ok''))) = (Inr (), c') \<and> pr_out (cl_process c') = ''ok''"
proof -
  let ?c = "example_client (channel_frame (as_bytes ''ok''))"
    and ?rd = "\<lparr>in_segs = [channel_frame (as_bytes ''ok'')], in_end = Eof\<rparr>"
  have "cl_rd ?c = Some ?rd" "in_ok ?rd" "in_end ?rd = Eof" "in_contents ?rd = concat (map channel_frame [as_bytes ''ok''])"
    by (simp_all add: example_client_def in_ok_def in_contents_def)
  moreover have "valid_utf8 (as_bytes ''ok'')" by code_simp
  then have "\<forall>m \<in> set [as_bytes ''ok'']. length m < 2 ^ 32 \<and> valid_utf8 m" by simp
  ultimately obtain c' where "loop_recv ?c = (Inr (), c')"
    "cl_process c' = print_out (of_bytes (concat [as_bytes ''ok''])) (cl_process ?c)"
    using client_receive_returns by blast
  then show ?thesis by (simp add: print_out_def example_client_def example_process_def)
qed

text \<open>C37: The handshake between client and server works: the client accepts the hello of any channel, its
  reply is a message of the channel, and the server reads from it the device that the client wants.\<close>

theorem client_server_handshake:
  assumes "cl_rd c = Some rd" "in_ok rd" "in_contents rd = channel_frame (channel_hello ch) @ ys"
    and "cl_wr c = Some wr" "out_faults wr = []" "length (cl_connect_key c) \<le> KEY_MAX_SIZE"
    and "wf_str (cl_connect_key c)" "CHR 0x00 \<notin> set (cl_connect_key c)"
  shows "\<exists>rd' wr' reply. handshake c = (Finished (Inr ()), c\<lparr>cl_rd := Some rd', cl_wr := Some wr'\<rparr>)
    \<and> in_contents rd' = ys \<and> out_bytes wr' = out_bytes wr @ channel_frame reply
    \<and> unpack_channel_handshake reply = Some (Inr (cl_connect_key c))"
  using handshake_ok [OF assms(1-6)] reply_unpacked [OF assms(7,8,6)] by blast

theorem client_server_handshake_witness:
  "\<exists>c'. handshake (example_client (channel_frame (channel_hello 9))) = (Finished (Inr ()), c')"
  using client_server_handshake [of "example_client (channel_frame (channel_hello 9))"
      "\<lparr>in_segs = [channel_frame (channel_hello 9)], in_end = Eof\<rparr>" 9 "[]" "\<lparr>out_bytes = [], out_faults = []\<rparr>"]
  by (auto simp: example_client_def in_ok_def in_contents_def wf_str_ascii is_ascii_def)



text \<open>C39: A message that input interrupts between its length and its text is lost: what was read of it is
  dropped, its text is taken for the head of another message, and nothing of it is shown.\<close>

theorem client_shell_loses_message:
  assumes "4 \<le> length m" "length m < 2 ^ 24" "hd m \<noteq> 0" "out_faults wr = []"
  shows "shell_loop [] [FromServer (to_be 4 (of_nat (length m) :: u32)), FromStdin d, FromServer m] wr p
    = (Inr (), (wr\<lparr>out_bytes := out_bytes wr @ channel_frame d\<rparr>, p))"
  using assms by (rule shell_loop_lost)

theorem client_shell_loses_message_witness:
  "shell_loop [] [FromServer (to_be 4 (of_nat (length (as_bytes ''file'')) :: u32)), FromStdin [0x61], FromServer (as_bytes ''file'')]
      \<lparr>out_bytes = [], out_faults = []\<rparr> example_process
    = (Inr (), (\<lparr>out_bytes = channel_frame [0x61], out_faults = []\<rparr>, example_process))"
proof -
  have "hd (as_bytes ''file'') \<noteq> 0" by code_simp
  then show ?thesis
    using client_shell_loses_message [of "as_bytes ''file''" "\<lparr>out_bytes = [], out_faults = []\<rparr>" "[0x61]" example_process]
    by (simp del: shell_loop.simps)
qed

text \<open>C40: The arguments with which the client starts a server are read back by that server: it runs as a
  server on the same address, with the same level of logging and the same address for forwards.\<close>

theorem started_server_settings:
  assumes "level < 7" and "parse_server_listen_string addr = Inr addr" and "address_text addr"
    and "ip = [] \<or> address_text ip \<and> parse_ip_addr ip \<noteq> None"
  shows "parse_command (exe # server_fork_args addr level ip)
    = Some (Inr (parsed_default\<lparr>pc_run_in_server := True, pc_spawned_server := True, pc_log_level := level,
        pc_server_addr := addr, pc_forward_listen_ip := (if ip = [] then ''127.0.0.1'' else ip)\<rparr>))"
  using assms by (rule fork_args_parsed)

lemma example_address:
  "parse_ip_addr ''127.0.0.1'' = Some (V4 (127, 0, 0, 1))" "parse_server_listen_string ''127.0.0.1:8710'' = Inr ''127.0.0.1:8710''"
proof -
  have v4: "read_ipv4_addr ''127.0.0.1'' = Some ((127, 0, 0, 1), [])" by code_simp
  then show ip: "parse_ip_addr ''127.0.0.1'' = Some (V4 (127, 0, 0, 1))"
    by (simp add: parse_ip_addr_def parse_all_def read_ip_addr_def)
  have digits: "list_all (\<lambda>c. digit_val c \<noteq> None) ''8710''" by code_simp
  have "digit_val CHR ''0'' = Some 0" "digit_val CHR ''1'' = Some 1" "digit_val CHR ''7'' = Some 7" "digit_val CHR ''8'' = Some 8"
    by code_simp+
  then have port: "parse_uint 65535 ''8710'' = Some 8710" by (simp add: parse_uint_def)
  then have "read_socket_addr_v4 ''127.0.0.1:8710'' = Some (((127, 0, 0, 1), 8710), [])"
    using read_socket_addr_v4_join [OF v4, of "''8710''"] read_digits [OF _ digits port] by simp
  then have "parse_socket_addr ''127.0.0.1:8710'' = Some (V4 (127, 0, 0, 1), 8710)"
    by (simp add: parse_socket_addr_def parse_all_def)
  then have "normalize_listen_addr ''127.0.0.1:8710'' = ''127.0.0.1:8710''" by (simp add: normalize_listen_addr_def)
  moreover have "check_port ''8710'' = Inr 8710" using port digits by (simp add: check_port_def)
  moreover have "split_on CHR '':'' ''127.0.0.1:8710'' = [''127.0.0.1'', ''8710'']"
    "trim_end_matches (\<lambda>c. c = CHR '']'') (trim_start_matches (\<lambda>c. c = CHR ''['') ''127.0.0.1'') = ''127.0.0.1''"
    by code_simp+
  ultimately show "parse_server_listen_string ''127.0.0.1:8710'' = Inr ''127.0.0.1:8710''"
    using ip by (simp add: parse_server_listen_string_def Let_def)
qed

theorem started_server_settings_witness:
  "parse_command (''hdc'' # server_fork_args ''127.0.0.1:8710'' 3 [])
    = Some (Inr (parsed_default\<lparr>pc_run_in_server := True, pc_spawned_server := True, pc_log_level := 3,
        pc_server_addr := ''127.0.0.1:8710'', pc_forward_listen_ip := ''127.0.0.1''\<rparr>))"
proof -
  have "address_text ''127.0.0.1:8710''" by code_simp
  then show ?thesis using started_server_settings [of 3 "''127.0.0.1:8710''" "[]" "''hdc''"] example_address(2) by simp
qed

end
